(* ===== verification/Prelude.thy ===== *)
theory Prelude
  imports Main "HOL-Library.Word"
begin

text \<open>
  The vocabulary that every component of the development shares: bytes and strings, the
  error values of the daemon (one constructor per \<^verbatim>\<open>errors.New\<close> variable under src/, in the
  order of the files), the ways a goroutine can end, Go channels with a buffer of one, and the
  generic lemmas on lists, options and bytes that the component proofs rely on.

  The collections \<open>go_defs\<close> (unfolding rules of the small operations), \<open>codec_simps\<close>
  (facts on encoders and decoders) and \<open>chan_simps\<close> (facts on channels) are filled by the
  components and used as \<open>simp add: \<dots>\<close> in their proofs.
\<close>

named_theorems go_defs
named_theorems codec_simps
named_theorems chan_simps

section \<open>Bytes and strings\<close>

text \<open>
  A Go \<^verbatim>\<open>[]byte\<close> is a list of 8-bit words, a Go \<^verbatim>\<open>string\<close> a list of characters (which are bytes
  too); the conversions \<^verbatim>\<open>[]byte(s)\<close> and \<^verbatim>\<open>string(b)\<close> of the source are explicit here as well.
\<close>

type_synonym byte = "8 word"
type_synonym bytes = "byte list"

definition char_byte :: "char \<Rightarrow> byte" where
  "char_byte c = word_of_nat (of_char c)"

definition byte_char :: "byte \<Rightarrow> char" where
  "byte_char b = char_of (unat b)"

definition str_bytes :: "string \<Rightarrow> bytes" where
  "str_bytes s = map char_byte s"

definition bytes_str :: "bytes \<Rightarrow> string" where
  "bytes_str bs = map byte_char bs"

section \<open>Errors\<close>

text \<open>
  Go's \<^verbatim>\<open>error\<close> interface. \<open>ErrNew\<close> is a message made on the spot without wrapping,
  \<open>ErrWrap\<close> is \<^verbatim>\<open>fmt.Errorf\<close> with \<^verbatim>\<open>%w\<close>, and \<open>ErrExt\<close> is an error handed over by code
  that is not part of the repository.
\<close>

datatype go_error =
    EOF | ErrUnexpectedEOF
  | ErrBase64 nat | ErrHex | ErrJsonSyntax | ErrJsonType | ErrAddr string
  | ErrPCRMismatch | ErrNonceMismatch | ErrNoAttstnFromNSM
  | ErrBadForm | ErrNoNonce | ErrBadNonceFormat | ErrFailedAttestation | ErrProfilingSet
  | ErrUninitializedCert | ErrCacheMiss
  | ErrCfgMissingFQDN | ErrCfgMissingPort
  | ErrFailedReqBody | ErrHashWrongSize | ErrNoBase64 | ErrDesignationInProgress
  | ErrEndpointGone | ErrKeySyncDisabled | ErrNo200 nat
  | ErrNotEnoughRead
  | ErrExpectedEmptyKeys
  | ErrInProgress | ErrFailedToDecrypt | ErrHashNotInAttstn
  | ErrTooMuchToRead
  | ErrBadSliceLen
  | ErrNew string
  | ErrWrap string go_error
  | ErrExt string

type_synonym 'a res = "go_error + 'a"

primrec is_ok :: "'a res \<Rightarrow> bool" where
  "is_ok (Inl e) = False"
| "is_ok (Inr x) = True"

text \<open>\<^verbatim>\<open>errors.Is\<close>: the error itself or one that it wraps.\<close>

fun errors_Is :: "go_error \<Rightarrow> go_error \<Rightarrow> bool" where
  "errors_Is (ErrWrap s e) t = (ErrWrap s e = t \<or> errors_Is e t)"
| "errors_Is e t = (e = t)"

section \<open>Copying between slices\<close>

text \<open>Go's built-in \<^verbatim>\<open>copy(dst, src)\<close>: as many bytes as both slices hold.\<close>

definition go_copy :: "bytes \<Rightarrow> bytes \<Rightarrow> bytes" where
  "go_copy dst src = take (length dst) src @ drop (length src) dst"

section \<open>How a goroutine ends\<close>

text \<open>
  A call returns, waits for ever on a channel that nobody serves, panics (a failed type
  assertion), or ends the process (\<^verbatim>\<open>elog.Fatalf\<close>). Each outcome carries the state reached,
  because the effects made before that point stay.
\<close>

datatype 'a outcome = Returned 'a | Blocks 'a | Panics 'a | Exits 'a

primrec reached :: "'a outcome \<Rightarrow> 'a" where
  "reached (Returned x) = x"
| "reached (Blocks x) = x"
| "reached (Panics x) = x"
| "reached (Exits x) = x"

section \<open>Channels with a buffer of one\<close>

text \<open>
  \<^verbatim>\<open>make(chan T, 1)\<close>: \<open>None\<close> is the empty buffer. Sending to a full channel and receiving
  from an empty one wait, which the operations report as \<open>None\<close>.
\<close>

type_synonym 'a chan1 = "'a option"

definition chan_len :: "'a chan1 \<Rightarrow> nat" where
  "chan_len c = (case c of None \<Rightarrow> 0 | Some _ \<Rightarrow> 1)"

definition chan_send :: "'a \<Rightarrow> 'a chan1 \<Rightarrow> 'a chan1 option" where
  "chan_send x c = (case c of None \<Rightarrow> Some (Some x) | Some _ \<Rightarrow> None)"

definition chan_recv :: "'a chan1 \<Rightarrow> ('a \<times> 'a chan1) option" where
  "chan_recv c = (case c of None \<Rightarrow> None | Some x \<Rightarrow> Some (x, None))"

section \<open>Lemmas on bytes, strings and channels\<close>

lemma unat_byte_less [simp]: "unat (b :: byte) < 256"
  using unsigned_less [where ?'a = nat and w = b] by simp

lemma unat_of_nat_byte [simp]: "unat (word_of_nat n :: byte) = n mod 256"
  by (simp add: unat_of_nat)

lemma of_char_less_256 [simp]: "(of_char c :: nat) < 256"
proof -
  have "(of_char c :: nat) = of_char c mod 256" by simp
  also have "\<dots> < 256" by (rule mod_less_divisor) simp
  finally show ?thesis .
qed

lemma byte_char_char_byte [simp]: "byte_char (char_byte c) = c"
  by (simp add: byte_char_def char_byte_def)

lemma char_byte_byte_char [simp]: "char_byte (byte_char b) = b"
proof -
  have "word_of_nat (unat b mod 256) = b"
    by (simp add: mod_less)
  then show ?thesis by (simp add: char_byte_def byte_char_def)
qed

lemma bytes_str_str_bytes [simp]: "bytes_str (str_bytes s) = s"
  by (simp add: bytes_str_def str_bytes_def comp_def)

lemma str_bytes_bytes_str [simp]: "str_bytes (bytes_str bs) = bs"
  by (simp add: bytes_str_def str_bytes_def comp_def)

lemma length_str_bytes [simp]: "length (str_bytes s) = length s"
  by (simp add: str_bytes_def)

lemma length_bytes_str [simp]: "length (bytes_str s) = length s"
  by (simp add: bytes_str_def)

lemma str_bytes_append [simp]: "str_bytes (s @ t) = str_bytes s @ str_bytes t"
  by (simp add: str_bytes_def)

lemma bytes_str_append [simp]: "bytes_str (s @ t) = bytes_str s @ bytes_str t"
  by (simp add: bytes_str_def)

lemma bytes_str_Nil [simp]: "bytes_str [] = []"
  by (simp add: bytes_str_def)

lemma str_bytes_Nil [simp]: "str_bytes [] = []"
  by (simp add: str_bytes_def)

lemma str_bytes_inject [simp]: "str_bytes s = str_bytes t \<longleftrightarrow> s = t"
  by (metis bytes_str_str_bytes)

lemma length_go_copy [simp]: "length (go_copy dst src) = length dst"
  by (simp add: go_copy_def)

lemma go_copy_full [simp]: "length src = length dst \<Longrightarrow> go_copy dst src = src"
  by (simp add: go_copy_def)

lemma chan_len_Some [simp]: "chan_len (Some x) = 1"
  by (simp add: chan_len_def)

lemma chan_len_None [simp]: "chan_len None = 0"
  by (simp add: chan_len_def)

lemma chan_send_simps [simp]:
  "chan_send x None = Some (Some x)"
  "chan_send x (Some y) = None"
  by (simp_all add: chan_send_def)

lemma chan_recv_simps [simp]:
  "chan_recv None = None"
  "chan_recv (Some x) = Some (x, None)"
  by (simp_all add: chan_recv_def)

lemma chan_len_le_1: "chan_len c \<le> 1"
  by (cases c) simp_all

text \<open>What was sent to an empty channel is what the next receive returns.\<close>

lemma chan_send_recv [chan_simps]: "chan_send x c = Some c' \<Longrightarrow> chan_recv c' = Some (x, c)"
  by (cases c) auto

end
