(* ===== verification/Go_Text.thy ===== *)
theory Go_Text
  imports Prelude
begin

text \<open>
  The parts of Go's standard library that turn bytes into text and back, as far as the daemon
  uses them: \<^verbatim>\<open>encoding/hex\<close>, \<^verbatim>\<open>encoding/base64\<close> (\<^verbatim>\<open>StdEncoding\<close>), the decimal verb \<^verbatim>\<open>%d\<close>,
  \<^verbatim>\<open>strings.ToLower\<close>, \<^verbatim>\<open>strings.TrimSpace\<close>, \<^verbatim>\<open>strings.Split\<close>, \<^verbatim>\<open>net.SplitHostPort\<close>,
  \<^verbatim>\<open>url.ParseQuery\<close> and \<^verbatim>\<open>binary.LittleEndian\<close>. The lemmas are the round trips and the length
  facts that the components need.
\<close>

section \<open>Hexadecimal\<close>

definition hex_digit :: "nat \<Rightarrow> char" where
  "hex_digit n = char_of (if n < 10 then n + 48 else n + 87)"

definition hex_val :: "char \<Rightarrow> nat option" where
  "hex_val c =
     (let n = of_char c in
      if 48 \<le> n \<and> n \<le> 57 then Some (n - 48)
      else if 97 \<le> n \<and> n \<le> 102 then Some (n - 87)
      else if 65 \<le> n \<and> n \<le> 70 then Some (n - 55)
      else None)"

text \<open>\<^verbatim>\<open>fmt.Sprintf("%x", b)\<close> on a byte slice or array.\<close>

fun hex_EncodeToString :: "bytes \<Rightarrow> string" where
  "hex_EncodeToString [] = []"
| "hex_EncodeToString (b # bs) =
     hex_digit (unat b div 16) # hex_digit (unat b mod 16) # hex_EncodeToString bs"

fun hex_DecodeString :: "string \<Rightarrow> bytes res" where
  "hex_DecodeString [] = Inr []"
| "hex_DecodeString [c] = Inl ErrHex"
| "hex_DecodeString (c # d # cs) =
     (case (hex_val c, hex_val d) of
        (Some h, Some l) \<Rightarrow>
          (case hex_DecodeString cs of
             Inl e \<Rightarrow> Inl e
           | Inr bs \<Rightarrow> Inr (word_of_nat (16 * h + l) # bs))
      | _ \<Rightarrow> Inl ErrHex)"

text \<open>
  \<^verbatim>\<open>strings.ToLower\<close> on the ASCII letters. Bytes outside ASCII stay; the only consumer of the
  result is \<^verbatim>\<open>hex.DecodeString\<close>, which rejects a string with such a byte either way.
\<close>

definition lower_char :: "char \<Rightarrow> char" where
  "lower_char c = (let n = of_char c in if 65 \<le> n \<and> n \<le> (90::nat) then char_of (n + 32) else c)"

definition strings_ToLower :: "string \<Rightarrow> string" where
  "strings_ToLower s = map lower_char s"

section \<open>Base64 (StdEncoding)\<close>

definition b64_char :: "nat \<Rightarrow> char" where
  "b64_char n = char_of
     (if n < 26 then n + 65 else if n < 52 then n + 71 else if n < 62 then n - 4
      else if n = 62 then 43 else 47)"

definition b64_val :: "char \<Rightarrow> nat option" where
  "b64_val c =
     (let n = of_char c in
      if 65 \<le> n \<and> n \<le> 90 then Some (n - 65)
      else if 97 \<le> n \<and> n \<le> 122 then Some (n - 71)
      else if 48 \<le> n \<and> n \<le> 57 then Some (n + 4)
      else if n = 43 then Some 62
      else if n = 47 then Some 63
      else None)"

fun b64_EncodeToString :: "bytes \<Rightarrow> string" where
  "b64_EncodeToString [] = []"
| "b64_EncodeToString [a] =
     [b64_char (unat a div 4), b64_char (unat a mod 4 * 16), CHR ''='', CHR ''='']"
| "b64_EncodeToString [a, b] =
     [b64_char (unat a div 4), b64_char (unat a mod 4 * 16 + unat b div 16),
      b64_char (unat b mod 16 * 4), CHR ''='']"
| "b64_EncodeToString (a # b # c # rest) =
     b64_char (unat a div 4) # b64_char (unat a mod 4 * 16 + unat b div 16)
     # b64_char (unat b mod 16 * 4 + unat c div 64) # b64_char (unat c mod 64)
     # b64_EncodeToString rest"

definition b64_EncodedLen :: "nat \<Rightarrow> nat" where
  "b64_EncodedLen n = (n + 2) div 3 * 4"

definition is_newline :: "char \<Rightarrow> bool" where
  "is_newline c = (c = CHR 0x0A \<or> c = CHR 0x0D)"

text \<open>The bytes of a quantum of two, three or four sextets (the padding bits are ignored).\<close>

fun b64_quantum :: "nat list \<Rightarrow> bytes" where
  "b64_quantum [p, q] = [word_of_nat (p * 4 + q div 16)]"
| "b64_quantum [p, q, r] =
     [word_of_nat (p * 4 + q div 16), word_of_nat (q mod 16 * 16 + r div 4)]"
| "b64_quantum [p, q, r, s] =
     [word_of_nat (p * 4 + q div 16), word_of_nat (q mod 16 * 16 + r div 4),
      word_of_nat (r mod 4 * 64 + s)]"
| "b64_quantum _ = []"

text \<open>
  After the last padding character only newlines may follow; \<open>si\<close> is the position after it.
\<close>

definition b64_finish :: "nat \<Rightarrow> nat list \<Rightarrow> string \<Rightarrow> bytes res" where
  "b64_finish si d cs =
     (if dropWhile is_newline cs = [] then Inr (b64_quantum d)
      else Inl (ErrBase64 (si + length (takeWhile is_newline cs))))"

text \<open>
  The decoder reads sextets into a quantum \<open>d\<close>, skipping newlines; \<open>si\<close> is the position of
  the next character, which \<^verbatim>\<open>CorruptInputError\<close> reports.
\<close>

fun b64_decode :: "nat \<Rightarrow> nat list \<Rightarrow> string \<Rightarrow> bytes res" where
  "b64_decode si d [] = (if d = [] then Inr [] else Inl (ErrBase64 (si - length d)))"
| "b64_decode si d (c # cs) =
     (case b64_val c of
        Some v \<Rightarrow>
          (if length d < 3 then b64_decode (Suc si) (d @ [v]) cs
           else (case b64_decode (Suc si) [] cs of
                   Inl e \<Rightarrow> Inl e
                 | Inr bs \<Rightarrow> Inr (b64_quantum (d @ [v]) @ bs)))
      | None \<Rightarrow>
          (if is_newline c then b64_decode (Suc si) d cs
           else if c \<noteq> CHR ''='' \<or> length d < 2 then Inl (ErrBase64 si)
           else if length d = 2 then
             (let si' = Suc si + length (takeWhile is_newline cs) in
              case dropWhile is_newline cs of
                [] \<Rightarrow> Inl (ErrBase64 si')
              | e # es \<Rightarrow>
                  (if e \<noteq> CHR ''='' then Inl (ErrBase64 (si' - 1))
                   else b64_finish (Suc si') d es))
           else b64_finish (Suc si) d cs))"

definition b64_DecodeString :: "string \<Rightarrow> bytes res" where
  "b64_DecodeString s = b64_decode 0 [] s"

section \<open>Decimal numbers, white space, splitting\<close>

fun show_nat :: "nat \<Rightarrow> string" where
  "show_nat n =
     (if n < 10 then [char_of (n + 48)] else show_nat (n div 10) @ [char_of (n mod 10 + 48)])"

declare show_nat.simps [simp del]

text \<open>
  The UTF-8 encodings of the characters for which \<^verbatim>\<open>unicode.IsSpace\<close> holds.
\<close>

definition space_encodings :: "string list" where
  "space_encodings =
     [[CHR 0x09], [CHR 0x0A], [CHR 0x0B], [CHR 0x0C], [CHR 0x0D], [CHR 0x20],
      [CHR 0xC2, CHR 0x85], [CHR 0xC2, CHR 0xA0], [CHR 0xE1, CHR 0x9A, CHR 0x80],
      [CHR 0xE2, CHR 0x80, CHR 0x80], [CHR 0xE2, CHR 0x80, CHR 0x81],
      [CHR 0xE2, CHR 0x80, CHR 0x82], [CHR 0xE2, CHR 0x80, CHR 0x83],
      [CHR 0xE2, CHR 0x80, CHR 0x84], [CHR 0xE2, CHR 0x80, CHR 0x85],
      [CHR 0xE2, CHR 0x80, CHR 0x86], [CHR 0xE2, CHR 0x80, CHR 0x87],
      [CHR 0xE2, CHR 0x80, CHR 0x88], [CHR 0xE2, CHR 0x80, CHR 0x89],
      [CHR 0xE2, CHR 0x80, CHR 0x8A], [CHR 0xE2, CHR 0x80, CHR 0xA8],
      [CHR 0xE2, CHR 0x80, CHR 0xA9], [CHR 0xE2, CHR 0x80, CHR 0xAF],
      [CHR 0xE2, CHR 0x81, CHR 0x9F], [CHR 0xE3, CHR 0x80, CHR 0x80]]"

definition starts_with :: "string \<Rightarrow> string \<Rightarrow> bool" where
  "starts_with s p = (take (length p) s = p)"

text \<open>Drop leading characters as long as one of the given encodings is a prefix.\<close>

function trim_left :: "string list \<Rightarrow> string \<Rightarrow> string" where
  "trim_left ps s =
     (case find (\<lambda>p. p \<noteq> [] \<and> s \<noteq> [] \<and> starts_with s p) ps of
        None \<Rightarrow> s
      | Some p \<Rightarrow> trim_left ps (drop (length p) s))"
  by pat_completeness auto
termination
  by (relation "measure (\<lambda>(ps, s). length s)") (auto simp: find_Some_iff)

declare trim_left.simps [simp del]

definition strings_TrimSpace :: "string \<Rightarrow> string" where
  "strings_TrimSpace s =
     rev (trim_left (map rev space_encodings) (rev (trim_left space_encodings s)))"

text \<open>\<^verbatim>\<open>strings.Split(s, sep)\<close> for a separator of one byte.\<close>

fun strings_Split :: "char \<Rightarrow> string \<Rightarrow> string list" where
  "strings_Split sep [] = [[]]"
| "strings_Split sep (c # cs) =
     (if c = sep then [] # strings_Split sep cs
      else (case strings_Split sep cs of
              [] \<Rightarrow> [[c]]
            | w # ws \<Rightarrow> (c # w) # ws))"

section \<open>Host and port\<close>

text \<open>\<open>last_colon\<close> splits at the last colon, \<open>None\<close> if there is none.\<close>

fun last_colon :: "string \<Rightarrow> (string \<times> string) option" where
  "last_colon [] = None"
| "last_colon (c # cs) =
     (case last_colon cs of
        Some (h, p) \<Rightarrow> Some (c # h, p)
      | None \<Rightarrow> if c = CHR '':'' then Some ([], cs) else None)"

text \<open>
  \<^verbatim>\<open>net.SplitHostPort\<close>. In the bracketed form the first \<^verbatim>\<open>]\<close> must stand just before the last
  colon; in both forms no further bracket may occur.
\<close>

definition net_SplitHostPort :: "string \<Rightarrow> (string \<times> string) res" where
  "net_SplitHostPort s =
     (case last_colon s of
        None \<Rightarrow> Inl (ErrAddr ''missing port in address'')
      | Some (h, port) \<Rightarrow>
          (if h \<noteq> [] \<and> hd h = CHR ''['' then
             (let host = takeWhile (\<lambda>c. c \<noteq> CHR '']'') (tl s);
                  after = drop (length host + 2) s in
              if CHR '']'' \<notin> set s then Inl (ErrAddr ''missing ']' in address'')
              else if after = [] then Inl (ErrAddr ''missing port in address'')
              else if Suc (length host) + 1 \<noteq> length h then
                Inl (ErrAddr (if hd after = CHR '':'' then ''too many colons in address''
                              else ''missing port in address''))
              else if CHR ''['' \<in> set (tl s) then Inl (ErrAddr ''unexpected '[' in address'')
              else if CHR '']'' \<in> set after then Inl (ErrAddr ''unexpected ']' in address'')
              else Inr (host, port))
           else if CHR '':'' \<in> set h then Inl (ErrAddr ''too many colons in address'')
           else if CHR ''['' \<in> set s then Inl (ErrAddr ''unexpected '[' in address'')
           else if CHR '']'' \<in> set s then Inl (ErrAddr ''unexpected ']' in address'')
           else Inr (h, port)))"

section \<open>URL queries\<close>

fun url_QueryUnescape :: "string \<Rightarrow> string option" where
  "url_QueryUnescape [] = Some []"
| "url_QueryUnescape (c # cs) =
     (if c = CHR ''%'' then
        (case cs of
           h # l # rest \<Rightarrow>
             (case (hex_val h, hex_val l) of
                (Some x, Some y) \<Rightarrow> map_option ((#) (char_of (16 * x + y))) (url_QueryUnescape rest)
              | _ \<Rightarrow> None)
         | _ \<Rightarrow> None)
      else map_option ((#) (if c = CHR ''+'' then CHR '' '' else c)) (url_QueryUnescape cs))"

text \<open>
  One \<^verbatim>\<open>&\<close>-separated piece of a query: \<open>None\<close> is a malformed piece, which
  \<^verbatim>\<open>url.ParseQuery\<close> skips and reports; \<open>Some None\<close> is an empty piece.
\<close>

definition query_piece :: "string \<Rightarrow> (string \<times> string) option option" where
  "query_piece s =
     (if CHR '';'' \<in> set s then None
      else if s = [] then Some None
      else (let k = takeWhile (\<lambda>c. c \<noteq> CHR ''='') s; v = drop (Suc (length k)) s in
            case (url_QueryUnescape k, url_QueryUnescape v) of
              (Some k', Some v') \<Rightarrow> Some (Some (k', v'))
            | _ \<Rightarrow> None))"

text \<open>\<^verbatim>\<open>url.ParseQuery\<close>: the well-formed pairs in order, and whether a piece was malformed.\<close>

definition url_ParseQuery :: "string \<Rightarrow> (string \<times> string) list \<times> bool" where
  "url_ParseQuery q =
     (let ps = map query_piece (strings_Split (CHR ''&'') q)
      in ([kv. Some (Some kv) \<leftarrow> ps], None \<in> set ps))"

text \<open>\<^verbatim>\<open>url.Values.Get\<close>: the first value of the key, or the empty string.\<close>

definition values_Get :: "(string \<times> string) list \<Rightarrow> string \<Rightarrow> string" where
  "values_Get kvs k = (case map_of kvs k of None \<Rightarrow> [] | Some v \<Rightarrow> v)"

section \<open>Little-endian 16-bit integers\<close>

definition le_PutUint16 :: "16 word \<Rightarrow> bytes" where
  "le_PutUint16 v = [word_of_nat (unat v), word_of_nat (unat v div 256)]"

fun le_Uint16 :: "bytes \<Rightarrow> 16 word" where
  "le_Uint16 (lo # hi # _) = word_of_nat (unat lo + 256 * unat hi)"
| "le_Uint16 _ = 0"

section \<open>Lemmas: hexadecimal\<close>

lemma hex_val_hex_digit [codec_simps]: "n < 16 \<Longrightarrow> hex_val (hex_digit n) = Some n"
  by (auto simp: hex_val_def hex_digit_def Let_def)

lemma hex_val_less: "hex_val c = Some n \<Longrightarrow> n < 16"
  by (auto simp: hex_val_def Let_def split: if_splits)

lemma word_of_nat_split [simp]: "word_of_nat (16 * (unat b div 16) + unat b mod 16) = (b :: byte)"
  by simp

theorem hex_roundtrip [codec_simps]: "hex_DecodeString (hex_EncodeToString bs) = Inr bs"
proof (induction bs)
  case Nil
  show ?case by simp
next
  case (Cons b bs)
  have "unat b div 16 < 16" using unat_byte_less [of b] by linarith
  with Cons.IH show ?case
    by (simp add: hex_val_hex_digit)
qed

lemma length_hex [simp]: "length (hex_EncodeToString bs) = 2 * length bs"
  by (induction bs) auto

lemma hex_decode_length:
  "hex_DecodeString s = Inr bs \<Longrightarrow> length s = 2 * length bs"
  by (induction s arbitrary: bs rule: hex_DecodeString.induct)
    (auto split: option.splits sum.splits)

definition hex_charset :: "char set" where
  "hex_charset = {c. (of_char c :: nat) \<in> {48..57} \<union> {97..102}}"

lemma hex_digit_in: "n < 16 \<Longrightarrow> hex_digit n \<in> hex_charset"
  by (auto simp: hex_digit_def hex_charset_def)

lemma set_hex: "set (hex_EncodeToString bs) \<subseteq> hex_charset"
proof (induction bs)
  case Nil
  show ?case by simp
next
  case (Cons b bs)
  have "unat b div 16 < 16" using unat_byte_less [of b] by linarith
  with Cons.IH show ?case by (simp add: hex_digit_in)
qed

lemma lower_hex_charset: "c \<in> hex_charset \<Longrightarrow> lower_char c = c"
  by (auto simp: hex_charset_def lower_char_def)

lemma ToLower_hex [codec_simps]: "strings_ToLower (hex_EncodeToString bs) = hex_EncodeToString bs"
  unfolding strings_ToLower_def
  by (rule map_idI) (use set_hex lower_hex_charset in blast)

section \<open>Lemmas: Base64\<close>

lemma b64_val_b64_char [simp]: "n < 64 \<Longrightarrow> b64_val (b64_char n) = Some n"
  by (auto simp: b64_val_def b64_char_def Let_def)

lemma b64_val_pad [simp]: "b64_val (CHR ''='') = None"
  by (simp add: b64_val_def)

lemma is_newline_pad [simp]: "\<not> is_newline (CHR ''='')"
  by (simp add: is_newline_def)

lemma byte_div_less: "unat (a :: byte) div 4 < 64" "unat (a :: byte) div 16 < 16"
  "unat (a :: byte) div 64 < 4"
  using unat_byte_less [of a] by linarith+

lemma sextet_less: "unat a mod 4 * 16 + unat (b :: byte) div 16 < 64"
  "unat b mod 16 * 4 + unat (c :: byte) div 64 < 64"
  "unat a mod 4 * 16 < (64::nat)" "unat b mod 16 * 4 < (64::nat)"
proof -
  have a: "unat a mod 4 < 4" and b: "unat b mod 16 < 16" by simp_all
  from a byte_div_less(2) [of b] show "unat a mod 4 * 16 + unat b div 16 < 64" by linarith
  from b byte_div_less(3) [of c] show "unat b mod 16 * 4 + unat c div 64 < 64" by linarith
  from a show "unat a mod 4 * 16 < (64::nat)" by linarith
  from b show "unat b mod 16 * 4 < (64::nat)" by linarith
qed

lemma digit_div_mod: "y < m \<Longrightarrow> (k * m + y) div m = k" "y < m \<Longrightarrow> (k * m + y) mod m = (y :: nat)"
  by simp_all

lemma b64_quantum_encode:
  "b64_quantum [unat a div 4, unat a mod 4 * 16] = [a]"
  "b64_quantum [unat a div 4, unat a mod 4 * 16 + unat b div 16, unat b mod 16 * 4] = [a, b]"
  "b64_quantum [unat a div 4, unat a mod 4 * 16 + unat b div 16,
     unat b mod 16 * 4 + unat c div 64, unat c mod 64] = [a, b, c]"
  for a b c :: byte
proof -
  note dm = digit_div_mod [OF byte_div_less(2)] digit_div_mod [OF byte_div_less(3)]
  have e1: "unat a div 4 * 4 + unat a mod 4 * 16 div 16 = unat a" by simp
  have e2: "unat a div 4 * 4 + (unat a mod 4 * 16 + unat b div 16) div 16 = unat a"
    by (simp only: dm) simp
  have e3: "(unat a mod 4 * 16 + unat b div 16) mod 16 * 16 + unat b mod 16 * 4 div 4 = unat b"
    by (simp only: dm) simp
  have e4: "(unat a mod 4 * 16 + unat b div 16) mod 16 * 16
      + (unat b mod 16 * 4 + unat c div 64) div 4 = unat b"
    by (simp only: dm) simp
  have e5: "(unat b mod 16 * 4 + unat c div 64) mod 4 * 64 + unat c mod 64 = unat c"
    by (simp only: dm) simp
  show "b64_quantum [unat a div 4, unat a mod 4 * 16] = [a]"
    by (simp only: b64_quantum.simps e1) simp
  show "b64_quantum [unat a div 4, unat a mod 4 * 16 + unat b div 16, unat b mod 16 * 4] = [a, b]"
    by (simp only: b64_quantum.simps e2 e3) simp
  show "b64_quantum [unat a div 4, unat a mod 4 * 16 + unat b div 16,
     unat b mod 16 * 4 + unat c div 64, unat c mod 64] = [a, b, c]"
    by (simp only: b64_quantum.simps e2 e4 e5) simp
qed

lemma b64_decode_encode: "b64_decode si [] (b64_EncodeToString bs) = Inr bs"
  by (induction bs arbitrary: si rule: b64_EncodeToString.induct)
    (simp_all add: byte_div_less sextet_less b64_quantum_encode b64_finish_def
      del: b64_quantum.simps)

theorem b64_roundtrip [codec_simps]: "b64_DecodeString (b64_EncodeToString bs) = Inr bs"
  by (simp add: b64_DecodeString_def b64_decode_encode)

lemma length_b64 [simp]: "length (b64_EncodeToString bs) = b64_EncodedLen (length bs)"
proof (induction bs rule: b64_EncodeToString.induct)
  case (4 a b c rest)
  have "(length rest + 5) div 3 = (length rest + 2) div 3 + 1"
    by presburger
  with 4 show ?case by (simp add: b64_EncodedLen_def add.commute)
qed (simp_all add: b64_EncodedLen_def)

lemma b64_inject [simp]: "b64_EncodeToString xs = b64_EncodeToString ys \<longleftrightarrow> xs = ys"
  by (metis b64_roundtrip sum.inject(2))

section \<open>Lemmas: printable text and white space\<close>

text \<open>Printable ASCII other than the blank: no such character starts or ends white space.\<close>

definition plain_char :: "char \<Rightarrow> bool" where
  "plain_char c = (33 \<le> (of_char c :: nat) \<and> (of_char c :: nat) < 127)"

lemma b64_char_plain: "plain_char (b64_char n)"
  by (auto simp: plain_char_def b64_char_def)

lemma plain_pad [simp]: "plain_char (CHR ''='')"
  by (simp add: plain_char_def)

lemma b64_plain: "list_all plain_char (b64_EncodeToString bs)"
  by (induction bs rule: b64_EncodeToString.induct) (simp_all add: b64_char_plain)

lemma hex_plain: "list_all plain_char (hex_EncodeToString bs)"
  using set_hex [of bs] by (auto simp: list_all_iff hex_charset_def plain_char_def)

lemma trim_left_plain:
  assumes "\<And>p. p \<in> set ps \<Longrightarrow> p \<noteq> [] \<Longrightarrow> \<not> plain_char (hd p)"
    and "s = [] \<or> plain_char (hd s)"
  shows "trim_left ps s = s"
proof -
  have "find (\<lambda>p. p \<noteq> [] \<and> s \<noteq> [] \<and> starts_with s p) ps = None"
    unfolding find_None_iff starts_with_def
    using assms by (metis hd_take length_greater_0_conv)
  then show ?thesis by (simp add: trim_left.simps)
qed

lemma space_encodings_not_plain:
  "p \<in> set space_encodings \<Longrightarrow> p \<noteq> [] \<Longrightarrow> \<not> plain_char (hd p)"
  "p \<in> set (map rev space_encodings) \<Longrightarrow> p \<noteq> [] \<Longrightarrow> \<not> plain_char (hd p)"
  by (auto simp: space_encodings_def plain_char_def)

lemma trim_space_plain:
  "s = [] \<or> plain_char (hd s) \<Longrightarrow> trim_left space_encodings s = s"
  "s = [] \<or> plain_char (hd s) \<Longrightarrow> trim_left (map rev space_encodings) s = s"
  by (rule trim_left_plain; use space_encodings_not_plain in blast)+

lemma trim_left_newline:
  assumes "s = [] \<or> plain_char (hd s)"
  shows "trim_left (map rev space_encodings) (CHR 0x0A # s) = s"
proof -
  have "find (\<lambda>p. p \<noteq> [] \<and> CHR 0x0A # s \<noteq> [] \<and> starts_with (CHR 0x0A # s) p)
          (map rev space_encodings) = Some [CHR 0x0A]"
    by (simp add: space_encodings_def starts_with_def)
  then have "trim_left (map rev space_encodings) (CHR 0x0A # s)
      = trim_left (map rev space_encodings) s"
    by (simp add: trim_left.simps [of _ "CHR 0x0A # s"])
  also have "\<dots> = s"
    by (rule trim_space_plain(2)) (rule assms)
  finally show ?thesis .
qed

lemma TrimSpace_plain [codec_simps]:
  assumes "list_all plain_char s"
  shows "strings_TrimSpace s = s" and "s \<noteq> [] \<Longrightarrow> strings_TrimSpace (s @ [CHR 0x0A]) = s"
proof -
  have h: "s = [] \<or> plain_char (hd s)" and l: "rev s = [] \<or> plain_char (hd (rev s))"
    using assms unfolding list_all_iff hd_rev
    by (metis hd_in_set, metis last_in_set rev_is_Nil_conv)
  show "strings_TrimSpace s = s"
    unfolding strings_TrimSpace_def
    by (simp only: trim_space_plain(1) [OF h] trim_space_plain(2) [OF l] rev_rev_ident)
  assume "s \<noteq> []"
  then have "trim_left space_encodings (s @ [CHR 0x0A]) = s @ [CHR 0x0A]"
    by (intro trim_space_plain(1)) (use h in auto)
  then show "strings_TrimSpace (s @ [CHR 0x0A]) = s"
    unfolding strings_TrimSpace_def by (simp add: trim_left_newline [OF l])
qed

section \<open>Lemmas: addresses, queries, integers\<close>

lemma last_colon_append: "CHR '':'' \<notin> set p \<Longrightarrow> last_colon (h @ CHR '':'' # p) = Some (h, p)"
proof (induction h)
  case Nil
  have "last_colon p = None" if "CHR '':'' \<notin> set p" for p
    using that by (induction p) auto
  with Nil show ?case by simp
qed simp

lemma SplitHostPort_simple [codec_simps]:
  assumes "set h \<inter> {CHR '':'', CHR ''['', CHR '']''} = {}"
    and "set p \<inter> {CHR '':'', CHR ''['', CHR '']''} = {}"
  shows "net_SplitHostPort (h @ CHR '':'' # p) = Inr (h, p)"
proof -
  have "last_colon (h @ CHR '':'' # p) = Some (h, p)"
    using assms(2) by (intro last_colon_append) auto
  moreover have "h \<noteq> [] \<Longrightarrow> hd h \<noteq> CHR ''[''"
    using assms(1) by (cases h) auto
  ultimately show ?thesis
    using assms by (auto simp: net_SplitHostPort_def)
qed

lemma QueryUnescape_id:
  "CHR ''%'' \<notin> set s \<Longrightarrow> CHR ''+'' \<notin> set s \<Longrightarrow> url_QueryUnescape s = Some s"
  by (induction s) auto

lemma Split_no_sep: "sep \<notin> set s \<Longrightarrow> strings_Split sep s = [s]"
  by (induction s) auto

lemma hex_charset_not: "c \<in> hex_charset \<Longrightarrow> c \<notin> {CHR ''%'', CHR ''+'', CHR ''&'', CHR '';'', CHR ''=''}"
  by (auto simp: hex_charset_def)

lemma ParseQuery_nonce [codec_simps]:
  "url_ParseQuery (''nonce='' @ hex_EncodeToString bs)
   = ([(''nonce'', hex_EncodeToString bs)], False)"
proof -
  define h where "h = hex_EncodeToString bs"
  have h: "set h \<inter> {CHR ''%'', CHR ''+'', CHR ''&'', CHR '';'', CHR ''=''} = {}"
    using set_hex [of bs] hex_charset_not unfolding h_def by blast
  then have "strings_Split (CHR ''&'') (''nonce='' @ h) = [''nonce='' @ h]"
    by (intro Split_no_sep) auto
  moreover have "query_piece (''nonce='' @ h) = Some (Some (''nonce'', h))"
  proof -
    have "takeWhile (\<lambda>c. c \<noteq> CHR ''='') (''nonce='' @ h) = ''nonce''" by simp
    moreover have "url_QueryUnescape h = Some h" using h by (intro QueryUnescape_id) auto
    moreover have "CHR '';'' \<notin> set (''nonce='' @ h)" using h by auto
    ultimately show ?thesis unfolding query_piece_def by (simp add: QueryUnescape_id)
  qed
  ultimately show ?thesis
    unfolding h_def [symmetric] by (simp add: url_ParseQuery_def)
qed

theorem le_roundtrip [codec_simps]: "le_Uint16 (le_PutUint16 v @ rest) = v"
proof -
  have "unat v < 65536" using unsigned_less [where ?'a = nat and w = v] by simp
  then have "unat v div 256 mod 256 = unat v div 256" by simp
  then have "le_Uint16 (le_PutUint16 v @ rest) = word_of_nat (unat v mod 256 + 256 * (unat v div 256))"
    by (simp only: le_PutUint16_def append.simps le_Uint16.simps unat_of_nat_byte)
  also have "\<dots> = v" by (simp only: mod_mult_div_eq) simp
  finally show ?thesis .
qed

lemma length_le_PutUint16 [simp]: "length (le_PutUint16 v) = 2"
  by (simp add: le_PutUint16_def)

lemma unat_le_Uint16: "unat (le_Uint16 bs) < 65536"
  using unsigned_less [where ?'a = nat and w = "le_Uint16 bs"] by simp

end
