(* ===== verification/Go_Json.thy ===== *)
theory Go_Json
  imports Go_Text
begin

text \<open>
  \<^verbatim>\<open>encoding/json\<close> of Go's standard library, as far as the daemon uses it: the scanner and the
  decoder of strings, the printer with its HTML escaping, and the rules by which a JSON value is
  stored into a field of type \<^verbatim>\<open>string\<close>, \<^verbatim>\<open>[]byte\<close> and \<^verbatim>\<open>[n]byte\<close>. A type mismatch is
  remembered as the first error while decoding goes on, as \<^verbatim>\<open>decodeState.saveError\<close> does, so
  that a caller that ignores the error sees the fields stored so far. The main facts are that the
  fuel of the parser is always enough and that parsing inverts printing.
\<close>

section \<open>Values\<close>

datatype json =
    JNull
  | JBool bool
  | JNum string
  | JStr string
  | JArr "json list"
  | JObj "(string \<times> json) list"

text \<open>
  A byte slice field: \<open>None\<close> is the \<^verbatim>\<open>nil\<close> slice, which JSON prints as \<^verbatim>\<open>null\<close>.
\<close>

type_synonym slice = "bytes option"

definition slice_bytes :: "slice \<Rightarrow> bytes" where
  "slice_bytes s = (case s of None \<Rightarrow> [] | Some bs \<Rightarrow> bs)"

section \<open>UTF-8\<close>

abbreviation (input) code :: "char \<Rightarrow> nat" where
  "code c \<equiv> of_char c"

definition is_cont :: "char \<Rightarrow> bool" where
  "is_cont c = (128 \<le> code c \<and> code c < 192)"

text \<open>The length of the valid multi-byte sequence at the head, 0 if there is none.\<close>

fun utf8_len :: "string \<Rightarrow> nat" where
  "utf8_len (a # b # cs) =
     (if 194 \<le> code a \<and> code a \<le> 223 then (if is_cont b then 2 else 0)
      else (case cs of
         [] \<Rightarrow> 0
       | c # ds \<Rightarrow>
          (if 224 \<le> code a \<and> code a \<le> 239 then
             (if is_cont b \<and> is_cont c \<and> (code a = 224 \<longrightarrow> 160 \<le> code b)
                 \<and> (code a = 237 \<longrightarrow> code b \<le> 159) then 3 else 0)
           else (case ds of
              [] \<Rightarrow> 0
            | d # _ \<Rightarrow>
               (if 240 \<le> code a \<and> code a \<le> 244 \<and> is_cont b \<and> is_cont c \<and> is_cont d
                   \<and> (code a = 240 \<longrightarrow> 144 \<le> code b) \<and> (code a = 244 \<longrightarrow> code b \<le> 143)
                then 4 else 0)))))"
| "utf8_len _ = 0"

text \<open>\<^verbatim>\<open>utf8.AppendRune\<close>.\<close>

definition utf8_encode :: "nat \<Rightarrow> string" where
  "utf8_encode r =
     map char_of
       (if r < 128 then [r]
        else if r < 2048 then [192 + r div 64, 128 + r mod 64]
        else if r < 65536 then [224 + r div 4096, 128 + r div 64 mod 64, 128 + r mod 64]
        else [240 + r div 262144, 128 + r div 4096 mod 64, 128 + r div 64 mod 64, 128 + r mod 64])"

definition replacement_char :: string where
  "replacement_char = [CHR 0xEF, CHR 0xBF, CHR 0xBD]"

section \<open>Strings\<close>

text \<open>
  The raw text of a string literal up to its closing quote: every backslash escape must be one of
  JSON's, and control characters are refused.
\<close>

definition hex4 :: "string \<Rightarrow> nat option" where
  "hex4 s =
     (case map hex_val (take 4 s) of
        [Some a, Some b, Some c, Some d] \<Rightarrow> Some (a * 4096 + b * 256 + c * 16 + d)
      | _ \<Rightarrow> None)"

definition simple_escape :: "char \<Rightarrow> char option" where
  "simple_escape e =
     (if e = CHR 0x22 then Some (CHR 0x22)
      else if e = CHR 0x5C then Some (CHR 0x5C)
      else if e = CHR ''/'' then Some (CHR ''/'')
      else if e = CHR ''b'' then Some (CHR 0x08)
      else if e = CHR ''f'' then Some (CHR 0x0C)
      else if e = CHR ''n'' then Some (CHR 0x0A)
      else if e = CHR ''r'' then Some (CHR 0x0D)
      else if e = CHR ''t'' then Some (CHR 0x09)
      else None)"

fun raw_string :: "string \<Rightarrow> (string \<times> string) option" where
  "raw_string [] = None"
| "raw_string (c # cs) =
     (if c = CHR 0x22 then Some ([], cs)
      else if c = CHR 0x5C then
        (case cs of
           [] \<Rightarrow> None
         | e # es \<Rightarrow>
             (if simple_escape e \<noteq> None then
                map_option (\<lambda>(r, rest). (c # e # r, rest)) (raw_string es)
              else if e = CHR ''u'' \<and> hex4 es \<noteq> None then
                map_option (\<lambda>(r, rest). (c # e # r, rest)) (raw_string es)
              else None))
      else if code c < 32 then None
      else map_option (\<lambda>(r, rest). (c # r, rest)) (raw_string cs))"

text \<open>
  \<^verbatim>\<open>unquote\<close>: escapes are replaced, surrogate pairs are joined, invalid UTF-8 becomes the
  replacement character.
\<close>

definition is_surrogate :: "nat \<Rightarrow> bool" where
  "is_surrogate r = (55296 \<le> r \<and> r < 57344)"

definition surrogate_pair :: "nat \<Rightarrow> nat \<Rightarrow> nat option" where
  "surrogate_pair hi lo =
     (if 55296 \<le> hi \<and> hi < 56320 \<and> 56320 \<le> lo \<and> lo < 57344
      then Some ((hi - 55296) * 1024 + (lo - 56320) + 65536) else None)"

definition second_unit :: "string \<Rightarrow> nat" where
  "second_unit s =
     (if take 2 s = [CHR 0x5C, CHR ''u''] then (case hex4 (drop 2 s) of None \<Rightarrow> 0 | Some r \<Rightarrow> r)
      else 0)"

function unquote :: "string \<Rightarrow> string" where
  "unquote [] = []"
| "unquote (c # cs) =
     (if c = CHR 0x5C then
        (case cs of
           [] \<Rightarrow> []
         | e # es \<Rightarrow>
             (case simple_escape e of
                Some x \<Rightarrow> x # unquote es
              | None \<Rightarrow>
                  (case hex4 es of
                     None \<Rightarrow> []
                   | Some r \<Rightarrow>
                       (if is_surrogate r then
                          (case surrogate_pair r (second_unit (drop 4 es)) of
                             Some p \<Rightarrow> utf8_encode p @ unquote (drop 10 es)
                           | None \<Rightarrow> replacement_char @ unquote (drop 4 es))
                        else utf8_encode r @ unquote (drop 4 es)))))
      else if code c < 128 then c # unquote cs
      else if utf8_len (c # cs) = 0 then replacement_char @ unquote cs
      else take (utf8_len (c # cs)) (c # cs) @ unquote (drop (utf8_len (c # cs)) (c # cs)))"
  by pat_completeness auto
termination
  by (relation "measure length") auto

declare unquote.simps [simp del]

definition lex_string :: "string \<Rightarrow> (string \<times> string) option" where
  "lex_string s = map_option (\<lambda>(r, rest). (unquote r, rest)) (raw_string s)"

section \<open>Numbers\<close>

definition is_digit :: "char \<Rightarrow> bool" where
  "is_digit c = (48 \<le> code c \<and> code c \<le> 57)"

text \<open>
  \<open>lex_number\<close> splits the longest prefix that the scanner takes for a number and says whether
  it is complete.
\<close>

definition lex_digits :: "string \<Rightarrow> string \<times> string" where
  "lex_digits s = (takeWhile is_digit s, dropWhile is_digit s)"

definition lex_int :: "string \<Rightarrow> (string \<times> string) option" where
  "lex_int s =
     (case s of
        [] \<Rightarrow> None
      | c # cs \<Rightarrow>
          (if c = CHR ''0'' then Some ([c], cs)
           else if is_digit c then Some (lex_digits s)
           else None))"

definition lex_frac :: "string \<Rightarrow> (string \<times> string) option" where
  "lex_frac s =
     (case s of
        [] \<Rightarrow> Some ([], s)
      | c # cs \<Rightarrow>
          (if c = CHR ''.'' then
             (let (ds, rest) = lex_digits cs in if ds = [] then None else Some (c # ds, rest))
           else Some ([], s)))"

definition lex_exp :: "string \<Rightarrow> (string \<times> string) option" where
  "lex_exp s =
     (case s of
        [] \<Rightarrow> Some ([], s)
      | c # cs \<Rightarrow>
          (if c = CHR ''e'' \<or> c = CHR ''E'' then
             (let sg = (if cs \<noteq> [] \<and> (hd cs = CHR ''+'' \<or> hd cs = CHR ''-'') then [hd cs] else []);
                  (ds, rest) = lex_digits (drop (length sg) cs)
              in if ds = [] then None else Some (c # sg @ ds, rest))
           else Some ([], s)))"

definition lex_number :: "string \<Rightarrow> (string \<times> string) option" where
  "lex_number s =
     (let sg = (if s \<noteq> [] \<and> hd s = CHR ''-'' then [CHR ''-''] else []) in
      case lex_int (drop (length sg) s) of
        None \<Rightarrow> None
      | Some (i, s1) \<Rightarrow>
          (case lex_frac s1 of
             None \<Rightarrow> None
           | Some (f, s2) \<Rightarrow>
               (case lex_exp s2 of
                  None \<Rightarrow> None
                | Some (x, s3) \<Rightarrow> Some (sg @ i @ f @ x, s3))))"

section \<open>The parser\<close>

definition is_ws :: "char \<Rightarrow> bool" where
  "is_ws c = (c = CHR '' '' \<or> c = CHR 0x09 \<or> c = CHR 0x0A \<or> c = CHR 0x0D)"

fun skip_ws :: "string \<Rightarrow> string" where
  "skip_ws [] = []"
| "skip_ws (c # cs) = (if is_ws c then skip_ws cs else c # cs)"

definition maxNestingDepth :: nat where
  "maxNestingDepth = 10000"

definition expect :: "string \<Rightarrow> 'a \<Rightarrow> string \<Rightarrow> ('a \<times> string) option" where
  "expect w v s = (if take (length w) s = w then Some (v, drop (length w) s) else None)"

text \<open>
  Every call spends one unit of the first argument; the second is the nesting depth.
\<close>

fun parse_value :: "nat \<Rightarrow> nat \<Rightarrow> string \<Rightarrow> (json \<times> string) option"
  and parse_elems :: "nat \<Rightarrow> nat \<Rightarrow> string \<Rightarrow> (json list \<times> string) option"
  and parse_members :: "nat \<Rightarrow> nat \<Rightarrow> string \<Rightarrow> ((string \<times> json) list \<times> string) option" where
  "parse_value 0 d s = None"
| "parse_value (Suc n) d s =
     (case skip_ws s of
        [] \<Rightarrow> None
      | c # cs \<Rightarrow>
          (if c = CHR ''{'' then
             (if d \<ge> maxNestingDepth then None
              else (case skip_ws cs of
                      [] \<Rightarrow> None
                    | e # es \<Rightarrow>
                        (if e = CHR ''}'' then Some (JObj [], es)
                         else map_option (\<lambda>(ms, rest). (JObj ms, rest))
                                (parse_members n (Suc d) cs))))
           else if c = CHR ''['' then
             (if d \<ge> maxNestingDepth then None
              else (case skip_ws cs of
                      [] \<Rightarrow> None
                    | e # es \<Rightarrow>
                        (if e = CHR '']'' then Some (JArr [], es)
                         else map_option (\<lambda>(vs, rest). (JArr vs, rest))
                                (parse_elems n (Suc d) cs))))
           else if c = CHR 0x22 then map_option (\<lambda>(t, rest). (JStr t, rest)) (lex_string cs)
           else if c = CHR ''t'' then expect ''true'' (JBool True) (c # cs)
           else if c = CHR ''f'' then expect ''false'' (JBool False) (c # cs)
           else if c = CHR ''n'' then expect ''null'' JNull (c # cs)
           else map_option (\<lambda>(t, rest). (JNum t, rest)) (lex_number (c # cs))))"
| "parse_elems 0 d s = None"
| "parse_elems (Suc n) d s =
     (case parse_value n d s of
        None \<Rightarrow> None
      | Some (v, s1) \<Rightarrow>
          (case skip_ws s1 of
             [] \<Rightarrow> None
           | c # cs \<Rightarrow>
               (if c = CHR '','' then
                  map_option (\<lambda>(vs, rest). (v # vs, rest)) (parse_elems n d cs)
                else if c = CHR '']'' then Some ([v], cs)
                else None)))"
| "parse_members 0 d s = None"
| "parse_members (Suc n) d s =
     (case skip_ws s of
        [] \<Rightarrow> None
      | q # qs \<Rightarrow>
          (if q \<noteq> CHR 0x22 then None
           else (case lex_string qs of
                   None \<Rightarrow> None
                 | Some (k, s1) \<Rightarrow>
                     (case skip_ws s1 of
                        [] \<Rightarrow> None
                      | e # es \<Rightarrow>
                          (if e \<noteq> CHR '':'' then None
                           else (case parse_value n d es of
                                   None \<Rightarrow> None
                                 | Some (v, s2) \<Rightarrow>
                                     (case skip_ws s2 of
                                        [] \<Rightarrow> None
                                      | c # cs \<Rightarrow>
                                          (if c = CHR '','' then
                                             map_option (\<lambda>(ms, rest). ((k, v) # ms, rest))
                                               (parse_members n d cs)
                                           else if c = CHR ''}'' then Some ([(k, v)], cs)
                                           else None)))))))) "

definition json_parse_fuel :: "nat \<Rightarrow> string \<Rightarrow> json res" where
  "json_parse_fuel n s =
     (case parse_value n 0 s of
        None \<Rightarrow> Inl ErrJsonSyntax
      | Some (v, rest) \<Rightarrow> if skip_ws rest = [] then Inr v else Inl ErrJsonSyntax)"

definition json_parse :: "string \<Rightarrow> json res" where
  "json_parse s = json_parse_fuel (Suc (2 * length s)) s"

section \<open>The printer\<close>

definition html_safe :: "char \<Rightarrow> bool" where
  "html_safe c =
     (32 \<le> code c \<and> code c < 128
      \<and> c \<notin> {CHR 0x22, CHR 0x5C, CHR ''<'', CHR ''>'', CHR ''&''})"

definition escape_char :: "char \<Rightarrow> string" where
  "escape_char c =
     (if html_safe c then [c]
      else if c = CHR 0x5C \<or> c = CHR 0x22 then [CHR 0x5C, c]
      else if c = CHR 0x08 then [CHR 0x5C, CHR ''b'']
      else if c = CHR 0x0C then [CHR 0x5C, CHR ''f'']
      else if c = CHR 0x0A then [CHR 0x5C, CHR ''n'']
      else if c = CHR 0x0D then [CHR 0x5C, CHR ''r'']
      else if c = CHR 0x09 then [CHR 0x5C, CHR ''t'']
      else [CHR 0x5C, CHR ''u'', CHR ''0'', CHR ''0'', hex_digit (code c div 16),
            hex_digit (code c mod 16)])"

function escape_string :: "string \<Rightarrow> string" where
  "escape_string [] = []"
| "escape_string (c # cs) =
     (if code c < 128 then escape_char c @ escape_string cs
      else if utf8_len (c # cs) = 0 then CHR 0x5C # ''ufffd'' @ escape_string cs
      else if take 3 (c # cs) = [CHR 0xE2, CHR 0x80, CHR 0xA8] then
        CHR 0x5C # ''u2028'' @ escape_string (drop 3 (c # cs))
      else if take 3 (c # cs) = [CHR 0xE2, CHR 0x80, CHR 0xA9] then
        CHR 0x5C # ''u2029'' @ escape_string (drop 3 (c # cs))
      else take (utf8_len (c # cs)) (c # cs) @ escape_string (drop (utf8_len (c # cs)) (c # cs)))"
  by pat_completeness auto
termination
  by (relation "measure length") auto

declare escape_string.simps [simp del]

definition quote :: "string \<Rightarrow> string" where
  "quote s = CHR 0x22 # escape_string s @ [CHR 0x22]"

fun comma_sep :: "string list \<Rightarrow> string" where
  "comma_sep [] = []"
| "comma_sep [x] = x"
| "comma_sep (x # y # zs) = x @ CHR '','' # comma_sep (y # zs)"

fun json_print :: "json \<Rightarrow> string" where
  "json_print JNull = ''null''"
| "json_print (JBool b) = (if b then ''true'' else ''false'')"
| "json_print (JNum t) = t"
| "json_print (JStr s) = quote s"
| "json_print (JArr vs) = CHR ''['' # comma_sep (map json_print vs) @ '']''"
| "json_print (JObj ms) =
     CHR ''{'' # comma_sep (map (\<lambda>(k, v). quote k @ CHR '':'' # json_print v) ms) @ ''}''"

section \<open>Storing values into struct fields\<close>

text \<open>
  \<^verbatim>\<open>foldName\<close>: ASCII letters are upper-cased; the two non-ASCII letters whose folding class
  contains an ASCII letter (U+017F and U+212A) become that letter.
\<close>

fun fold_name :: "string \<Rightarrow> string" where
  "fold_name [] = []"
| "fold_name (c # cs) =
     (if c = CHR 0xC5 \<and> take 1 cs = [CHR 0xBF] then CHR ''S'' # fold_name (drop 1 cs)
      else if c = CHR 0xE2 \<and> take 2 cs = [CHR 0x84, CHR 0xAA] then CHR ''K'' # fold_name (drop 2 cs)
      else (if 97 \<le> code c \<and> code c \<le> 122 then char_of (code c - 32) else c) # fold_name cs)"

definition same_field :: "string \<Rightarrow> string \<Rightarrow> bool" where
  "same_field name key = (fold_name key = fold_name name)"

text \<open>A decoder state: the value built so far and the first error.\<close>

type_synonym 'a decoding = "'a \<times> go_error option"

definition save_error :: "go_error \<Rightarrow> go_error option \<Rightarrow> go_error option" where
  "save_error e err = (case err of None \<Rightarrow> Some e | Some e' \<Rightarrow> Some e')"

definition store_string :: "json \<Rightarrow> string decoding \<Rightarrow> string decoding" where
  "store_string v st =
     (case v of
        JStr s \<Rightarrow> (s, snd st)
      | JNull \<Rightarrow> st
      | _ \<Rightarrow> (fst st, save_error ErrJsonType (snd st)))"

text \<open>\<^verbatim>\<open>strconv.ParseUint\<close> on a number literal: decimal digits only.\<close>

definition parse_uint :: "string \<Rightarrow> nat option" where
  "parse_uint s =
     (if s \<noteq> [] \<and> list_all is_digit s then Some (foldl (\<lambda>n c. n * 10 + (code c - 48)) 0 s) else None)"

definition store_byte :: "json \<Rightarrow> byte decoding \<Rightarrow> byte decoding" where
  "store_byte v st =
     (case v of
        JNum t \<Rightarrow>
          (case parse_uint t of
             Some n \<Rightarrow> if n < 256 then (word_of_nat n, snd st) else (fst st, save_error ErrJsonType (snd st))
           | None \<Rightarrow> (fst st, save_error ErrJsonType (snd st)))
      | JNull \<Rightarrow> st
      | _ \<Rightarrow> (fst st, save_error ErrJsonType (snd st)))"

text \<open>
  The elements of a JSON array, stored over the old elements; past their end the element starts
  at 0.
\<close>

fun store_elems :: "json list \<Rightarrow> bytes \<Rightarrow> go_error option \<Rightarrow> bytes decoding" where
  "store_elems [] old err = ([], err)"
| "store_elems (v # vs) old err =
     (let (b, err1) = store_byte v (case old of [] \<Rightarrow> 0 | x # _ \<Rightarrow> x, err);
          (bs, err2) = store_elems vs (tl old) err1
      in (b # bs, err2))"

definition store_slice :: "json \<Rightarrow> slice decoding \<Rightarrow> slice decoding" where
  "store_slice v st =
     (case v of
        JStr s \<Rightarrow>
          (case b64_DecodeString s of
             Inr bs \<Rightarrow> (Some bs, snd st)
           | Inl e \<Rightarrow> (fst st, save_error e (snd st)))
      | JNull \<Rightarrow> (None, snd st)
      | JArr vs \<Rightarrow> (let (bs, err) = store_elems vs (slice_bytes (fst st)) (snd st) in (Some bs, err))
      | _ \<Rightarrow> (fst st, save_error ErrJsonType (snd st)))"

text \<open>
  An array \<^verbatim>\<open>[n]byte\<close>: surplus JSON elements are skipped, missing ones become 0.
\<close>

definition store_array :: "nat \<Rightarrow> json \<Rightarrow> bytes decoding \<Rightarrow> bytes decoding" where
  "store_array n v st =
     (case v of
        JArr vs \<Rightarrow>
          (let (bs, err) = store_elems (take n vs) (fst st) (snd st)
           in (bs @ replicate (n - length bs) 0, err))
      | JNull \<Rightarrow> st
      | _ \<Rightarrow> (fst st, save_error ErrJsonType (snd st)))"

text \<open>
  A struct: \<open>null\<close> leaves it alone, an object stores its members in order, anything else is a
  type error.
\<close>

definition store_struct ::
    "(string \<Rightarrow> json \<Rightarrow> 'a decoding \<Rightarrow> 'a decoding) \<Rightarrow> json \<Rightarrow> 'a decoding \<Rightarrow> 'a decoding" where
  "store_struct field v st =
     (case v of
        JNull \<Rightarrow> st
      | JObj ms \<Rightarrow> fold (\<lambda>(k, x). field k x) ms st
      | _ \<Rightarrow> (fst st, save_error ErrJsonType (snd st)))"

text \<open>\<^verbatim>\<open>json.Unmarshal\<close> into a struct: a syntax error leaves the struct untouched.\<close>

definition json_Unmarshal ::
    "(string \<Rightarrow> json \<Rightarrow> 'a decoding \<Rightarrow> 'a decoding) \<Rightarrow> bytes \<Rightarrow> 'a \<Rightarrow> 'a decoding" where
  "json_Unmarshal field bs x =
     (case json_parse (bytes_str bs) of
        Inl e \<Rightarrow> (x, Some e)
      | Inr v \<Rightarrow> store_struct field v (x, None))"

definition slice_json :: "slice \<Rightarrow> json" where
  "slice_json s = (case s of None \<Rightarrow> JNull | Some bs \<Rightarrow> JStr (b64_EncodeToString bs))"

definition array_json :: "bytes \<Rightarrow> json" where
  "array_json bs = JArr (map (\<lambda>b. JNum (show_nat (unat b))) bs)"

section \<open>Lemmas: the parser consumes input, and its fuel is enough\<close>

lemma raw_string_shorter: "raw_string s = Some (r, rest) \<Longrightarrow> length rest < length s"
  by (induction s arbitrary: r rest rule: raw_string.induct)
    (force split: if_splits list.splits dest: less_SucI)+

lemma lex_string_shorter: "lex_string s = Some (t, rest) \<Longrightarrow> length rest < length s"
  by (auto simp: lex_string_def dest: raw_string_shorter)

lemma lex_int_shorter: "lex_int s = Some (t, rest) \<Longrightarrow> length rest < length s"
  by (auto simp: lex_int_def lex_digits_def is_digit_def split: list.splits if_splits
      intro: le_imp_less_Suc length_dropWhile_le)

lemma lex_frac_shorter: "lex_frac s = Some (t, rest) \<Longrightarrow> length rest \<le> length s"
  by (auto simp: lex_frac_def lex_digits_def split: list.splits if_splits
      intro: le_SucI length_dropWhile_le)

lemma lex_exp_shorter: "lex_exp s = Some (t, rest) \<Longrightarrow> length rest \<le> length s"
  using length_dropWhile_le [of is_digit "tl (tl s)"] length_dropWhile_le [of is_digit "tl s"]
  by (auto simp: lex_exp_def lex_digits_def Let_def drop_Suc split: list.splits if_splits)

lemma lex_number_shorter: "lex_number s = Some (t, rest) \<Longrightarrow> length rest < length s"
  by (fastforce simp: lex_number_def Let_def split: option.splits if_splits
      dest: lex_int_shorter lex_frac_shorter lex_exp_shorter)

lemma expect_shorter: "expect w v s = Some (x, rest) \<Longrightarrow> w \<noteq> [] \<Longrightarrow> length rest < length s"
  by (cases s) (auto simp: expect_def split: if_splits)

lemma skip_ws_length: "skip_ws s = c # cs \<Longrightarrow> length cs < length s"
  by (induction s) (auto split: if_splits)

lemmas lex_shorter = lex_string_shorter lex_number_shorter expect_shorter

lemma parse_shorter_all:
  "(\<forall>d s v r. parse_value n d s = Some (v, r) \<longrightarrow> length r < length s)
   \<and> (\<forall>d s vs r. parse_elems n d s = Some (vs, r) \<longrightarrow> length r < length s)
   \<and> (\<forall>d s ms r. parse_members n d s = Some (ms, r) \<longrightarrow> length r < length s)"
proof (induction n)
  case (Suc n)
  then have V: "parse_value n d s = Some (v, r) \<Longrightarrow> length r < length s"
    and E: "parse_elems n d s = Some (vs, r) \<Longrightarrow> length r < length s"
    and M: "parse_members n d s = Some (ms, r) \<Longrightarrow> length r < length s" for d s v r vs ms
    by blast+
  have "length r < length s" if p: "parse_value (Suc n) d s = Some (v, r)" for d s v r
  proof -
    from p obtain c cs where c: "skip_ws s = c # cs" by (auto split: list.splits)
    from p c consider e where "skip_ws cs = e # r"
      | vs where "parse_elems n (Suc d) cs = Some (vs, r)"
      | ms where "parse_members n (Suc d) cs = Some (ms, r)"
      | "length r < length (c # cs)"
      by (cases "skip_ws cs") (auto split: if_splits dest: lex_shorter less_SucI)
    then have "length r \<le> length cs"
      by cases (auto dest: E M skip_ws_length)
    with skip_ws_length [OF c] show ?thesis by simp
  qed
  moreover have "length r < length s" if p: "parse_elems (Suc n) d s = Some (vs, r)" for d s vs r
  proof -
    from p obtain v s1 c cs where v: "parse_value n d s = Some (v, s1)"
      and c: "skip_ws s1 = c # cs" by (auto split: option.splits list.splits)
    from V [OF v] skip_ws_length [OF c] have "length cs < length s" by simp
    with p v c show ?thesis by (auto split: if_splits dest: E)
  qed
  moreover have "length r < length s" if p: "parse_members (Suc n) d s = Some (ms, r)" for d s ms r
  proof -
    from p obtain qs k s1 es v s2 c cs where q: "skip_ws s = CHR 0x22 # qs"
      and k: "lex_string qs = Some (k, s1)" and e: "skip_ws s1 = CHR '':'' # es"
      and v: "parse_value n d es = Some (v, s2)" and c: "skip_ws s2 = c # cs"
      by (auto split: option.splits list.splits if_splits)
    from V [OF v] skip_ws_length [OF q] lex_string_shorter [OF k] skip_ws_length [OF e]
      skip_ws_length [OF c]
    have "length cs < length s" by simp
    with p q k e v c show ?thesis by (auto split: if_splits dest: M)
  qed
  ultimately show ?case by blast
qed simp

lemmas parse_shorter =
  parse_shorter_all [THEN conjunct1, rule_format]
  parse_shorter_all [THEN conjunct2, THEN conjunct1, rule_format]
  parse_shorter_all [THEN conjunct2, THEN conjunct2, rule_format]

text \<open>
  With fuel beyond twice the number of characters, the result no longer depends on it.
\<close>

lemma parse_fuel_all:
  "(\<forall>m d s. 2 * length s < n \<longrightarrow> 2 * length s < m \<longrightarrow> parse_value n d s = parse_value m d s)
   \<and> (\<forall>m d s. 2 * length s + 1 < n \<longrightarrow> 2 * length s + 1 < m \<longrightarrow> parse_elems n d s = parse_elems m d s)
   \<and> (\<forall>m d s. 2 * length s + 1 < n \<longrightarrow> 2 * length s + 1 < m \<longrightarrow>
        parse_members n d s = parse_members m d s)"
proof (induction n)
  case (Suc n)
  then have V: "2 * length s < n \<Longrightarrow> 2 * length s < m \<Longrightarrow> parse_value n d s = parse_value m d s"
    and E: "2 * length s + 1 < n \<Longrightarrow> 2 * length s + 1 < m \<Longrightarrow> parse_elems n d s = parse_elems m d s"
    and M: "2 * length s + 1 < n \<Longrightarrow> 2 * length s + 1 < m \<Longrightarrow>
      parse_members n d s = parse_members m d s" for m d s
    by blast+
  have "parse_value (Suc n) d s = parse_value (Suc m) d s"
    if "2 * length s < Suc n" "2 * length s < Suc m" for m d s
  proof (cases "skip_ws s")
    case (Cons c cs)
    with skip_ws_length [OF Cons] that have "2 * length cs + 1 < n" "2 * length cs + 1 < m" by simp_all
    with Cons E [of cs m] M [of cs m] show ?thesis by (cases "skip_ws cs") simp_all
  qed simp
  moreover have "parse_elems (Suc n) d s = parse_elems (Suc m) d s"
    if b: "2 * length s + 1 < Suc n" "2 * length s + 1 < Suc m" for m d s
  proof -
    have v: "parse_value n d s = parse_value m d s" using b by (intro V) simp_all
    have "parse_elems n d cs = parse_elems m d cs"
      if "parse_value n d s = Some (v, s1)" "skip_ws s1 = c # cs" for v s1 c cs
      using parse_shorter(1) [OF that(1)] skip_ws_length [OF that(2)] b by (intro E) simp_all
    with v show ?thesis by (auto split: option.split list.split)
  qed
  moreover have "parse_members (Suc n) d s = parse_members (Suc m) d s"
    if b: "2 * length s + 1 < Suc n" "2 * length s + 1 < Suc m" for m d s
  proof (cases "\<exists>qs k s1 es. skip_ws s = CHR 0x22 # qs \<and> lex_string qs = Some (k, s1)
      \<and> skip_ws s1 = CHR '':'' # es")
    case True
    then obtain qs k s1 es where q: "skip_ws s = CHR 0x22 # qs" "lex_string qs = Some (k, s1)"
      "skip_ws s1 = CHR '':'' # es" by blast
    have es: "length es < length s"
      using skip_ws_length [OF q(1)] lex_string_shorter [OF q(2)] skip_ws_length [OF q(3)] by simp
    then have v: "parse_value n d es = parse_value m d es" using b by (intro V) simp_all
    have "parse_members n d cs = parse_members m d cs"
      if "parse_value n d es = Some (v, s2)" "skip_ws s2 = c # cs" for v s2 c cs
      using parse_shorter(1) [OF that(1)] skip_ws_length [OF that(2)] es b by (intro M) simp_all
    with q v show ?thesis by (auto split: option.split list.split)
  next
    case False
    then show ?thesis by (auto split: option.split list.split)
  qed
  ultimately show ?case
  proof (intro conjI allI impI, goal_cases)
    case (1 m d s)
    then show ?case by (cases m) (blast elim: less_zeroE)+
  next
    case (2 m d s)
    then show ?case by (cases m) (blast elim: less_zeroE)+
  next
    case (3 m d s)
    then show ?case by (cases m) (blast elim: less_zeroE)+
  qed
qed simp

theorem json_fuel_enough: "2 * length s < n \<Longrightarrow> json_parse_fuel n s = json_parse s"
  unfolding json_parse_def json_parse_fuel_def
  using parse_fuel_all [THEN conjunct1, rule_format, of s n "Suc (2 * length s)"] by simp

section \<open>Lemmas: parsing inverts printing\<close>

definition ascii :: "string \<Rightarrow> bool" where
  "ascii s = list_all (\<lambda>c. code c < 128) s"

lemma hex_digit_code: "n < 16 \<Longrightarrow> code (hex_digit n) = (if n < 10 then n + 48 else n + 87)"
  by (simp add: hex_digit_def)

lemma hex_digit_not_special:
  "n < 16 \<Longrightarrow> hex_digit n \<noteq> CHR 0x22 \<and> hex_digit n \<noteq> CHR 0x5C \<and> \<not> code (hex_digit n) < 32"
proof -
  assume n: "n < 16"
  have "hex_digit n \<noteq> c" if "code c < 48 \<or> code c = 92" for c
  proof
    assume "hex_digit n = c"
    with hex_digit_code [OF n] that show False by (simp split: if_splits)
  qed
  then show ?thesis using hex_digit_code [OF n] by simp
qed

lemma hex4_digits:
  "a < 16 \<Longrightarrow> b < 16 \<Longrightarrow>
   hex4 (CHR ''0'' # CHR ''0'' # hex_digit a # hex_digit b # t) = Some (a * 16 + b)"
  by (simp add: hex4_def hex_val_hex_digit) (simp add: hex_val_def)

text \<open>An escaped character is a self-contained piece of a literal, and decodes to itself.\<close>

lemma escape_char_cases:
  assumes "code c < 128"
  obtains (safe) "escape_char c = [c]" "c \<noteq> CHR 0x22" "c \<noteq> CHR 0x5C" "\<not> code c < 32"
  | (simple) e where "escape_char c = [CHR 0x5C, e]" "simple_escape e = Some c"
  | (unicode) a b where "escape_char c = [CHR 0x5C, CHR ''u'', CHR ''0'', CHR ''0'', hex_digit a, hex_digit b]"
      "a < 16" "b < 16" "code c = a * 16 + b"
proof (cases "html_safe c")
  case True
  then show ?thesis by (intro safe) (auto simp: escape_char_def html_safe_def)
next
  case False
  show ?thesis
  proof (cases "c \<in> {CHR 0x5C, CHR 0x22, CHR 0x08, CHR 0x0C, CHR 0x0A, CHR 0x0D, CHR 0x09}")
    case True
    with False show ?thesis
      by (auto intro: simple simp: escape_char_def simple_escape_def)
  next
    case no: False
    have "code c div 16 < 16" "code c mod 16 < 16" "code c = code c div 16 * 16 + code c mod 16"
      using assms by simp_all
    with False no show ?thesis
      by (intro unicode [of "code c div 16" "code c mod 16"]) (auto simp: escape_char_def)
  qed
qed

lemma raw_string_escape_char:
  assumes "code c < 128"
  shows "raw_string (escape_char c @ t) = map_option (\<lambda>(r, x). (escape_char c @ r, x)) (raw_string t)"
  using assms
proof (cases rule: escape_char_cases)
  case (unicode a b)
  then show ?thesis
    by (cases "raw_string t")
      (auto simp: hex4_digits hex_digit_not_special simple_escape_def)
qed (cases "raw_string t"; auto)+

lemma unquote_escape_char:
  assumes "code c < 128"
  shows "unquote (escape_char c @ t) = c # unquote t"
  using assms
proof (cases rule: escape_char_cases)
  case safe
  then show ?thesis using assms by (simp add: unquote.simps)
next
  case (simple e)
  then show ?thesis by (simp add: unquote.simps)
next
  case (unicode a b)
  have "char_of (a * 16 + b) = c" using unicode(4) by (metis char_of_char)
  moreover have "a * 16 + b < 128" using unicode(4) assms by simp
  ultimately show ?thesis using unicode
    by (simp add: unquote.simps(2) [of "CHR 0x5C" cs for cs] hex4_digits utf8_encode_def is_surrogate_def
        simple_escape_def)
qed

lemma lex_string_escape:
  assumes "ascii s"
  shows "lex_string (escape_string s @ CHR 0x22 # rest) = Some (s, rest)"
proof -
  have "raw_string (escape_string s @ CHR 0x22 # rest) = Some (escape_string s, rest)
      \<and> unquote (escape_string s) = s"
    using assms
    by (induction s)
      (simp_all add: ascii_def escape_string.simps raw_string_escape_char unquote_escape_char
        unquote.simps(1))
  then show ?thesis by (simp add: lex_string_def)
qed

definition num_ok :: "string \<Rightarrow> bool" where
  "num_ok t = (t \<noteq> [] \<and> list_all is_digit t \<and> (hd t = CHR ''0'' \<longrightarrow> length t = 1))"

fun json_ok :: "json \<Rightarrow> bool" where
  "json_ok (JNum t) = num_ok t"
| "json_ok (JStr s) = ascii s"
| "json_ok (JArr vs) = list_all json_ok vs"
| "json_ok (JObj ms) = list_all (\<lambda>(k, v). ascii k \<and> json_ok v) ms"
| "json_ok _ = True"

fun json_depth :: "json \<Rightarrow> nat" where
  "json_depth (JArr vs) = Suc (foldr max (map json_depth vs) 0)"
| "json_depth (JObj ms) = Suc (foldr max (map (\<lambda>(k, v). json_depth v) ms) 0)"
| "json_depth _ = 0"

definition num_stop :: "string \<Rightarrow> bool" where
  "num_stop s = (case s of [] \<Rightarrow> True
     | c # _ \<Rightarrow> \<not> is_digit c \<and> c \<noteq> CHR ''.'' \<and> c \<noteq> CHR ''e'' \<and> c \<noteq> CHR ''E'')"

lemma lex_digits_append:
  "list_all is_digit t \<Longrightarrow> rest = [] \<or> \<not> is_digit (hd rest) \<Longrightarrow> lex_digits (t @ rest) = (t, rest)"
  by (induction t; cases rest) (auto simp: lex_digits_def)

lemma lex_number_append:
  assumes "num_ok t" "num_stop rest"
  shows "lex_number (t @ rest) = Some (t, rest)"
proof -
  obtain c cs where t: "t = c # cs" using assms(1) by (cases t) (auto simp: num_ok_def)
  with assms have c: "is_digit c" "list_all is_digit cs" "c = CHR ''0'' \<longrightarrow> cs = []"
    by (auto simp: num_ok_def)
  have nc: "c \<noteq> CHR ''-''" using c(1) by (auto simp: is_digit_def)
  have "lex_digits (c # cs @ rest) = (c # cs, rest)"
    using lex_digits_append [of t rest] t c assms(2)
    by (cases rest) (auto simp: num_stop_def)
  with c have "lex_int (c # cs @ rest) = Some (c # cs, rest)" by (auto simp: lex_int_def)
  moreover have "lex_frac rest = Some ([], rest)" "lex_exp rest = Some ([], rest)"
    using assms(2) by (auto simp: lex_frac_def lex_exp_def num_stop_def split: list.splits)
  ultimately show ?thesis using nc t by (simp add: lex_number_def)
qed

definition first_ok :: "char \<Rightarrow> bool" where
  "first_ok c = (\<not> is_ws c \<and> c \<noteq> CHR '']'' \<and> c \<noteq> CHR ''}'')"

lemma print_first: "json_ok v \<Longrightarrow> \<exists>c cs. json_print v = c # cs \<and> first_ok c"
proof (cases v)
  case (JNum t)
  moreover assume "json_ok v"
  ultimately obtain c cs where "t = c # cs" "is_digit c"
    by (cases t) (auto simp: num_ok_def)
  moreover from this have "first_ok c" by (auto simp: is_digit_def first_ok_def is_ws_def)
  ultimately show ?thesis using JNum by simp
qed (auto simp: first_ok_def is_ws_def quote_def)

lemma print_pos: "json_ok v \<Longrightarrow> 0 < length (json_print v)"
  using print_first by fastforce

lemma foldr_max_le: "foldr max xs (0::nat) \<le> b \<longleftrightarrow> (\<forall>x\<in>set xs. x \<le> b)"
  by (induction xs) auto

text \<open>What the parser does on a printed value, with text after it.\<close>

definition reads_back :: "json \<Rightarrow> bool" where
  "reads_back v = (\<forall>n d rest. json_depth v + d \<le> maxNestingDepth \<longrightarrow> length (json_print v) < n \<longrightarrow>
     num_stop rest \<longrightarrow> parse_value n d (json_print v @ rest) = Some (v, rest))"

lemma parse_elems_print:
  assumes "vs \<noteq> []" "\<forall>v\<in>set vs. json_ok v \<and> reads_back v \<and> json_depth v + d \<le> maxNestingDepth"
    and "length (comma_sep (map json_print vs)) + 1 < n"
  shows "parse_elems n d (comma_sep (map json_print vs) @ CHR '']'' # rest) = Some (vs, rest)"
  using assms
proof (induction vs arbitrary: n rule: induct_list012)
  case (2 v)
  then obtain m where n: "n = Suc m" by (cases n) auto
  have "parse_value m d (json_print v @ CHR '']'' # rest) = Some (v, CHR '']'' # rest)"
    using 2 n by (auto simp: reads_back_def num_stop_def is_digit_def)
  with n show ?case by (simp add: is_ws_def)
next
  case (3 v w ws)
  then obtain m where n: "n = Suc m" by (cases n) auto
  let ?tl = "comma_sep (map json_print (w # ws)) @ CHR '']'' # rest"
  have "parse_value m d (json_print v @ CHR '','' # ?tl) = Some (v, CHR '','' # ?tl)"
    using 3 n by (auto simp: reads_back_def num_stop_def is_digit_def)
  moreover have "parse_elems m d ?tl = Some (w # ws, rest)"
    using 3 n print_pos [of v] by (intro "3.IH") auto
  ultimately show ?case using n by (simp add: is_ws_def)
qed simp

lemma parse_members_print:
  assumes "ms \<noteq> []"
    and "\<forall>(k, v)\<in>set ms. ascii k \<and> json_ok v \<and> reads_back v \<and> json_depth v + d \<le> maxNestingDepth"
    and "length (comma_sep (map (\<lambda>(k, v). quote k @ CHR '':'' # json_print v) ms)) + 1 < n"
  shows "parse_members n d (comma_sep (map (\<lambda>(k, v). quote k @ CHR '':'' # json_print v) ms)
           @ CHR ''}'' # rest) = Some (ms, rest)"
  using assms
proof (induction ms arbitrary: n rule: induct_list012)
  case (2 kv)
  obtain k v where kv: "kv = (k, v)" by (cases kv)
  from 2 obtain m where n: "n = Suc m" by (cases n) auto
  have "parse_value m d (json_print v @ CHR ''}'' # rest) = Some (v, CHR ''}'' # rest)"
    using 2 n kv by (auto simp: reads_back_def num_stop_def is_digit_def quote_def)
  with n kv 2 show ?case by (simp add: is_ws_def quote_def lex_string_escape)
next
  case (3 kv w ws)
  obtain k v where kv: "kv = (k, v)" by (cases kv)
  from 3 obtain m where n: "n = Suc m" by (cases n) auto
  let ?tl = "comma_sep (map (\<lambda>(k, v). quote k @ CHR '':'' # json_print v) (w # ws)) @ CHR ''}'' # rest"
  have "parse_value m d (json_print v @ CHR '','' # ?tl) = Some (v, CHR '','' # ?tl)"
    using 3 n kv by (auto simp: reads_back_def num_stop_def is_digit_def quote_def)
  moreover have "parse_members m d ?tl = Some (w # ws, rest)"
    using 3 n kv by (intro "3.IH") (auto simp: quote_def)
  ultimately show ?case using n kv 3 by (simp add: is_ws_def quote_def lex_string_escape)
qed simp

lemma comma_sep_first:
  "xs \<noteq> [] \<Longrightarrow> hd xs = c # cs \<Longrightarrow> \<exists>ds. comma_sep xs = c # ds"
  by (cases xs rule: comma_sep.cases) auto

lemma json_reads_back: "json_ok v \<Longrightarrow> reads_back v"
proof (induction v)
  case (JNum t)
  then have ok: "num_ok t" by simp
  then obtain c cs where t: "t = c # cs" "is_digit c"
    by (cases t) (auto simp: num_ok_def)
  then have "c \<notin> {CHR ''{'', CHR ''['', CHR 0x22, CHR ''t'', CHR ''f'', CHR ''n''}" "\<not> is_ws c"
    by (auto simp: is_digit_def is_ws_def)
  with t lex_number_append [OF ok] show ?case
    by (auto simp: reads_back_def gr0_conv_Suc dest!: less_imp_Suc_add)
next
  case (JStr s)
  then show ?case
    by (auto simp: reads_back_def quote_def lex_string_escape is_ws_def dest!: less_imp_Suc_add)
next
  case (JArr vs)
  then have IH: "\<forall>v\<in>set vs. json_ok v \<and> reads_back v" by (auto simp: list_all_iff)
  show ?case
    unfolding reads_back_def
  proof (intro allI impI)
    fix n d rest
    assume d: "json_depth (JArr vs) + d \<le> maxNestingDepth" and n: "length (json_print (JArr vs)) < n"
    then obtain m where m: "n = Suc m" by (cases n) auto
    have dv: "\<forall>v\<in>set vs. json_depth v + Suc d \<le> maxNestingDepth"
      using d foldr_max_le [of "map json_depth vs" "foldr max (map json_depth vs) 0"] by fastforce
    show "parse_value n d (json_print (JArr vs) @ rest) = Some (JArr vs, rest)"
    proof (cases "vs = []")
      case True
      with m d show ?thesis by (simp add: is_ws_def)
    next
      case False
      then obtain c cs where "json_print (hd vs) = c # cs" and c: "first_ok c"
        using IH print_first [of "hd vs"] by auto
      with False obtain ds where ds: "comma_sep (map json_print vs) = c # ds"
        using comma_sep_first [of "map json_print vs" c cs] by (auto simp: hd_map)
      have "parse_elems m (Suc d) (comma_sep (map json_print vs) @ CHR '']'' # rest) = Some (vs, rest)"
        using False IH dv n m by (intro parse_elems_print) auto
      with m d c ds show ?thesis by (simp add: is_ws_def first_ok_def)
    qed
  qed
next
  case (JObj ms)
  then have IH: "\<forall>(k, v)\<in>set ms. ascii k \<and> json_ok v \<and> reads_back v"
    by (fastforce simp: list_all_iff snds.simps)
  show ?case
    unfolding reads_back_def
  proof (intro allI impI)
    fix n d rest
    assume d: "json_depth (JObj ms) + d \<le> maxNestingDepth" and n: "length (json_print (JObj ms)) < n"
    then obtain m where m: "n = Suc m" by (cases n) auto
    let ?pm = "\<lambda>(k, v). quote k @ CHR '':'' # json_print v"
    have dv: "\<forall>(k, v)\<in>set ms. json_depth v + Suc d \<le> maxNestingDepth"
      using d foldr_max_le [of "map (\<lambda>(k, v). json_depth v) ms"
          "foldr max (map (\<lambda>(k, v). json_depth v) ms) 0"] by fastforce
    show "parse_value n d (json_print (JObj ms) @ rest) = Some (JObj ms, rest)"
    proof (cases "ms = []")
      case True
      with m d show ?thesis by (simp add: is_ws_def)
    next
      case False
      then obtain ds where ds: "comma_sep (map ?pm ms) = CHR 0x22 # ds"
        by (cases "hd ms") (use comma_sep_first [of "map ?pm ms" "CHR 0x22"] in
            \<open>force simp: hd_map quote_def\<close>)
      have "parse_members m (Suc d) (comma_sep (map ?pm ms) @ CHR ''}'' # rest) = Some (ms, rest)"
        using False IH dv n m by (intro parse_members_print) auto
      with m d ds show ?thesis by (simp add: is_ws_def)
    qed
  qed
qed (auto simp: reads_back_def expect_def is_ws_def dest!: less_imp_Suc_add)

theorem json_roundtrip [codec_simps]:
  assumes "json_ok v" "json_depth v \<le> maxNestingDepth"
  shows "json_parse (json_print v) = Inr v"
proof -
  have "parse_value (Suc (2 * length (json_print v))) 0 (json_print v @ []) = Some (v, [])"
    using json_reads_back [OF assms(1)] assms(2) unfolding reads_back_def
    by (elim allE [where x = "Suc (2 * length (json_print v))"] allE [where x = "0 :: nat"]
        allE [where x = "[]"]) (simp add: num_stop_def del: parse_value.simps)
  then show ?thesis by (simp add: json_parse_def json_parse_fuel_def del: parse_value.simps)
qed

section \<open>Lemmas: numbers, slices and arrays\<close>

lemma show_nat_digits: "list_all is_digit (show_nat n) \<and> show_nat n \<noteq> []"
proof (induction n rule: show_nat.induct)
  case (1 n)
  have "is_digit (char_of (n mod 10 + 48))" "n < 10 \<longrightarrow> is_digit (char_of (n + 48))"
    by (auto simp: is_digit_def)
  with 1 show ?case by (subst (1 2) show_nat.simps) auto
qed

lemma show_nat_hd: "0 < n \<Longrightarrow> hd (show_nat n) \<noteq> CHR ''0''"
proof (induction n rule: show_nat.induct)
  case (1 n)
  have "char_of (n + 48) \<noteq> CHR ''0''" if "n < 10"
  proof
    assume "char_of (n + 48) = CHR ''0''"
    then have "of_char (char_of (n + 48)) = (48 :: nat)" by simp
    with that 1 show False by simp
  qed
  with 1 show_nat_digits [of "n div 10"] show ?case by (subst show_nat.simps) auto
qed

lemma show_nat_num_ok: "num_ok (show_nat n)"
proof (cases "n = 0")
  case True
  then show ?thesis by (simp add: show_nat.simps num_ok_def is_digit_def)
next
  case False
  with show_nat_digits [of n] show_nat_hd [of n] show ?thesis by (simp add: num_ok_def)
qed

lemma foldl_show_nat: "foldl (\<lambda>n c. n * 10 + (code c - 48)) 0 (show_nat n) = n"
proof (induction n rule: show_nat.induct)
  case (1 n)
  then show ?case
    by (cases "n < 10") (subst show_nat.simps; simp add: show_nat.simps [of n])+
qed

lemma parse_uint_show_nat [codec_simps]: "parse_uint (show_nat n) = Some n"
  using show_nat_digits [of n] by (simp add: parse_uint_def foldl_show_nat)

lemma store_elems_array:
  "store_elems (map (\<lambda>b. JNum (show_nat (unat b))) bs) old err = (bs, err)"
  by (induction bs arbitrary: old) (simp_all add: store_byte_def parse_uint_show_nat)

theorem store_array_roundtrip [codec_simps]:
  "length bs = n \<Longrightarrow> store_array n (array_json bs) (old, err) = (bs, err)"
  by (simp add: store_array_def array_json_def store_elems_array)

theorem store_slice_roundtrip [codec_simps]: "store_slice (slice_json s) (old, err) = (s, err)"
  by (cases s) (simp_all add: store_slice_def slice_json_def b64_roundtrip)

lemma plain_ascii: "list_all plain_char s \<Longrightarrow> ascii s"
  by (auto simp: ascii_def plain_char_def list_all_iff)

lemma json_ok_slice [codec_simps]: "json_ok (slice_json s)" "json_depth (slice_json s) = 0"
  by (cases s; simp add: slice_json_def plain_ascii [OF b64_plain])+

lemma json_ok_array [codec_simps]: "json_ok (array_json bs)" "json_depth (array_json bs) \<le> 1"
proof -
  show "json_ok (array_json bs)" by (simp add: array_json_def list_all_iff show_nat_num_ok)
  have "foldr max (map json_depth (map (\<lambda>b. JNum (show_nat (unat b))) bs)) 0 = 0"
    by (induction bs) auto
  then show "json_depth (array_json bs) \<le> 1" by (simp add: array_json_def)
qed

section \<open>Structs\<close>

text \<open>
  Storing a value into one field of a struct, given how the field is read and written.
\<close>

definition store_in ::
    "('a \<Rightarrow> 'f) \<Rightarrow> ('f \<Rightarrow> 'a \<Rightarrow> 'a) \<Rightarrow> (json \<Rightarrow> 'f decoding \<Rightarrow> 'f decoding)
     \<Rightarrow> json \<Rightarrow> 'a decoding \<Rightarrow> 'a decoding" where
  "store_in get upd store v st =
     (case store v (get (fst st), snd st) of (f, err) \<Rightarrow> (upd f (fst st), err))"

definition json_Marshal :: "json \<Rightarrow> bytes" where
  "json_Marshal v = str_bytes (json_print v)"

lemma json_Unmarshal_Marshal:
  assumes "json_ok (JObj ms)" "json_depth (JObj ms) \<le> maxNestingDepth"
  shows "json_Unmarshal field (json_Marshal (JObj ms)) x = fold (\<lambda>(k, v). field k v) ms (x, None)"
  using assms
  by (simp add: json_Unmarshal_def json_Marshal_def json_roundtrip store_struct_def
      del: json_ok.simps json_depth.simps json_print.simps)

text \<open>
  The contract of a struct that is sent as JSON: decoding an encoded value into the zero struct
  gives the value back, without an error.
\<close>

locale json_codec =
  fixes enc :: "'a \<Rightarrow> bytes"
    and dec :: "bytes \<Rightarrow> 'a decoding"
    and wf :: "'a \<Rightarrow> bool"
  assumes dec_enc: "wf x \<Longrightarrow> dec (enc x) = (x, None)"
begin

lemma enc_inject: "wf x \<Longrightarrow> wf y \<Longrightarrow> enc x = enc y \<longleftrightarrow> x = y"
  by (metis dec_enc fst_conv)

end

end
