(* ===== verification/Sha256.thy ===== *)
theory Sha256
  imports Prelude
begin

text \<open>
  SHA-256 (FIPS 180-4) as \<^verbatim>\<open>crypto/sha256\<close> computes it, on bytes and 32-bit words that wrap
  around. The daemon uses \<^verbatim>\<open>sha256.Sum256\<close> for certificate fingerprints, for the hash of the
  encrypted keys in the leader's attestation document and for the hash of the key material in
  heartbeats.
\<close>

unbundle bit_operations_syntax

type_synonym w32 = "32 word"

definition sha256_Size :: nat where
  "sha256_Size = 32"

text \<open>
  The constants, as the standard describes them: the first 32 bits of the fractional parts of the
  cube roots of the first 64 primes, and of the square roots of the first eight. The root of
  \<open>n\<close> is found bit by bit, from bit \<open>b - 1\<close> on.
\<close>

fun floor_root :: "nat \<Rightarrow> int \<Rightarrow> nat \<Rightarrow> int \<Rightarrow> int" where
  "floor_root k n 0 r = r"
| "floor_root k n (Suc b) r = floor_root k n b (if (r + 2 ^ b) ^ k \<le> n then r + 2 ^ b else r)"

definition root_fraction :: "nat \<Rightarrow> int \<Rightarrow> w32" where
  "root_fraction k p = word_of_int (floor_root k (p * 2 ^ (32 * k)) 36 0)"

definition first_primes :: "int list" where
  "first_primes =
     [2, 3, 5, 7, 11, 13, 17, 19, 23, 29, 31, 37, 41, 43, 47, 53,
      59, 61, 67, 71, 73, 79, 83, 89, 97, 101, 103, 107, 109, 113, 127, 131,
      137, 139, 149, 151, 157, 163, 167, 173, 179, 181, 191, 193, 197, 199, 211, 223,
      227, 229, 233, 239, 241, 251, 257, 263, 269, 271, 277, 281, 283, 293, 307, 311]"

definition sha256_K :: "w32 list" where
  "sha256_K = map (root_fraction 3) first_primes"

definition sha256_init :: "w32 list" where
  "sha256_init = map (root_fraction 2) (take 8 first_primes)"

definition be_w32 :: "bytes \<Rightarrow> w32" where
  "be_w32 bs = word_of_nat (foldl (\<lambda>n b. n * 256 + unat b) 0 bs)"

definition be_bytes :: "nat \<Rightarrow> nat \<Rightarrow> bytes" where
  "be_bytes k n = map (\<lambda>i. word_of_nat (n div 256 ^ (k - 1 - i))) [0..<k]"

definition sha256_pad :: "bytes \<Rightarrow> bytes" where
  "sha256_pad m =
     m @ [0x80] @ replicate ((119 - length m mod 64) mod 64) 0 @ be_bytes 8 (8 * length m)"

definition small_sigma0 :: "w32 \<Rightarrow> w32" where
  "small_sigma0 x = word_rotr 7 x XOR word_rotr 18 x XOR drop_bit 3 x"

definition small_sigma1 :: "w32 \<Rightarrow> w32" where
  "small_sigma1 x = word_rotr 17 x XOR word_rotr 19 x XOR drop_bit 10 x"

definition big_sigma0 :: "w32 \<Rightarrow> w32" where
  "big_sigma0 x = word_rotr 2 x XOR word_rotr 13 x XOR word_rotr 22 x"

definition big_sigma1 :: "w32 \<Rightarrow> w32" where
  "big_sigma1 x = word_rotr 6 x XOR word_rotr 11 x XOR word_rotr 25 x"

text \<open>The message schedule: 16 words of the block, extended to 64.\<close>

fun block_words :: "nat \<Rightarrow> bytes \<Rightarrow> w32 list" where
  "block_words 0 bs = []"
| "block_words (Suc n) bs = be_w32 (take 4 bs) # block_words n (drop 4 bs)"

fun extend :: "nat \<Rightarrow> w32 list \<Rightarrow> w32 list" where
  "extend 0 ws = ws"
| "extend (Suc n) ws =
     (let t = length ws in
      extend n (ws @ [small_sigma1 (ws ! (t - 2)) + ws ! (t - 7)
                      + small_sigma0 (ws ! (t - 15)) + ws ! (t - 16)]))"

definition schedule :: "bytes \<Rightarrow> w32 list" where
  "schedule block = extend 48 (block_words 16 block)"

fun sha256_round :: "w32 list \<Rightarrow> w32 \<times> w32 \<Rightarrow> w32 list" where
  "sha256_round [a, b, c, d, e, f, g, h] (k, w) =
     (let t1 = h + big_sigma1 e + ((e AND f) XOR (NOT e AND g)) + k + w;
          t2 = big_sigma0 a + ((a AND b) XOR (a AND c) XOR (b AND c))
      in [t1 + t2, a, b, c, d + t1, e, f, g])"
| "sha256_round st _ = st"

definition sha256_compress :: "w32 list \<Rightarrow> bytes \<Rightarrow> w32 list" where
  "sha256_compress st block =
     map2 (+) st (foldl sha256_round st (zip sha256_K (schedule block)))"

fun sha256_blocks :: "nat \<Rightarrow> w32 list \<Rightarrow> bytes \<Rightarrow> w32 list" where
  "sha256_blocks 0 st bs = st"
| "sha256_blocks (Suc n) st bs = sha256_blocks n (sha256_compress st (take 64 bs)) (drop 64 bs)"

definition sha256_Sum256 :: "bytes \<Rightarrow> bytes" where
  "sha256_Sum256 m =
     (let p = sha256_pad m in
      concat (map (\<lambda>w. be_bytes 4 (unat w)) (sha256_blocks (length p div 64) sha256_init p)))"

section \<open>Lemmas\<close>

lemma length_be_bytes [simp]: "length (be_bytes k n) = k"
  by (simp add: be_bytes_def)

lemma length_sha256_round [simp]: "length (sha256_round st kw) = length st"
  by (cases "(st, kw)" rule: sha256_round.cases) (simp_all add: Let_def)

lemma length_foldl_round [simp]: "length (foldl sha256_round st kws) = length st"
  by (induction kws arbitrary: st) simp_all

lemma length_sha256_compress [simp]: "length (sha256_compress st block) = length st"
  by (simp add: sha256_compress_def)

lemma length_sha256_blocks [simp]: "length (sha256_blocks n st bs) = length st"
  by (induction n arbitrary: st bs) simp_all

lemma length_concat_be: "length (concat (map (\<lambda>w. be_bytes 4 (unat w)) ws)) = 4 * length ws"
  by (induction ws) simp_all

text \<open>The search finds the root: the largest number whose power is not above the argument.\<close>

lemma floor_root_spec:
  assumes "0 \<le> r" "r ^ k \<le> n" "n < (r + 2 ^ b) ^ k"
  shows "floor_root k n b r ^ k \<le> n \<and> n < (floor_root k n b r + 1) ^ k"
  using assms
proof (induction b arbitrary: r)
  case (Suc b)
  show ?case
  proof (cases "(r + 2 ^ b) ^ k \<le> n")
    case True
    moreover have "n < (r + 2 ^ b + 2 ^ b) ^ k" using Suc.prems(3) by (simp add: algebra_simps)
    ultimately show ?thesis using Suc.IH [of "r + 2 ^ b"] Suc.prems(1) by simp
  next
    case False
    then show ?thesis using Suc.IH [of r] Suc.prems by simp
  qed
qed simp

lemma length_first_primes: "length first_primes = 64"
  by (simp add: first_primes_def)

theorem length_sha256 [simp]: "length (sha256_Sum256 m) = 32"
proof -
  have "length sha256_init = 8" by (simp add: sha256_init_def length_first_primes)
  then show ?thesis by (simp add: sha256_Sum256_def Let_def length_concat_be)
qed

end
