(* ===== verification/Keys.thy ===== *)
theory Keys
  imports Go_Json Sha256
begin

text \<open>
  The key material of an enclave (src/enclave_keys.go). The struct guards its three slices with a
  mutex, and every method but \<^verbatim>\<open>set\<close> runs under one lock, so a method is one state change;
  \<^verbatim>\<open>set\<close> is two of them in sequence. The lemmas are the getter/setter laws, what the hash over
  the key material tells two enclaves, and the JSON round trip that key synchronization uses.
\<close>

section \<open>Definitions\<close>

record enclaveKeys =
  NitridingKey :: slice
  NitridingCert :: slice
  AppKeys :: slice

definition noKeys :: enclaveKeys where
  "noKeys = \<lparr>NitridingKey = None, NitridingCert = None, AppKeys = None\<rparr>"

definition keys_equal :: "enclaveKeys \<Rightarrow> enclaveKeys \<Rightarrow> bool" where
  "keys_equal e1 e2 =
     (slice_bytes (NitridingCert e1) = slice_bytes (NitridingCert e2)
      \<and> slice_bytes (NitridingKey e1) = slice_bytes (NitridingKey e2)
      \<and> slice_bytes (AppKeys e1) = slice_bytes (AppKeys e2))"

definition setAppKeys :: "slice \<Rightarrow> enclaveKeys \<Rightarrow> enclaveKeys" where
  "setAppKeys appKeys e = e\<lparr>AppKeys := appKeys\<rparr>"

definition setNitridingKeys :: "slice \<Rightarrow> slice \<Rightarrow> enclaveKeys \<Rightarrow> enclaveKeys" where
  "setNitridingKeys key cert e = e\<lparr>NitridingKey := key, NitridingCert := cert\<rparr>"

definition keys_set :: "enclaveKeys \<Rightarrow> enclaveKeys \<Rightarrow> enclaveKeys" where
  "keys_set newKeys e =
     setNitridingKeys (NitridingKey newKeys) (NitridingCert newKeys) (setAppKeys (AppKeys newKeys) e)"

definition keys_copy :: "enclaveKeys \<Rightarrow> enclaveKeys" where
  "keys_copy e =
     \<lparr>NitridingKey = NitridingKey e, NitridingCert = NitridingCert e, AppKeys = AppKeys e\<rparr>"

definition getAppKeys :: "enclaveKeys \<Rightarrow> slice" where
  "getAppKeys e = AppKeys e"

definition keys_concat :: "enclaveKeys \<Rightarrow> bytes" where
  "keys_concat e =
     (slice_bytes (NitridingCert e) @ slice_bytes (NitridingKey e)) @ slice_bytes (AppKeys e)"

definition hashAndB64 :: "enclaveKeys \<Rightarrow> string" where
  "hashAndB64 e = b64_EncodeToString (sha256_Sum256 (keys_concat e))"

text \<open>The JSON form, from the struct's field tags.\<close>

definition keys_json :: "enclaveKeys \<Rightarrow> json" where
  "keys_json e =
     JObj [(''nitriding_key'', slice_json (NitridingKey e)),
           (''nitriding_cert'', slice_json (NitridingCert e)),
           (''app_keys'', slice_json (AppKeys e))]"

definition keys_Marshal :: "enclaveKeys \<Rightarrow> bytes" where
  "keys_Marshal e = json_Marshal (keys_json e)"

definition keys_field :: "string \<Rightarrow> json \<Rightarrow> enclaveKeys decoding \<Rightarrow> enclaveKeys decoding" where
  "keys_field k v st =
     (if same_field ''nitriding_key'' k then
        store_in NitridingKey (\<lambda>f x. x\<lparr>NitridingKey := f\<rparr>) store_slice v st
      else if same_field ''nitriding_cert'' k then
        store_in NitridingCert (\<lambda>f x. x\<lparr>NitridingCert := f\<rparr>) store_slice v st
      else if same_field ''app_keys'' k then
        store_in AppKeys (\<lambda>f x. x\<lparr>AppKeys := f\<rparr>) store_slice v st
      else st)"

definition keys_Unmarshal :: "bytes \<Rightarrow> enclaveKeys decoding" where
  "keys_Unmarshal bs = json_Unmarshal keys_field bs noKeys"

section \<open>Lemmas\<close>

lemma keys_set_copy: "keys_set (keys_copy k) e = k"
  by (simp add: keys_set_def keys_copy_def setAppKeys_def setNitridingKeys_def)

lemma keys_set [simp]: "keys_set k e = k"
  by (simp add: keys_set_def setAppKeys_def setNitridingKeys_def)

lemma keys_copy [simp]: "keys_copy k = k"
  by (simp add: keys_copy_def)

lemma getAppKeys_setAppKeys [simp]: "getAppKeys (setAppKeys a e) = a"
  by (simp add: getAppKeys_def setAppKeys_def)

lemma setAppKeys_keeps [simp]:
  "NitridingKey (setAppKeys a e) = NitridingKey e" "NitridingCert (setAppKeys a e) = NitridingCert e"
  "AppKeys (setAppKeys a e) = a"
  by (simp_all add: setAppKeys_def)

lemma keys_equal_refl [simp]: "keys_equal e e"
  by (simp add: keys_equal_def)

lemma keys_equal_sym: "keys_equal e1 e2 = keys_equal e2 e1"
  by (auto simp: keys_equal_def)

lemma keys_equal_hash: "keys_equal e1 e2 \<Longrightarrow> hashAndB64 e1 = hashAndB64 e2"
  by (simp add: keys_equal_def hashAndB64_def keys_concat_def)

lemma length_hashAndB64: "length (hashAndB64 e) = 44"
  by (simp add: hashAndB64_def b64_EncodedLen_def)

lemma hashAndB64_eq_iff:
  "hashAndB64 e1 = hashAndB64 e2 \<longleftrightarrow>
   sha256_Sum256 (keys_concat e1) = sha256_Sum256 (keys_concat e2)"
  by (simp add: hashAndB64_def)

lemma keys_json_ok: "json_ok (keys_json e)" "json_depth (keys_json e) \<le> maxNestingDepth"
  by (simp_all add: keys_json_def json_ok_slice ascii_def maxNestingDepth_def)

interpretation keys_codec: json_codec keys_Marshal keys_Unmarshal "\<lambda>_. True"
proof
  fix x :: enclaveKeys
  have "keys_Unmarshal (keys_Marshal x) = fold (\<lambda>(k, v). keys_field k v)
     [(''nitriding_key'', slice_json (NitridingKey x)),
      (''nitriding_cert'', slice_json (NitridingCert x)),
      (''app_keys'', slice_json (AppKeys x))] (noKeys, None)"
    using keys_json_ok [of x]
    unfolding keys_Unmarshal_def keys_Marshal_def keys_json_def by (rule json_Unmarshal_Marshal)
  also have "\<dots> = (x, None)"
    by (simp add: keys_field_def same_field_def store_in_def store_slice_roundtrip noKeys_def)
  finally show "keys_Unmarshal (keys_Marshal x) = (x, None)" .
qed

section \<open>Properties\<close>

text \<open>C31: The key material survives JSON: decoding what \<^verbatim>\<open>json.Marshal\<close> made of any keys gives the
  same keys and no error, with \<^verbatim>\<open>nil\<close> and empty slices kept apart.\<close>

theorem keys_json_roundtrip: "keys_Unmarshal (keys_Marshal k) = (k, None)"
  by (rule keys_codec.dec_enc) simp

text \<open>Installing a copy of another enclave's keys makes the two enclaves agree: they compare
  equal and send the same hash, which has 44 characters.\<close>

theorem installed_keys_agree:
  "keys_equal (keys_set (keys_copy k) e) k \<and> hashAndB64 (keys_set (keys_copy k) e) = hashAndB64 k
   \<and> length (hashAndB64 k) = 44"
  by (simp add: keys_set_copy length_hashAndB64)

text \<open>The hash is over the plain concatenation of certificate, key and application keys, so it does
  not tell keys apart that split the same bytes differently: the hashes agree although the keys do
  not compare equal.\<close>

theorem hash_is_ambiguous:
  assumes "xs \<noteq> []"
  shows "let e1 = \<lparr>NitridingKey = Some xs, NitridingCert = Some [], AppKeys = Some []\<rparr>;
             e2 = \<lparr>NitridingKey = Some [], NitridingCert = Some [], AppKeys = Some xs\<rparr> in
         hashAndB64 e1 = hashAndB64 e2 \<and> \<not> keys_equal e1 e2"
  using assms by (simp add: hashAndB64_def keys_concat_def keys_equal_def slice_bytes_def)

theorem hash_is_ambiguous_witness:
  "let e1 = \<lparr>NitridingKey = Some [1], NitridingCert = Some [], AppKeys = Some []\<rparr>;
       e2 = \<lparr>NitridingKey = Some [], NitridingCert = Some [], AppKeys = Some [1]\<rparr> in
   hashAndB64 e1 = hashAndB64 e2 \<and> \<not> keys_equal e1 e2"
  by (rule hash_is_ambiguous) simp

end
