(* ===== verification/Readers.thy ===== *)
theory Readers
  imports Prelude
begin

text \<open>
  \<^verbatim>\<open>io.Reader\<close>, the \<^verbatim>\<open>limitReader\<close> of src/system.go and the loops of \<^verbatim>\<open>io.ReadAll\<close> and
  \<^verbatim>\<open>io.ReadFull\<close> over them. A reader is the list of what its successive \<^verbatim>\<open>Read\<close> calls can
  deliver, so that a body may arrive in any chunks, with calls that deliver nothing, and with an
  error that comes alone or together with the last bytes. The lemmas show that reading a body
  through a limit gives the same answer for every way the body is cut into chunks and for every
  size of the read buffer.
\<close>

section \<open>Readers\<close>

text \<open>
  \<open>Chunk bs\<close> is data that is there to be read; \<open>Final bs e\<close> is the last data, whose read
  reports the error \<open>e\<close> as well. An exhausted reader reports \<open>EOF\<close>.
\<close>

datatype read_event = Chunk bytes | Final bytes go_error

type_synonym reader = "read_event list"

type_synonym read_result = "bytes \<times> go_error option"

text \<open>One \<^verbatim>\<open>Read\<close> into a buffer of \<open>n\<close> bytes.\<close>

fun rd_Read :: "reader \<Rightarrow> nat \<Rightarrow> read_result \<times> reader" where
  "rd_Read [] n = (([], Some EOF), [])"
| "rd_Read (Chunk bs # es) n =
     (if length bs \<le> n then ((bs, None), es) else ((take n bs, None), Chunk (drop n bs) # es))"
| "rd_Read (Final bs e # es) n =
     (if length bs \<le> n then ((bs, Some e), [Final [] e])
      else ((take n bs, None), Final (drop n bs) e # es))"

text \<open>All the data a reader delivers, and the error it ends with.\<close>

fun rd_data :: "reader \<Rightarrow> bytes" where
  "rd_data [] = []"
| "rd_data (Chunk bs # es) = bs @ rd_data es"
| "rd_data (Final bs e # es) = bs"

fun rd_end :: "reader \<Rightarrow> go_error" where
  "rd_end [] = EOF"
| "rd_end (Chunk bs # es) = rd_end es"
| "rd_end (Final bs e # es) = e"

text \<open>A reader whose calls always make progress: none returns 0 bytes without an error.\<close>

fun rd_busy :: "reader \<Rightarrow> bool" where
  "rd_busy [] = True"
| "rd_busy (Chunk bs # es) = (bs \<noteq> [] \<and> rd_busy es)"
| "rd_busy (Final bs e # es) = True"

fun rd_size :: "reader \<Rightarrow> nat" where
  "rd_size [] = 0"
| "rd_size (Chunk bs # es) = Suc (length bs) + rd_size es"
| "rd_size (Final bs e # es) = Suc (length bs)"

text \<open>A body in memory, as \<^verbatim>\<open>bytes.NewReader\<close> gives it.\<close>

definition bytes_reader :: "bytes \<Rightarrow> reader" where
  "bytes_reader bs = (if bs = [] then [] else [Chunk bs])"

section \<open>The limit reader\<close>

record limitReader =
  lr_Reader :: reader
  lr_Limit :: nat

definition newLimitReader :: "reader \<Rightarrow> nat \<Rightarrow> limitReader" where
  "newLimitReader r limit = \<lparr>lr_Reader = r, lr_Limit = limit\<rparr>"

definition lr_Read :: "limitReader \<Rightarrow> nat \<Rightarrow> read_result \<times> limitReader" where
  "lr_Read l p =
     (if lr_Limit l = 0 then
        (case rd_Read (lr_Reader l) 1 of
           ((bs, err), r) \<Rightarrow>
             (if bs = [] \<and> (case err of None \<Rightarrow> False | Some e \<Rightarrow> errors_Is e EOF)
              then ((bs, err), l\<lparr>lr_Reader := r\<rparr>)
              else (([], Some ErrTooMuchToRead), l\<lparr>lr_Reader := r\<rparr>)))
      else
        (case rd_Read (lr_Reader l) (if p > lr_Limit l then lr_Limit l else p) of
           ((bs, err), r) \<Rightarrow>
             ((bs, err), l\<lparr>lr_Reader := r, lr_Limit := lr_Limit l - length bs\<rparr>)))"

section \<open>Reading everything\<close>

text \<open>
  \<^verbatim>\<open>io.ReadAll\<close>. The free capacity of the buffer, given the number of bytes read so far, is an
  argument: after the first 512 bytes it is what the allocator's growth of the slice leaves. The
  buffer always has room for one byte.
\<close>

lemma rd_Read_size:
  "rd_Read r n = ((bs, None), r') \<Longrightarrow> 0 < n \<Longrightarrow> rd_size r' < rd_size r"
  by (induction r n rule: rd_Read.induct) (auto split: if_splits)

function read_all :: "(nat \<Rightarrow> nat) \<Rightarrow> limitReader \<Rightarrow> bytes \<Rightarrow> bytes \<times> go_error option" where
  "read_all spare l acc =
     (case lr_Read l (max 1 (spare (length acc))) of
        ((bs, err), l') \<Rightarrow>
          (case err of
             None \<Rightarrow> read_all spare l' (acc @ bs)
           | Some e \<Rightarrow> (acc @ bs, if e = EOF then None else Some e)))"
  by pat_completeness auto
termination
  by (relation "measure (\<lambda>(spare, l, acc). rd_size (lr_Reader l))")
    (auto simp: lr_Read_def split: if_splits prod.splits option.splits intro: rd_Read_size)

declare read_all.simps [simp del]

definition read_all_spare :: "nat \<Rightarrow> nat" where
  "read_all_spare n = (if n < 512 then 512 - n else n)"

definition io_ReadAll :: "limitReader \<Rightarrow> bytes \<times> go_error option" where
  "io_ReadAll l = read_all read_all_spare l []"

text \<open>
  \<^verbatim>\<open>io.ReadFull\<close> into a buffer of \<open>n\<close> bytes: it reads until the buffer is full, \<open>EOF\<close>
  before the first byte stays \<open>EOF\<close> and later becomes \<^verbatim>\<open>io.ErrUnexpectedEOF\<close>.
\<close>

function read_full :: "reader \<Rightarrow> nat \<Rightarrow> bytes \<Rightarrow> read_result \<times> reader" where
  "read_full r n acc =
     (if length acc \<ge> n then ((acc, None), r)
      else (case rd_Read r (n - length acc) of
              ((bs, err), r') \<Rightarrow>
                (case err of
                   None \<Rightarrow> read_full r' n (acc @ bs)
                 | Some e \<Rightarrow>
                     (if length (acc @ bs) \<ge> n then ((acc @ bs, None), r')
                      else if acc @ bs \<noteq> [] \<and> e = EOF then ((acc @ bs, Some ErrUnexpectedEOF), r')
                      else ((acc @ bs, Some e), r')))))"
  by pat_completeness auto
termination
  by (relation "measure (\<lambda>(r, n, acc). rd_size r)") (auto intro: rd_Read_size [OF sym])

declare read_full.simps [simp del]

definition io_ReadFull :: "reader \<Rightarrow> nat \<Rightarrow> read_result \<times> reader" where
  "io_ReadFull r n = read_full r n []"

section \<open>Lemmas: one read\<close>

lemma rd_Read_data:
  "rd_Read r n = ((bs, None), r') \<Longrightarrow> rd_data r = bs @ rd_data r' \<and> rd_end r' = rd_end r"
  by (induction r n rule: rd_Read.induct) (auto split: if_splits)

lemma rd_Read_last:
  "rd_Read r n = ((bs, Some e), r') \<Longrightarrow> rd_data r = bs \<and> rd_end r = e"
  by (induction r n rule: rd_Read.induct) (auto split: if_splits)

lemma rd_Read_length: "rd_Read r n = ((bs, err), r') \<Longrightarrow> length bs \<le> n"
  by (induction r n rule: rd_Read.induct) (auto split: if_splits)

lemma rd_Read_busy: "rd_Read r n = ((bs, None), r') \<Longrightarrow> rd_busy r \<Longrightarrow> 0 < n \<Longrightarrow> bs \<noteq> [] \<and> rd_busy r'"
  by (induction r n rule: rd_Read.induct) (auto split: if_splits)

lemma bytes_reader_simps [simp]:
  "rd_data (bytes_reader bs) = bs" "rd_end (bytes_reader bs) = EOF" "rd_busy (bytes_reader bs)"
  by (simp_all add: bytes_reader_def)

text \<open>A read through the limit reader never delivers more than the limit.\<close>

lemma lr_Read_limit:
  assumes "lr_Read l p = ((bs, err), l')"
  shows "length bs + lr_Limit l' \<le> lr_Limit l"
  using assms by (auto simp: lr_Read_def split: if_splits prod.splits dest: rd_Read_length)

section \<open>Lemmas: reading a body through a limit\<close>

text \<open>
  Whatever the reader does: at most the limit is read, what is read is a prefix of the data, and
  success means that all of it was read.
\<close>

theorem read_all_sound:
  assumes "read_all spare l acc = (out, err)"
  shows "\<exists>bs. out = acc @ bs \<and> length bs \<le> lr_Limit l \<and> bs = take (length bs) (rd_data (lr_Reader l))
    \<and> (err = None \<longrightarrow> bs = rd_data (lr_Reader l) \<and> rd_end (lr_Reader l) = EOF)"
  using assms
proof (induction spare l acc arbitrary: out err rule: read_all.induct)
  case (1 spare l acc)
  obtain bs e l' where rd: "lr_Read l (max 1 (spare (length acc))) = ((bs, e), l')"
    by (metis prod.exhaust)
  show ?case
  proof (cases e)
    case None
    then obtain r n where "lr_Limit l \<noteq> 0" and r: "rd_Read (lr_Reader l) n = ((bs, None), r)"
      and l': "l' = l\<lparr>lr_Reader := r, lr_Limit := lr_Limit l - length bs\<rparr>"
      using rd by (auto simp: lr_Read_def split: if_splits prod.splits)
    have "read_all spare l' (acc @ bs) = (out, err)"
      using 1(2) rd None by (simp add: read_all.simps [of spare l acc])
    from 1(1) [OF rd [symmetric] refl None this] obtain cs where
      "out = acc @ bs @ cs" "length cs \<le> lr_Limit l'"
      "cs = take (length cs) (rd_data (lr_Reader l'))"
      "err = None \<longrightarrow> cs = rd_data (lr_Reader l') \<and> rd_end (lr_Reader l') = EOF" by auto
    with rd_Read_data [OF r] l' lr_Read_limit [OF rd] show ?thesis
      by (intro exI [of _ "bs @ cs"]) auto
  next
    case (Some x)
    then have res: "out = acc @ bs" "err = (if x = EOF then None else Some x)"
      using 1(2) rd by (simp_all add: read_all.simps [of spare l acc])
    have "bs = take (length bs) (rd_data (lr_Reader l))
      \<and> (x = EOF \<longrightarrow> bs = rd_data (lr_Reader l) \<and> rd_end (lr_Reader l) = EOF)"
      using rd Some
      by (auto simp: lr_Read_def split: if_splits prod.splits option.splits dest: rd_Read_last)
    with res lr_Read_limit [OF rd] show ?thesis by (auto split: if_splits)
  qed
qed

text \<open>
  A reader that makes progress and ends with \<open>EOF\<close>: the body is returned when it fits, and
  refused with \<^verbatim>\<open>errTooMuchToRead\<close> when it does not.
\<close>

theorem read_all_exact:
  assumes "rd_busy (lr_Reader l)" "rd_end (lr_Reader l) = EOF"
  shows "read_all spare l acc =
    (if length (rd_data (lr_Reader l)) \<le> lr_Limit l then (acc @ rd_data (lr_Reader l), None)
     else (acc @ take (lr_Limit l) (rd_data (lr_Reader l)), Some ErrTooMuchToRead))"
  using assms
proof (induction spare l acc rule: read_all.induct)
  case (1 spare l acc)
  obtain bs e l' where rd: "lr_Read l (max 1 (spare (length acc))) = ((bs, e), l')"
    by (metis prod.exhaust)
  show ?case
  proof (cases e)
    case None
    then obtain r n where L: "lr_Limit l \<noteq> 0" and r: "rd_Read (lr_Reader l) n = ((bs, None), r)"
      and l': "l' = l\<lparr>lr_Reader := r, lr_Limit := lr_Limit l - length bs\<rparr>" and n: "0 < n"
      using rd by (auto simp: lr_Read_def split: if_splits prod.splits)
    have "length bs \<le> lr_Limit l" using lr_Read_limit [OF rd] by simp
    moreover have "read_all spare l acc = read_all spare l' (acc @ bs)"
      using rd None by (simp add: read_all.simps [of spare l acc])
    moreover have "rd_busy (lr_Reader l')" "rd_end (lr_Reader l') = EOF"
      using rd_Read_busy [OF r] rd_Read_data [OF r] 1(2,3) n l' by simp_all
    ultimately show ?thesis
      using 1(1) [OF rd [symmetric] refl None] rd_Read_data [OF r] l' by (auto simp: le_diff_conv2)
  next
    case (Some x)
    then have res: "read_all spare l acc = (acc @ bs, if x = EOF then None else Some x)"
      using rd by (simp add: read_all.simps [of spare l acc])
    show ?thesis
    proof (cases "lr_Limit l = 0")
      case True
      obtain cs err r where r: "rd_Read (lr_Reader l) 1 = ((cs, err), r)" by (metis prod.exhaust)
      show ?thesis
      proof (cases err)
        case None
        then have "cs \<noteq> []" using rd_Read_busy [of "lr_Reader l" 1 cs r] r 1(2) by simp
        with None rd r Some True res rd_Read_data [of "lr_Reader l" 1 cs r] show ?thesis
          by (auto simp: lr_Read_def)
      next
        case (Some y)
        with rd_Read_last [of "lr_Reader l" 1 cs y r] r 1(3) have "y = EOF" "rd_data (lr_Reader l) = cs"
          by simp_all
        with Some rd r \<open>e = Some x\<close> True res show ?thesis
          by (auto simp: lr_Read_def split: if_splits)
      qed
    next
      case False
      then obtain n r where r: "rd_Read (lr_Reader l) n = ((bs, Some x), r)"
        using rd Some by (auto simp: lr_Read_def split: if_splits prod.splits)
      with rd_Read_last [OF r] 1(3) lr_Read_limit [OF rd] res show ?thesis by simp
    qed
  qed
qed

text \<open>In particular the result depends neither on the chunks nor on the buffer sizes.\<close>

corollary io_ReadAll_limit:
  assumes "rd_busy r" "rd_end r = EOF"
  shows "io_ReadAll (newLimitReader r limit) =
    (if length (rd_data r) \<le> limit then (rd_data r, None)
     else (take limit (rd_data r), Some ErrTooMuchToRead))"
  using assms by (simp add: io_ReadAll_def newLimitReader_def read_all_exact)

corollary io_ReadAll_bytes [simp]:
  "io_ReadAll (newLimitReader (bytes_reader bs) limit) =
    (if length bs \<le> limit then (bs, None) else (take limit bs, Some ErrTooMuchToRead))"
  by (simp add: io_ReadAll_limit)

corollary io_ReadAll_ok:
  "io_ReadAll (newLimitReader r limit) = (out, None) \<Longrightarrow>
   out = rd_data r \<and> length out \<le> limit \<and> rd_end r = EOF"
  using read_all_sound [of read_all_spare "newLimitReader r limit" "[]" out None]
  by (auto simp: io_ReadAll_def newLimitReader_def)

corollary io_ReadAll_bound:
  "length (fst (io_ReadAll (newLimitReader r limit))) \<le> limit"
  using read_all_sound [of read_all_spare "newLimitReader r limit" "[]"
      "fst (io_ReadAll (newLimitReader r limit))" "snd (io_ReadAll (newLimitReader r limit))"]
  by (auto simp: io_ReadAll_def newLimitReader_def)

section \<open>Properties\<close>

text \<open>C16: Reading a body through the limit reader returns the whole body if it has at most \<open>limit\<close>
  bytes, and otherwise its first \<open>limit\<close> bytes with \<^verbatim>\<open>errTooMuchToRead\<close>, whatever chunks the body
  arrives in, as long as every read makes progress.\<close>

theorem limit_reader_exact:
  assumes "rd_busy r" "rd_end r = EOF"
  shows "io_ReadAll (newLimitReader r limit) =
    (if length (rd_data r) \<le> limit then (rd_data r, None)
     else (take limit (rd_data r), Some ErrTooMuchToRead))"
  using assms by (rule io_ReadAll_limit)

theorem limit_reader_exact_witness:
  "io_ReadAll (newLimitReader [Chunk [1, 2], Chunk [3], Final [4, 5] EOF] 4) =
     ([1, 2, 3, 4], Some ErrTooMuchToRead)
   \<and> io_ReadAll (newLimitReader [Chunk [1, 2], Chunk [3], Final [4, 5] EOF] 5) = ([1, 2, 3, 4, 5], None)"
  using limit_reader_exact [of "[Chunk [1, 2], Chunk [3], Final [4, 5] EOF]"] by simp

text \<open>C17: For any reader whatever, also one that stalls or fails half-way, reading through the limit
  never returns more than \<open>limit\<close> bytes, returns a prefix of the data, and reports success only
  when it is all of the data and the reader ended with \<^verbatim>\<open>EOF\<close>.\<close>

theorem limit_reader_sound:
  assumes "io_ReadAll (newLimitReader r limit) = (out, err)"
  shows "length out \<le> limit \<and> out = take (length out) (rd_data r)
    \<and> (err = None \<longrightarrow> out = rd_data r \<and> rd_end r = EOF)"
  using read_all_sound [of read_all_spare "newLimitReader r limit" "[]" out err] assms
  by (auto simp: io_ReadAll_def newLimitReader_def)

theorem limit_reader_sound_witness:
  "length [7 :: byte] \<le> 3 \<and> [7 :: byte] = take (length [7 :: byte]) (rd_data [Chunk [7], Final [] ErrHex])"
proof -
  have "io_ReadAll (newLimitReader [Chunk [7], Final [] ErrHex] 3) = ([7], Some ErrHex)"
    by code_simp
  from limit_reader_sound [OF this] show ?thesis by simp
qed

end
