(* ===== verification/Http.thy ===== *)
theory Http
  imports Readers Go_Text
begin

text \<open>
  What the handlers see of \<^verbatim>\<open>net/http\<close>: URLs, requests, and the \<^verbatim>\<open>ResponseWriter\<close>, of which only
  the first \<^verbatim>\<open>WriteHeader\<close> counts. The text of an error in a response body is kept as the error
  value itself (\<open>ErrLine\<close>), since the daemon's peers look at the status code only.
\<close>

section \<open>URLs and requests\<close>

record url =
  u_Scheme :: string
  u_Host :: string
  u_Path :: string
  u_RawQuery :: string

record request =
  rq_Method :: string
  rq_URL :: url
  rq_Body :: reader

abbreviation "StatusOK \<equiv> (200 :: nat)"
abbreviation "StatusBadRequest \<equiv> (400 :: nat)"
abbreviation "StatusForbidden \<equiv> (403 :: nat)"
abbreviation "StatusGone \<equiv> (410 :: nat)"
abbreviation "StatusTooManyRequests \<equiv> (429 :: nat)"
abbreviation "StatusInternalServerError \<equiv> (500 :: nat)"
abbreviation "StatusBadGateway \<equiv> (502 :: nat)"
abbreviation "StatusServiceUnavailable \<equiv> (503 :: nat)"

section \<open>The response writer\<close>

datatype piece = Raw bytes | ErrLine go_error

record response =
  rs_code :: "nat option"
  rs_header :: "string \<rightharpoonup> string"
  rs_body :: "piece list"

definition newResponse :: response where
  "newResponse = \<lparr>rs_code = None, rs_header = Map.empty, rs_body = []\<rparr>"

definition w_WriteHeader :: "nat \<Rightarrow> response \<Rightarrow> response" where
  "w_WriteHeader c w = (if rs_code w = None then w\<lparr>rs_code := Some c\<rparr> else w)"

text \<open>Header changes after the header was sent have no effect.\<close>

definition w_SetHeader :: "string \<Rightarrow> string \<Rightarrow> response \<Rightarrow> response" where
  "w_SetHeader k v w = (if rs_code w = None then w\<lparr>rs_header := (rs_header w)(k \<mapsto> v)\<rparr> else w)"

definition w_append :: "piece \<Rightarrow> response \<Rightarrow> response" where
  "w_append p w = (w_WriteHeader StatusOK w)\<lparr>rs_body := rs_body w @ [p]\<rparr>"

definition w_Write :: "bytes \<Rightarrow> response \<Rightarrow> response" where
  "w_Write bs w = w_append (Raw bs) w"

definition w_Fprintln :: "string \<Rightarrow> response \<Rightarrow> response" where
  "w_Fprintln s w = w_append (Raw (str_bytes s @ [0x0A])) w"

text \<open>\<^verbatim>\<open>http.Error(w, err.Error(), code)\<close>.\<close>

definition http_Error :: "go_error \<Rightarrow> nat \<Rightarrow> response \<Rightarrow> response" where
  "http_Error e c w =
     w_append (ErrLine e)
       (w_WriteHeader c
         (w_SetHeader ''X-Content-Type-Options'' ''nosniff''
           (w_SetHeader ''Content-Type'' ''text/plain; charset=utf-8'' w)))"

text \<open>The status that the client sees: a handler that writes nothing answers 200.\<close>

definition rs_status :: "response \<Rightarrow> nat" where
  "rs_status w = (case rs_code w of None \<Rightarrow> StatusOK | Some c \<Rightarrow> c)"

text \<open>The bytes on the wire; \<open>render\<close> renders an error value.\<close>

fun wire :: "(go_error \<Rightarrow> string) \<Rightarrow> piece list \<Rightarrow> bytes" where
  "wire render [] = []"
| "wire render (Raw bs # ps) = bs @ wire render ps"
| "wire render (ErrLine e # ps) = str_bytes (render e) @ [0x0A] @ wire render ps"

lemmas w_defs [go_defs] = w_WriteHeader_def w_SetHeader_def w_append_def w_Write_def
  w_Fprintln_def http_Error_def rs_status_def newResponse_def

section \<open>What a client receives\<close>

record http_resp =
  hr_StatusCode :: nat
  hr_Body :: reader

text \<open>
  The network may cut a body into chunks in any way, as long as all of it arrives in order.
\<close>

definition faithful_delivery :: "(bytes \<Rightarrow> reader) \<Rightarrow> bool" where
  "faithful_delivery deliver \<longleftrightarrow>
     (\<forall>bs. rd_data (deliver bs) = bs \<and> rd_busy (deliver bs) \<and> rd_end (deliver bs) = EOF)"

definition client_view :: "(go_error \<Rightarrow> string) \<Rightarrow> (bytes \<Rightarrow> reader) \<Rightarrow> response \<Rightarrow> http_resp" where
  "client_view render deliver w =
     \<lparr>hr_StatusCode = rs_status w, hr_Body = deliver (wire render (rs_body w))\<rparr>"

section \<open>Lemmas\<close>

lemma http_Error_code [simp]:
  "rs_code (http_Error e c w) = (if rs_code w = None then Some c else rs_code w)"
  by (simp add: go_defs)

lemma http_Error_status [simp]:
  "rs_status (http_Error e c w) = (if rs_code w = None then c else rs_status w)"
  by (simp add: go_defs)

lemma http_Error_body [simp]: "rs_body (http_Error e c w) = rs_body w @ [ErrLine e]"
  by (simp add: go_defs)

lemma Fprintln_simps [simp]:
  "rs_body (w_Fprintln s w) = rs_body w @ [Raw (str_bytes s @ [0x0A])]"
  "rs_status (w_Fprintln s w) = rs_status w"
  by (auto simp: go_defs split: option.splits)

lemma WriteHeader_simps [simp]:
  "rs_body (w_WriteHeader c w) = rs_body w"
  "rs_status (w_WriteHeader c w) = (if rs_code w = None then c else rs_status w)"
  by (auto simp: go_defs)

lemma Write_simps [simp]:
  "rs_body (w_Write bs w) = rs_body w @ [Raw bs]"
  "rs_status (w_Write bs w) = rs_status w"
  by (auto simp: go_defs split: option.splits)

lemma newResponse_simps [simp]:
  "rs_code newResponse = None" "rs_body newResponse = []" "rs_status newResponse = StatusOK"
  by (simp_all add: go_defs)

lemma wire_append [simp]: "wire render (ps @ qs) = wire render ps @ wire render qs"
  by (induction render ps rule: wire.induct) simp_all

lemma faithful_delivery_bytes_reader: "faithful_delivery bytes_reader"
  by (simp add: faithful_delivery_def)

lemma ReadAll_delivered:
  "faithful_delivery deliver \<Longrightarrow>
   io_ReadAll (newLimitReader (deliver bs) limit) =
     (if length bs \<le> limit then (bs, None) else (take limit bs, Some ErrTooMuchToRead))"
  by (simp add: faithful_delivery_def io_ReadAll_limit)

end
