(* ===== verification/Nonce.thy ===== *)
theory Nonce
  imports Http
begin

text \<open>
  Nonces (src/nonce.go) and their way through URLs (src/util.go): creation from the random source,
  the hexadecimal query parameter, and its extraction with every error the code distinguishes.
\<close>

section \<open>Definitions\<close>

definition nonceLen :: nat where
  "nonceLen = 20"

text \<open>\<^verbatim>\<open>type nonce [nonceLen]byte\<close>; values of the type have exactly that length.\<close>

type_synonym nonce = bytes

definition wf_nonce :: "nonce \<Rightarrow> bool" where
  "wf_nonce n = (length n = nonceLen)"

definition zero_nonce :: nonce where
  "zero_nonce = replicate nonceLen 0"

text \<open>
  The random source \<^verbatim>\<open>cryptoRead\<close>: asked for a number of bytes it fills a buffer with the bytes
  it delivers, whose number it returns, or reports an error.
\<close>

type_synonym rand = "nat \<Rightarrow> bytes \<times> go_error option"

definition newNonce :: "rand \<Rightarrow> nonce res" where
  "newNonce cryptoRead =
     (case cryptoRead nonceLen of
        (bs, err) \<Rightarrow>
          (case err of
             Some e \<Rightarrow> Inl e
           | None \<Rightarrow>
               (if length bs \<noteq> nonceLen then Inl ErrNotEnoughRead
                else Inr (go_copy zero_nonce bs))))"

definition nonce_b64 :: "nonce \<Rightarrow> string" where
  "nonce_b64 n = b64_EncodeToString n"

definition sliceToNonce :: "bytes \<Rightarrow> nonce res" where
  "sliceToNonce s =
     (if length s \<noteq> nonceLen then Inl ErrBadSliceLen
      else Inr (go_copy zero_nonce (take nonceLen s)))"

text \<open>
  The three handlers that call it are routed for GET requests only, for which
  \<^verbatim>\<open>Request.ParseForm\<close> parses just the query.
\<close>

definition getNonceFromReq :: "request \<Rightarrow> nonce res" where
  "getNonceFromReq r =
     (case url_ParseQuery (u_RawQuery (rq_URL r)) of
        (kvs, malformed) \<Rightarrow>
          (if malformed then Inl ErrBadForm
           else
             (let strNonce = values_Get kvs ''nonce'' in
              if strNonce = [] then Inl ErrNoNonce
              else
                (case hex_DecodeString (strings_ToLower strNonce) of
                   Inl e \<Rightarrow> Inl ErrBadNonceFormat
                 | Inr rawNonce \<Rightarrow> sliceToNonce rawNonce))))"

text \<open>The query that \<^verbatim>\<open>fmt.Sprintf("nonce=%x", nonce)\<close> makes.\<close>

definition nonce_query :: "nonce \<Rightarrow> string" where
  "nonce_query n = ''nonce='' @ hex_EncodeToString n"

section \<open>Lemmas\<close>

lemma length_zero_nonce [simp]: "length zero_nonce = nonceLen"
  by (simp add: zero_nonce_def)

lemma newNonce_Inr: "newNonce rand = Inr n \<longleftrightarrow> rand nonceLen = (n, None) \<and> wf_nonce n"
  by (auto simp: newNonce_def wf_nonce_def split: prod.splits option.splits)

lemma sliceToNonce_Inr [simp]: "sliceToNonce s = Inr n \<longleftrightarrow> n = s \<and> wf_nonce s"
  by (auto simp: sliceToNonce_def wf_nonce_def)

lemma sliceToNonce_wf [simp]: "wf_nonce s \<Longrightarrow> sliceToNonce s = Inr s"
  by simp

lemma sliceToNonce_Inl [simp]: "sliceToNonce s = Inl e \<longleftrightarrow> e = ErrBadSliceLen \<and> \<not> wf_nonce s"
  by (auto simp: sliceToNonce_def wf_nonce_def)

lemma nonce_b64_inject [simp]: "nonce_b64 n = nonce_b64 m \<longleftrightarrow> n = m"
  by (simp add: nonce_b64_def)

lemma getNonceFromReq_wf: "getNonceFromReq r = Inr n \<Longrightarrow> wf_nonce n"
  by (auto simp: getNonceFromReq_def Let_def split: prod.splits if_splits sum.splits)

text \<open>
  The four errors and nothing else; each one for its own kind of query.
\<close>

lemma getNonceFromReq_errors:
  "getNonceFromReq r = Inl e \<Longrightarrow> e \<in> {ErrBadForm, ErrNoNonce, ErrBadNonceFormat, ErrBadSliceLen}"
  by (auto simp: getNonceFromReq_def Let_def split: prod.splits if_splits sum.splits)

lemma hex_nonempty: "bs \<noteq> [] \<Longrightarrow> hex_EncodeToString bs \<noteq> []"
  by (cases bs) auto

text \<open>A nonce put into a query by one enclave is what the other one extracts.\<close>

lemma getNonceFromReq_query:
  assumes "wf_nonce n" "u_RawQuery (rq_URL r) = nonce_query n"
  shows "getNonceFromReq r = Inr n"
proof -
  have "n \<noteq> []" using assms(1) by (auto simp: wf_nonce_def nonceLen_def)
  then have "values_Get [(''nonce'', hex_EncodeToString n)] ''nonce'' = hex_EncodeToString n"
    "hex_EncodeToString n \<noteq> []"
    by (simp_all add: values_Get_def hex_nonempty)
  with assms(1) show ?thesis
    by (simp add: getNonceFromReq_def assms(2) nonce_query_def Let_def ToLower_hex hex_roundtrip
        ParseQuery_nonce [simplified])
qed

section \<open>Properties\<close>

text \<open>C32: A nonce that one enclave puts into the query of a URL is the nonce that the other one
  extracts from the request.\<close>

theorem nonce_travels:
  assumes "newNonce rnd = Inr n" "u_RawQuery (rq_URL r) = nonce_query n"
  shows "getNonceFromReq r = Inr n"
  using assms by (intro getNonceFromReq_query) (auto simp: newNonce_Inr)

theorem nonce_travels_witness:
  "getNonceFromReq
     \<lparr>rq_Method = ''GET'',
      rq_URL = \<lparr>u_Scheme = [], u_Host = [], u_Path = [], u_RawQuery = nonce_query (replicate 20 0xAB)\<rparr>,
      rq_Body = []\<rparr> = Inr (replicate 20 0xAB)"
  by (rule nonce_travels [where rnd = "\<lambda>k. (replicate k 0xAB, None)"])
    (simp_all add: newNonce_Inr wf_nonce_def nonceLen_def)

text \<open>\<^verbatim>\<open>getNonceFromReq\<close> either returns a nonce of exactly 20 bytes, or one of four errors: the
  query does not parse, the parameter is missing, it is not hexadecimal, or it has another length.\<close>

theorem nonce_extraction_total:
  "case getNonceFromReq r of
     Inr n \<Rightarrow> length n = 20
   | Inl e \<Rightarrow> e \<in> {ErrBadForm, ErrNoNonce, ErrBadNonceFormat, ErrBadSliceLen}"
  using getNonceFromReq_wf [of r] getNonceFromReq_errors [of r]
  by (auto simp: wf_nonce_def nonceLen_def split: sum.splits)

end
