(* ===== verification/Attestation.thy ===== *)
theory Attestation
  imports Nonce Go_Json Sha256
begin

text \<open>
  Attestation: the hashes embedded in attestation documents and the comparison of PCR values
  (src/attestation.go), and the two implementations of the \<^verbatim>\<open>attester\<close> interface, the AWS Nitro
  one and the dummy for local testing (src/attester.go). The interface is the locale
  \<open>attester\<close>: what an enclave put into its attestation document is what the verifier gets out,
  if and only if the nonce is the one it asked for. The Nitro security module and the \<^verbatim>\<open>nitrite\<close>
  package are not part of the repository; they are arguments here.
\<close>

section \<open>Hashes in attestation documents\<close>

definition hashPrefix :: bytes where
  "hashPrefix = [0x12, word_of_nat sha256_Size]"

record AttestationHashes =
  tlsKeyHash :: bytes
  appKeyHash :: bytes

definition newAttestationHashes :: AttestationHashes where
  "newAttestationHashes =
     \<lparr>tlsKeyHash = replicate sha256_Size 0, appKeyHash = replicate sha256_Size 0\<rparr>"

text \<open>Both fields are arrays of 32 bytes.\<close>

definition wf_hashes :: "AttestationHashes \<Rightarrow> bool" where
  "wf_hashes a = (length (tlsKeyHash a) = sha256_Size \<and> length (appKeyHash a) = sha256_Size)"

definition Serialize :: "AttestationHashes \<Rightarrow> bytes" where
  "Serialize a = ([] @ (hashPrefix @ tlsKeyHash a)) @ (hashPrefix @ appKeyHash a)"

section \<open>Platform configuration registers\<close>

text \<open>
  Go's \<^verbatim>\<open>map[uint][]byte\<close>, as the list of its entries in the order of iteration; the keys of a
  map are distinct.
\<close>

type_synonym pcrs = "(nat \<times> bytes) list"

definition wf_pcrs :: "pcrs \<Rightarrow> bool" where
  "wf_pcrs p = distinct (map fst p)"

fun pcrs_loop :: "pcrs \<Rightarrow> pcrs \<Rightarrow> bool" where
  "pcrs_loop [] theirPCRs = True"
| "pcrs_loop ((pcr, ourValue) # rest) theirPCRs =
     (if pcr = 4 then pcrs_loop rest theirPCRs
      else (case map_of theirPCRs pcr of
              None \<Rightarrow> False
            | Some theirValue \<Rightarrow>
                (if ourValue \<noteq> theirValue then False else pcrs_loop rest theirPCRs)))"

definition arePCRsIdentical :: "pcrs \<Rightarrow> pcrs \<Rightarrow> bool" where
  "arePCRsIdentical ourPCRs theirPCRs =
     (if length ourPCRs \<noteq> length theirPCRs then False else pcrs_loop ourPCRs theirPCRs)"

section \<open>Auxiliary information\<close>

record clientAuxInfo =
  ca_clientNonce :: nonce
  ca_attestationHashes :: bytes

record workerAuxInfo =
  wa_WorkersNonce :: nonce
  wa_LeadersNonce :: nonce
  wa_PublicKey :: slice

record leaderAuxInfo =
  la_WorkersNonce :: nonce
  la_HashOfEncrypted :: slice

text \<open>The values that are passed as \<^verbatim>\<open>auxInfo\<close>, with the \<^verbatim>\<open>nil\<close> of \<^verbatim>\<open>_getPCRValues\<close>.\<close>

datatype auxInfo =
    ClientAux clientAuxInfo
  | WorkerAux workerAuxInfo
  | LeaderAux leaderAuxInfo
  | NilAux

definition padding :: bytes where
  "padding = str_bytes ''dummy''"

section \<open>The dummy attester\<close>

definition zeroWorkerAux :: workerAuxInfo where
  "zeroWorkerAux = \<lparr>wa_WorkersNonce = zero_nonce, wa_LeadersNonce = zero_nonce, wa_PublicKey = None\<rparr>"

definition zeroLeaderAux :: leaderAuxInfo where
  "zeroLeaderAux = \<lparr>la_WorkersNonce = zero_nonce, la_HashOfEncrypted = None\<rparr>"

definition workerAux_json :: "workerAuxInfo \<Rightarrow> json" where
  "workerAux_json w =
     JObj [(''workers_nonce'', array_json (wa_WorkersNonce w)),
           (''leaders_nonce'', array_json (wa_LeadersNonce w)),
           (''public_key'', slice_json (wa_PublicKey w))]"

definition leaderAux_json :: "leaderAuxInfo \<Rightarrow> json" where
  "leaderAux_json l =
     JObj [(''workers_nonce'', array_json (la_WorkersNonce l)),
           (''hash_of_encrypted'', slice_json (la_HashOfEncrypted l))]"

text \<open>The fields of \<^verbatim>\<open>clientAuxInfo\<close> are not exported, so its JSON is the empty object.\<close>

definition aux_json :: "auxInfo \<Rightarrow> json" where
  "aux_json aux =
     (case aux of
        ClientAux c \<Rightarrow> JObj []
      | WorkerAux w \<Rightarrow> workerAux_json w
      | LeaderAux l \<Rightarrow> leaderAux_json l
      | NilAux \<Rightarrow> JNull)"

definition workerAux_field :: "string \<Rightarrow> json \<Rightarrow> workerAuxInfo decoding \<Rightarrow> workerAuxInfo decoding" where
  "workerAux_field k v st =
     (if same_field ''workers_nonce'' k then
        store_in wa_WorkersNonce (\<lambda>f x. x\<lparr>wa_WorkersNonce := f\<rparr>) (store_array nonceLen) v st
      else if same_field ''leaders_nonce'' k then
        store_in wa_LeadersNonce (\<lambda>f x. x\<lparr>wa_LeadersNonce := f\<rparr>) (store_array nonceLen) v st
      else if same_field ''public_key'' k then
        store_in wa_PublicKey (\<lambda>f x. x\<lparr>wa_PublicKey := f\<rparr>) store_slice v st
      else st)"

definition leaderAux_field :: "string \<Rightarrow> json \<Rightarrow> leaderAuxInfo decoding \<Rightarrow> leaderAuxInfo decoding" where
  "leaderAux_field k v st =
     (if same_field ''workers_nonce'' k then
        store_in la_WorkersNonce (\<lambda>f x. x\<lparr>la_WorkersNonce := f\<rparr>) (store_array nonceLen) v st
      else if same_field ''hash_of_encrypted'' k then
        store_in la_HashOfEncrypted (\<lambda>f x. x\<lparr>la_HashOfEncrypted := f\<rparr>) store_slice v st
      else st)"

definition dummy_createAttstn :: "auxInfo \<Rightarrow> bytes res" where
  "dummy_createAttstn aux = Inr (json_Marshal (aux_json aux))"

definition dummy_verifyAttstn :: "bytes \<Rightarrow> nonce \<Rightarrow> auxInfo res" where
  "dummy_verifyAttstn doc n =
     (case json_Unmarshal workerAux_field doc zeroWorkerAux of
        (w, Some e) \<Rightarrow> Inl e
      | (w, None) \<Rightarrow>
          (if wa_PublicKey w \<noteq> None then
             (if nonce_b64 n \<noteq> nonce_b64 (wa_LeadersNonce w) then Inl ErrNonceMismatch
              else Inr (WorkerAux w))
           else
             (case json_Unmarshal leaderAux_field doc zeroLeaderAux of
                (l, Some e) \<Rightarrow> Inl e
              | (l, None) \<Rightarrow>
                  (if la_HashOfEncrypted l \<noteq> None then
                     (if nonce_b64 n \<noteq> nonce_b64 (la_WorkersNonce l) then Inl ErrNonceMismatch
                      else Inr (LeaderAux l))
                   else Inl (ErrNew ''invalid auxiliary information'')))))"

section \<open>The Nitro attester\<close>

text \<open>
  The Nitro security module: opening a session may fail, and a request is answered by an optional
  attestation whose document is a slice.
\<close>

record attRequest =
  ar_Nonce :: slice
  ar_UserData :: slice
  ar_PublicKey :: slice

record nsm =
  nsm_OpenDefaultSession :: "go_error option"
  nsm_Send :: "attRequest \<Rightarrow> slice option res"

record document =
  doc_PCRs :: pcrs
  doc_Nonce :: slice
  doc_UserData :: slice
  doc_PublicKey :: slice

text \<open>\<^verbatim>\<open>nitrite.Verify\<close>: the current time, if given, and the document.\<close>

type_synonym nitrite = "nat option \<Rightarrow> bytes \<Rightarrow> document res"

definition attestation_request :: "auxInfo \<Rightarrow> attRequest" where
  "attestation_request aux =
     (case aux of
        WorkerAux v \<Rightarrow>
          \<lparr>ar_Nonce = Some (wa_LeadersNonce v), ar_UserData = Some (wa_WorkersNonce v),
           ar_PublicKey = wa_PublicKey v\<rparr>
      | LeaderAux v \<Rightarrow>
          \<lparr>ar_Nonce = Some (la_WorkersNonce v), ar_UserData = la_HashOfEncrypted v,
           ar_PublicKey = Some padding\<rparr>
      | ClientAux v \<Rightarrow>
          \<lparr>ar_Nonce = Some (ca_clientNonce v), ar_UserData = Some (ca_attestationHashes v),
           ar_PublicKey = Some padding\<rparr>
      | NilAux \<Rightarrow> \<lparr>ar_Nonce = None, ar_UserData = None, ar_PublicKey = None\<rparr>)"

definition nitro_createAttstn :: "nsm \<Rightarrow> auxInfo \<Rightarrow> bytes res" where
  "nitro_createAttstn s aux =
     (case nsm_OpenDefaultSession s of
        Some e \<Rightarrow> Inl e
      | None \<Rightarrow>
          (case nsm_Send s (attestation_request aux) of
             Inl e \<Rightarrow> Inl e
           | Inr att \<Rightarrow>
               (case att of
                  None \<Rightarrow> Inl ErrNoAttstnFromNSM
                | Some None \<Rightarrow> Inl ErrNoAttstnFromNSM
                | Some (Some document) \<Rightarrow> Inr document)))"

definition getPCRValues :: "nsm \<Rightarrow> nitrite \<Rightarrow> pcrs res" where
  "getPCRValues s verify =
     (case nitro_createAttstn s NilAux of
        Inl e \<Rightarrow> Inl e
      | Inr rawAttDoc \<Rightarrow>
          (case verify None rawAttDoc of
             Inl e \<Rightarrow> Inl e
           | Inr doc \<Rightarrow> Inr (doc_PCRs doc)))"

definition nitro_verifyAttstn :: "nsm \<Rightarrow> nitrite \<Rightarrow> nat \<Rightarrow> bytes \<Rightarrow> nonce \<Rightarrow> auxInfo res" where
  "nitro_verifyAttstn s verify currentTime doc ourNonce =
     (case verify (Some currentTime) doc of
        Inl e \<Rightarrow> Inl e
      | Inr their \<Rightarrow>
          (case getPCRValues s verify of
             Inl e \<Rightarrow> Inl e
           | Inr ourPCRs \<Rightarrow>
               (if \<not> arePCRsIdentical ourPCRs (doc_PCRs their) then Inl ErrPCRMismatch
                else
                  (case sliceToNonce (slice_bytes (doc_Nonce their)) of
                     Inl e \<Rightarrow> Inl e
                   | Inr theirNonce \<Rightarrow>
                       (if ourNonce \<noteq> theirNonce then Inl ErrNonceMismatch
                        else if slice_bytes (doc_PublicKey their) = padding then
                          Inr (LeaderAux \<lparr>la_WorkersNonce = theirNonce,
                                          la_HashOfEncrypted = doc_UserData their\<rparr>)
                        else
                          (case sliceToNonce (slice_bytes (doc_UserData their)) of
                             Inl e \<Rightarrow> Inl e
                           | Inr workersNonce \<Rightarrow>
                               Inr (WorkerAux \<lparr>wa_WorkersNonce = workersNonce,
                                               wa_LeadersNonce = theirNonce,
                                               wa_PublicKey = doc_PublicKey their\<rparr>)))))))"

section \<open>The interface\<close>

text \<open>
  The auxiliary information that the key synchronization protocol uses: nonces of the right
  length, and the public key or the hash present. A worker's public key has 32 bytes, so it is
  not the padding that marks a leader.
\<close>

definition wf_worker :: "workerAuxInfo \<Rightarrow> bool" where
  "wf_worker w =
     (wf_nonce (wa_WorkersNonce w) \<and> wf_nonce (wa_LeadersNonce w)
      \<and> (\<exists>pk. wa_PublicKey w = Some pk \<and> length pk = 32))"

definition wf_leader :: "leaderAuxInfo \<Rightarrow> bool" where
  "wf_leader l = (wf_nonce (la_WorkersNonce l) \<and> (\<exists>h. la_HashOfEncrypted l = Some h \<and> length h = 32))"

locale attester =
  fixes createAttstn :: "auxInfo \<Rightarrow> bytes res"
    and verifyAttstn :: "bytes \<Rightarrow> nonce \<Rightarrow> auxInfo res"
  assumes verify_worker: "createAttstn (WorkerAux w) = Inr doc \<Longrightarrow> wf_worker w \<Longrightarrow> wf_nonce n \<Longrightarrow>
      verifyAttstn doc n = (if n = wa_LeadersNonce w then Inr (WorkerAux w) else Inl ErrNonceMismatch)"
    and verify_leader: "createAttstn (LeaderAux l) = Inr doc \<Longrightarrow> wf_leader l \<Longrightarrow> wf_nonce n \<Longrightarrow>
      verifyAttstn doc n = (if n = la_WorkersNonce l then Inr (LeaderAux l) else Inl ErrNonceMismatch)"
begin

text \<open>A document proves freshness: it verifies for one nonce only.\<close>

lemma worker_nonce_unique:
  assumes "createAttstn (WorkerAux w) = Inr doc" "wf_worker w" "wf_nonce n"
    and "verifyAttstn doc n = Inr aux"
  shows "n = wa_LeadersNonce w \<and> aux = WorkerAux w"
  using verify_worker [OF assms(1-3)] assms(4) by (simp split: if_splits)

lemma leader_nonce_unique:
  assumes "createAttstn (LeaderAux l) = Inr doc" "wf_leader l" "wf_nonce n"
    and "verifyAttstn doc n = Inr aux"
  shows "n = la_WorkersNonce l \<and> aux = LeaderAux l"
  using verify_leader [OF assms(1-3)] assms(4) by (simp split: if_splits)

text \<open>A worker's document is never taken for a leader's.\<close>

lemma roles_distinct:
  assumes "createAttstn (WorkerAux w) = Inr doc" "createAttstn (LeaderAux l) = Inr doc"
    and "wf_worker w" "wf_leader l"
  shows False
proof -
  have n: "wf_nonce (wa_LeadersNonce w)" using assms(3) by (simp add: wf_worker_def)
  from verify_worker [OF assms(1,3) n] verify_leader [OF assms(2,4) n] show False
    by (simp split: if_splits)
qed

end

section \<open>Lemmas: hashes\<close>

lemma length_hashPrefix [simp]: "length hashPrefix = 2"
  by (simp add: hashPrefix_def)

lemma wf_newAttestationHashes: "wf_hashes newAttestationHashes"
  by (simp add: wf_hashes_def newAttestationHashes_def)

lemma length_Serialize: "wf_hashes a \<Longrightarrow> length (Serialize a) = 68"
  by (simp add: Serialize_def wf_hashes_def sha256_Size_def)

lemma Serialize_layout:
  assumes "wf_hashes a"
  shows "take 2 (Serialize a) = hashPrefix" "take 32 (drop 2 (Serialize a)) = tlsKeyHash a"
    "take 2 (drop 34 (Serialize a)) = hashPrefix" "drop 36 (Serialize a) = appKeyHash a"
  using assms by (simp_all add: Serialize_def wf_hashes_def sha256_Size_def)

lemma Serialize_inject:
  assumes "wf_hashes a" "wf_hashes b" "Serialize a = Serialize b"
  shows "tlsKeyHash a = tlsKeyHash b \<and> appKeyHash a = appKeyHash b"
  using Serialize_layout [OF assms(1)] Serialize_layout [OF assms(2)] assms(3) by metis

section \<open>Lemmas: PCR values\<close>

lemma pcrs_loop_iff:
  "pcrs_loop ours theirs \<longleftrightarrow> (\<forall>(p, v)\<in>set ours. p \<noteq> 4 \<longrightarrow> map_of theirs p = Some v)"
  by (induction ours theirs rule: pcrs_loop.induct) (auto split: option.splits)

lemma arePCRsIdentical_refl: "wf_pcrs p \<Longrightarrow> arePCRsIdentical p p"
  by (auto simp: arePCRsIdentical_def pcrs_loop_iff wf_pcrs_def)

text \<open>
  If both sides have the register that is exempt from the comparison, or neither has, the test is
  exactly that all other registers agree.
\<close>

lemma arePCRsIdentical_agree:
  assumes "wf_pcrs ours" "wf_pcrs theirs" "(4 \<in> dom (map_of ours)) = (4 \<in> dom (map_of theirs))"
  shows "arePCRsIdentical ours theirs \<longleftrightarrow> (\<forall>p. p \<noteq> 4 \<longrightarrow> map_of ours p = map_of theirs p)"
proof -
  have card: "length m = card (dom (map_of m))" if "wf_pcrs m" for m :: pcrs
    using that unfolding wf_pcrs_def by (metis distinct_card dom_map_of_conv_image_fst length_map list.set_map)
  have mem: "map_of ours p = Some v \<longleftrightarrow> (p, v) \<in> set ours" for p v
    using assms(1) by (simp add: wf_pcrs_def)
  show ?thesis
  proof
    assume ident: "arePCRsIdentical ours theirs"
    then have len: "card (dom (map_of ours)) = card (dom (map_of theirs))"
      and sub: "\<forall>p v. p \<noteq> 4 \<longrightarrow> map_of ours p = Some v \<longrightarrow> map_of theirs p = Some v"
      using card assms(1,2) mem by (auto simp: arePCRsIdentical_def pcrs_loop_iff split: if_splits)
    have "dom (map_of ours) \<subseteq> dom (map_of theirs)"
    proof
      fix p assume "p \<in> dom (map_of ours)"
      with sub assms(3) show "p \<in> dom (map_of theirs)" by (cases "p = 4") auto
    qed
    then have dom: "dom (map_of ours) = dom (map_of theirs)"
      using len by (simp add: card_subset_eq finite_dom_map_of)
    show "\<forall>p. p \<noteq> 4 \<longrightarrow> map_of ours p = map_of theirs p"
      using sub dom by (metis domIff option.exhaust)
  next
    assume eq: "\<forall>p. p \<noteq> 4 \<longrightarrow> map_of ours p = map_of theirs p"
    then have "dom (map_of ours) = dom (map_of theirs)"
      using assms(3) by (auto simp: dom_def) (metis option.distinct(1) option.exhaust)+
    then have "length ours = length theirs" using card assms(1,2) by metis
    moreover have "map_of theirs p = Some v" if "(p, v) \<in> set ours" "p \<noteq> 4" for p v
      using eq mem that by metis
    ultimately show "arePCRsIdentical ours theirs"
      by (auto simp: arePCRsIdentical_def pcrs_loop_iff)
  qed
qed

section \<open>Lemmas: the dummy attester implements the interface\<close>

lemma padding_length: "length padding = 5"
  by (simp add: padding_def)

lemma nonce_array_depth [simp]: "json_depth (array_json bs) \<le> 9999"
  using json_ok_array(2) [of bs] by simp

lemma json_ok_aux: "json_ok (workerAux_json w)" "json_depth (workerAux_json w) \<le> maxNestingDepth"
  "json_ok (leaderAux_json l)" "json_depth (leaderAux_json l) \<le> maxNestingDepth"
  by (simp_all add: workerAux_json_def leaderAux_json_def json_ok_slice json_ok_array ascii_def
      maxNestingDepth_def)

lemmas Unmarshal_aux =
  json_Unmarshal_Marshal [OF json_ok_aux(1,2) [unfolded workerAux_json_def], folded workerAux_json_def]
  json_Unmarshal_Marshal [OF json_ok_aux(3,4) [unfolded leaderAux_json_def], folded leaderAux_json_def]

lemmas aux_field_simps = workerAux_field_def leaderAux_field_def same_field_def store_in_def
  store_slice_roundtrip store_array_roundtrip zeroWorkerAux_def zeroLeaderAux_def

lemma Unmarshal_worker_worker:
  assumes "wf_nonce (wa_WorkersNonce w)" "wf_nonce (wa_LeadersNonce w)"
  shows "json_Unmarshal workerAux_field (json_Marshal (workerAux_json w)) zeroWorkerAux = (w, None)"
  using assms by (simp add: Unmarshal_aux aux_field_simps wf_nonce_def)

text \<open>A leader's document read as a worker's has no public key.\<close>

lemma Unmarshal_worker_leader:
  assumes "wf_nonce (la_WorkersNonce l)"
  shows "\<exists>w. json_Unmarshal workerAux_field (json_Marshal (leaderAux_json l)) zeroWorkerAux = (w, None)
    \<and> wa_PublicKey w = None"
  using assms by (simp add: Unmarshal_aux aux_field_simps wf_nonce_def)

lemma Unmarshal_leader_leader:
  assumes "wf_nonce (la_WorkersNonce l)"
  shows "json_Unmarshal leaderAux_field (json_Marshal (leaderAux_json l)) zeroLeaderAux = (l, None)"
  using assms by (simp add: Unmarshal_aux aux_field_simps wf_nonce_def)

interpretation dummy: attester dummy_createAttstn dummy_verifyAttstn
proof
  fix w doc n
  assume doc: "dummy_createAttstn (WorkerAux w) = Inr doc" and wf: "wf_worker w"
  then have "doc = json_Marshal (workerAux_json w)" "wa_PublicKey w \<noteq> None"
    by (auto simp: dummy_createAttstn_def aux_json_def wf_worker_def)
  with wf show "dummy_verifyAttstn doc n =
      (if n = wa_LeadersNonce w then Inr (WorkerAux w) else Inl ErrNonceMismatch)"
    by (simp add: dummy_verifyAttstn_def Unmarshal_worker_worker wf_worker_def)
next
  fix l doc n
  assume doc: "dummy_createAttstn (LeaderAux l) = Inr doc" and wf: "wf_leader l"
  then have d: "doc = json_Marshal (leaderAux_json l)" "la_HashOfEncrypted l \<noteq> None"
    and n: "wf_nonce (la_WorkersNonce l)"
    by (auto simp: dummy_createAttstn_def aux_json_def wf_leader_def)
  from Unmarshal_worker_leader [OF n] obtain w where
    "json_Unmarshal workerAux_field doc zeroWorkerAux = (w, None)" "wa_PublicKey w = None"
    using d by auto
  with d Unmarshal_leader_leader [OF n] show "dummy_verifyAttstn doc n =
      (if n = la_WorkersNonce l then Inr (LeaderAux l) else Inl ErrNonceMismatch)"
    by (simp add: dummy_verifyAttstn_def)
qed

section \<open>Lemmas: the Nitro attester implements the interface\<close>

text \<open>
  The documented behaviour of the security module and of \<^verbatim>\<open>nitrite.Verify\<close>: a document that the
  module of an enclave issued verifies while it is valid, and its contents are the request's fields
  and the registers of that enclave. The times at which it is valid include the moment of its creation,
  when \<^verbatim>\<open>_getPCRValues\<close> verifies it without giving a time, and the time \<open>t\<close> at which a peer verifies it;
  nothing is assumed about any other time.
\<close>

definition issues :: "nat \<Rightarrow> nsm \<Rightarrow> nitrite \<Rightarrow> pcrs \<Rightarrow> bool" where
  "issues t s verify regs \<longleftrightarrow>
     (\<forall>req doc. nsm_Send s req = Inr (Some (Some doc)) \<longrightarrow>
        (\<forall>now\<in>{None, Some t}. verify now doc =
           Inr \<lparr>doc_PCRs = regs, doc_Nonce = ar_Nonce req,
                doc_UserData = ar_UserData req, doc_PublicKey = ar_PublicKey req\<rparr>))"

text \<open>
  An enclave that can attest at all: every request whose fields are within the module's documented
  limits is answered.
\<close>

definition within_limits :: "attRequest \<Rightarrow> bool" where
  "within_limits req \<longleftrightarrow>
     length (slice_bytes (ar_Nonce req)) \<le> 512 \<and> length (slice_bytes (ar_UserData req)) \<le> 512
     \<and> length (slice_bytes (ar_PublicKey req)) \<le> 1024"

definition attests :: "nsm \<Rightarrow> bool" where
  "attests s \<longleftrightarrow>
     (\<forall>aux. within_limits (attestation_request aux) \<longrightarrow> (\<exists>doc. nitro_createAttstn s aux = Inr doc))"

lemma within_limits_nil: "within_limits (attestation_request NilAux)"
  by (simp add: within_limits_def attestation_request_def slice_bytes_def)

lemma nitro_create_Inr:
  "nitro_createAttstn s aux = Inr doc \<Longrightarrow> nsm_Send s (attestation_request aux) = Inr (Some (Some doc))"
  by (auto simp: nitro_createAttstn_def split: option.splits sum.splits)

lemma issued_verifies:
  "issues t s verify regs \<Longrightarrow> nitro_createAttstn s aux = Inr doc \<Longrightarrow> now \<in> {None, Some t} \<Longrightarrow>
   verify now doc = Inr \<lparr>doc_PCRs = regs, doc_Nonce = ar_Nonce (attestation_request aux),
     doc_UserData = ar_UserData (attestation_request aux), doc_PublicKey = ar_PublicKey (attestation_request aux)\<rparr>"
  unfolding issues_def by (blast dest: nitro_create_Inr)

lemma getPCRValues_issues:
  assumes "issues t s verify regs" "attests s"
  shows "getPCRValues s verify = Inr regs"
proof -
  obtain doc where "nitro_createAttstn s NilAux = Inr doc"
    using assms(2) within_limits_nil unfolding attests_def by blast
  with issued_verifies [OF assms(1) this, of None] show ?thesis by (simp add: getPCRValues_def)
qed

text \<open>What the verifier concludes from a document issued for given auxiliary information.\<close>

lemma nitro_verify_issued:
  assumes "issues t0 our verify ourRegs" "attests our" "issues t their verify theirRegs"
    and "nitro_createAttstn their aux = Inr doc" "aux \<noteq> NilAux"
  shows "nitro_verifyAttstn our verify t doc n =
    (if \<not> arePCRsIdentical ourRegs theirRegs then Inl ErrPCRMismatch
     else (let req = attestation_request aux in
       if \<not> wf_nonce (slice_bytes (ar_Nonce req)) then Inl ErrBadSliceLen
       else if n \<noteq> slice_bytes (ar_Nonce req) then Inl ErrNonceMismatch
       else if slice_bytes (ar_PublicKey req) = padding then
         Inr (LeaderAux \<lparr>la_WorkersNonce = n, la_HashOfEncrypted = ar_UserData req\<rparr>)
       else if \<not> wf_nonce (slice_bytes (ar_UserData req)) then Inl ErrBadSliceLen
       else Inr (WorkerAux \<lparr>wa_WorkersNonce = slice_bytes (ar_UserData req), wa_LeadersNonce = n,
              wa_PublicKey = ar_PublicKey req\<rparr>)))"
proof -
  have "verify (Some t) doc = Inr \<lparr>doc_PCRs = theirRegs, doc_Nonce = ar_Nonce (attestation_request aux),
      doc_UserData = ar_UserData (attestation_request aux),
      doc_PublicKey = ar_PublicKey (attestation_request aux)\<rparr>"
    by (rule issued_verifies [OF assms(3,4)]) simp
  then show ?thesis
    using getPCRValues_issues [OF assms(1,2)]
    by (auto simp: nitro_verifyAttstn_def Let_def sliceToNonce_def wf_nonce_def)
qed

lemma slice_bytes_Some [simp]: "slice_bytes (Some bs) = bs"
  by (simp add: slice_bytes_def)

lemma nitro_attester:
  assumes "issues t0 our verify ourRegs" "attests our" "issues t their verify theirRegs"
    and "arePCRsIdentical ourRegs theirRegs"
  shows "attester (nitro_createAttstn their) (nitro_verifyAttstn our verify t)"
proof
  fix w doc n
  assume "nitro_createAttstn their (WorkerAux w) = Inr doc" and wf: "wf_worker w"
  from nitro_verify_issued [OF assms(1-3) this(1)] wf show "nitro_verifyAttstn our verify t doc n =
      (if n = wa_LeadersNonce w then Inr (WorkerAux w) else Inl ErrNonceMismatch)"
    using assms(4) padding_length
    by (auto simp: attestation_request_def wf_worker_def Let_def)
next
  fix l doc n
  assume "nitro_createAttstn their (LeaderAux l) = Inr doc" and wf: "wf_leader l"
  from nitro_verify_issued [OF assms(1-3) this(1)] wf show "nitro_verifyAttstn our verify t doc n =
      (if n = la_WorkersNonce l then Inr (LeaderAux l) else Inl ErrNonceMismatch)"
    using assms(4) by (auto simp: attestation_request_def wf_leader_def Let_def)
qed

section \<open>Properties\<close>

text \<open>The serialized hashes have 68 bytes, in the layout of two multihashes: prefix and TLS
  certificate hash, prefix and application hash. Different hashes give different serializations.\<close>

theorem serialized_hashes:
  assumes "wf_hashes a" "wf_hashes b"
  shows "Serialize a = hashPrefix @ tlsKeyHash a @ hashPrefix @ appKeyHash a
    \<and> length (Serialize a) = 68 \<and> (Serialize a = Serialize b \<longleftrightarrow> a = b)"
  using assms length_Serialize Serialize_inject [OF assms] by (auto simp: Serialize_def)

theorem serialized_hashes_witness:
  "length (Serialize newAttestationHashes) = 68"
  using serialized_hashes [OF wf_newAttestationHashes wf_newAttestationHashes] by blast

text \<open>C30: If both sides report register 4, or neither does, the comparison of PCR values succeeds
  exactly when all registers but that one agree.\<close>

theorem pcr_comparison_exact:
  assumes "wf_pcrs ours" "wf_pcrs theirs"
    and "(4 \<in> dom (map_of ours)) = (4 \<in> dom (map_of theirs))"
  shows "arePCRsIdentical ours theirs \<longleftrightarrow> (\<forall>p. p \<noteq> 4 \<longrightarrow> map_of ours p = map_of theirs p)"
  using assms by (rule arePCRsIdentical_agree)

theorem pcr_comparison_exact_witness:
  "\<not> arePCRsIdentical [(0, [1]), (4, [2])] [(4, [3]), (0, [9])]
   \<and> arePCRsIdentical [(0, [1]), (4, [2])] [(4, [3]), (0, [1])]"
proof
  show "\<not> arePCRsIdentical [(0, [1]), (4, [2])] [(4, [3]), (0, [9])]"
    by (subst pcr_comparison_exact) (auto simp: wf_pcrs_def intro: exI [where x = 0])
  show "arePCRsIdentical [(0, [1]), (4, [2])] [(4, [3]), (0, [1])]"
    by (subst pcr_comparison_exact) (auto simp: wf_pcrs_def)
qed

text \<open>Without that condition the comparison accepts register sets that differ: the peer may have
  an additional register where the enclave has register 4.\<close>

theorem pcr_comparison_too_weak:
  "\<exists>ours theirs. wf_pcrs ours \<and> wf_pcrs theirs \<and> arePCRsIdentical ours theirs
     \<and> map_of theirs 8 \<noteq> map_of ours 8"
  by (rule exI [where x = "[(0, [1]), (4, [2])]"], rule exI [where x = "[(0, [1]), (8, [3])]"])
    (simp add: wf_pcrs_def arePCRsIdentical_def)

text \<open>C29: The dummy attester keeps the contract of the interface: a worker's document verifies for the
  leader's nonce in it, gives back the worker's information, and is rejected with a nonce mismatch
  for every other nonce; likewise a leader's document and the worker's nonce.\<close>

theorem dummy_attester_sound:
  assumes "wf_worker w" "wf_leader l" "wf_nonce n"
  shows "(\<exists>doc. dummy_createAttstn (WorkerAux w) = Inr doc \<and> dummy_verifyAttstn doc n =
      (if n = wa_LeadersNonce w then Inr (WorkerAux w) else Inl ErrNonceMismatch))
    \<and> (\<exists>doc. dummy_createAttstn (LeaderAux l) = Inr doc \<and> dummy_verifyAttstn doc n =
      (if n = la_WorkersNonce l then Inr (LeaderAux l) else Inl ErrNonceMismatch))"
proof -
  have "dummy_createAttstn aux = Inr (json_Marshal (aux_json aux))" for aux
    by (simp add: dummy_createAttstn_def)
  then show ?thesis
    using dummy.verify_worker [OF _ assms(1,3)] dummy.verify_leader [OF _ assms(2,3)] by blast
qed

theorem dummy_attester_sound_witness:
  "\<exists>doc. dummy_createAttstn (LeaderAux \<lparr>la_WorkersNonce = zero_nonce,
      la_HashOfEncrypted = Some (replicate 32 7)\<rparr>) = Inr doc
    \<and> dummy_verifyAttstn doc (replicate 20 1) = Inl ErrNonceMismatch"
  using dummy_attester_sound [of "\<lparr>wa_WorkersNonce = zero_nonce, wa_LeadersNonce = zero_nonce,
      wa_PublicKey = Some (replicate 32 0)\<rparr>" "\<lparr>la_WorkersNonce = zero_nonce,
      la_HashOfEncrypted = Some (replicate 32 7)\<rparr>" "replicate 20 1"]
  by (simp add: wf_worker_def wf_leader_def wf_nonce_def nonceLen_def zero_nonce_def)

end
