(* ===== verification/Sync.thy ===== *)
theory Sync
  imports Keys Attestation
begin

text \<open>
  Key synchronization between a leader and a worker enclave (src/sync_shared.go,
  src/sync_leader.go, src/sync_worker.go). The worker serves two requests, \<^verbatim>\<open>initSync\<close> and
  \<^verbatim>\<open>finishSync\<close>, and keeps between them a nonce and an ephemeral key in channels with a buffer
  of one; the leader's \<^verbatim>\<open>syncWith\<close> makes both requests. NaCl's box, the attester, the random
  source and the network are arguments.
\<close>

section \<open>Shared definitions\<close>

definition maxAttstnBodyLen :: nat where
  "maxAttstnBodyLen = 2 ^ 14"

definition boxKeyLen :: nat where
  "boxKeyLen = 32"

record attstnBody =
  ab_Document :: string
  ab_EncryptedKeys :: string

record boxKey =
  bk_pubKey :: bytes
  bk_privKey :: bytes

text \<open>The functions of \<^verbatim>\<open>golang.org/x/crypto/nacl/box\<close>.\<close>

record nacl =
  box_SealAnonymous :: "bytes \<Rightarrow> bytes \<Rightarrow> bytes res"
  box_OpenAnonymous :: "bytes \<Rightarrow> bytes \<Rightarrow> bytes \<Rightarrow> bytes option"

text \<open>\<^verbatim>\<open>newBoxKey\<close> hands on what \<^verbatim>\<open>box.GenerateKey\<close> returns.\<close>

definition newBoxKey :: "(bytes \<times> bytes) res \<Rightarrow> boxKey res" where
  "newBoxKey generated =
     (case generated of
        Inl e \<Rightarrow> Inl e
      | Inr (pub, priv) \<Rightarrow> Inr \<lparr>bk_pubKey = pub, bk_privKey = priv\<rparr>)"

definition attstnBody_json :: "attstnBody \<Rightarrow> json" where
  "attstnBody_json b =
     JObj [(''document'', JStr (ab_Document b)), (''encrypted_keys'', JStr (ab_EncryptedKeys b))]"

definition attstnBody_Marshal :: "attstnBody \<Rightarrow> bytes" where
  "attstnBody_Marshal b = json_Marshal (attstnBody_json b)"

definition attstnBody_field :: "string \<Rightarrow> json \<Rightarrow> attstnBody decoding \<Rightarrow> attstnBody decoding" where
  "attstnBody_field k v st =
     (if same_field ''document'' k then
        store_in ab_Document (\<lambda>f x. x\<lparr>ab_Document := f\<rparr>) store_string v st
      else if same_field ''encrypted_keys'' k then
        store_in ab_EncryptedKeys (\<lambda>f x. x\<lparr>ab_EncryptedKeys := f\<rparr>) store_string v st
      else st)"

definition attstnBody_Unmarshal :: "bytes \<Rightarrow> attstnBody decoding" where
  "attstnBody_Unmarshal bs =
     json_Unmarshal attstnBody_field bs \<lparr>ab_Document = [], ab_EncryptedKeys = []\<rparr>"

definition maxReadLen :: nat where
  "maxReadLen = b64_EncodedLen maxAttstnBodyLen"

section \<open>The worker\<close>

record workerSync =
  wk_ephemeralKeys :: "boxKey chan1"
  wk_nonce :: "nonce chan1"

definition asWorker :: workerSync where
  "asWorker = \<lparr>wk_ephemeralKeys = None, wk_nonce = None\<rparr>"

text \<open>
  The effect of installing keys is that of the \<^verbatim>\<open>setupWorker\<close> argument on the rest of the
  enclave, whose state is the type variable.
\<close>

type_synonym 'e installer = "enclaveKeys \<Rightarrow> 'e \<Rightarrow> 'e \<times> go_error option"

definition initSync ::
    "(auxInfo \<Rightarrow> bytes res) \<Rightarrow> rand \<Rightarrow> (bytes \<times> bytes) res \<Rightarrow> request \<Rightarrow> workerSync
     \<Rightarrow> (workerSync \<times> response) outcome" where
  "initSync createAttstn rnd generated r s =
     (if chan_len (wk_ephemeralKeys s) > 0 then
        Returned (s, http_Error ErrInProgress StatusTooManyRequests newResponse)
      else
        (let (leadersNonce, w) =
           (case getNonceFromReq r of
              Inl e \<Rightarrow> (zero_nonce, http_Error e StatusBadRequest newResponse)
            | Inr n \<Rightarrow> (n, newResponse)) in
         case newNonce rnd of
           Inl e \<Rightarrow> Returned (s, http_Error e StatusInternalServerError w)
         | Inr workersNonce \<Rightarrow>
             (case chan_send workersNonce (wk_nonce s) of
                None \<Rightarrow> Blocks (s, w)
              | Some c \<Rightarrow>
                  (let s1 = s\<lparr>wk_nonce := c\<rparr> in
                   case newBoxKey generated of
                     Inl e \<Rightarrow> Returned (s1, http_Error e StatusInternalServerError w)
                   | Inr boxKey \<Rightarrow>
                       (case chan_send boxKey (wk_ephemeralKeys s1) of
                          None \<Rightarrow> Blocks (s1, w)
                        | Some k \<Rightarrow>
                            (let s2 = s1\<lparr>wk_ephemeralKeys := k\<rparr> in
                             case createAttstn (WorkerAux \<lparr>wa_WorkersNonce = workersNonce,
                                    wa_LeadersNonce = leadersNonce,
                                    wa_PublicKey = Some (bk_pubKey boxKey)\<rparr>) of
                               Inl e \<Rightarrow> Returned (s2, http_Error e StatusInternalServerError w)
                             | Inr attstnDoc \<Rightarrow>
                                 Returned (s2, w_Fprintln (bytes_str (attstnBody_Marshal
                                   \<lparr>ab_Document = b64_EncodeToString attstnDoc,
                                    ab_EncryptedKeys = []\<rparr>)) w)))))))"

definition finishSync ::
    "(bytes \<Rightarrow> nonce \<Rightarrow> auxInfo res) \<Rightarrow> nacl \<Rightarrow> 'e installer \<Rightarrow> request \<Rightarrow> workerSync \<times> 'e
     \<Rightarrow> ((workerSync \<times> 'e) \<times> response) outcome" where
  "finishSync verifyAttstn box setupWorker r se =
     (let (s, e) = se in
      case io_ReadAll (newLimitReader (rq_Body r) maxReadLen) of
        (_, Some err) \<Rightarrow> Returned (se, http_Error err StatusInternalServerError newResponse)
      | (jsonBody, None) \<Rightarrow>
          (let (reqBody, jerr) = attstnBody_Unmarshal jsonBody;
               w = (case jerr of
                      None \<Rightarrow> newResponse
                    | Some err \<Rightarrow> http_Error err StatusBadRequest newResponse) in
           case b64_DecodeString (ab_Document reqBody) of
             Inl err \<Rightarrow> Returned (se, http_Error err StatusInternalServerError w)
           | Inr attstnDoc \<Rightarrow>
               (case chan_recv (wk_nonce s) of
                  None \<Rightarrow> Blocks (se, w)
                | Some (n, c) \<Rightarrow>
                    (let s1 = s\<lparr>wk_nonce := c\<rparr> in
                     case verifyAttstn attstnDoc n of
                       Inl err \<Rightarrow> Returned ((s1, e), http_Error err StatusBadRequest w)
                     | Inr (LeaderAux leaderAux) \<Rightarrow>
                         (case b64_DecodeString (ab_EncryptedKeys reqBody) of
                            Inl err \<Rightarrow> Returned ((s1, e), http_Error err StatusBadRequest w)
                          | Inr encrypted \<Rightarrow>
                              (if sha256_Sum256 encrypted \<noteq> slice_bytes (la_HashOfEncrypted leaderAux)
                               then Returned ((s1, e), http_Error ErrHashNotInAttstn StatusBadRequest w)
                               else
                                 (case chan_recv (wk_ephemeralKeys s1) of
                                    None \<Rightarrow> Blocks ((s1, e), w)
                                  | Some (ephemeralKey, k) \<Rightarrow>
                                      (let s2 = s1\<lparr>wk_ephemeralKeys := k\<rparr> in
                                       case box_OpenAnonymous box encrypted (bk_pubKey ephemeralKey)
                                              (bk_privKey ephemeralKey) of
                                         None \<Rightarrow>
                                           Returned ((s2, e),
                                             http_Error ErrFailedToDecrypt StatusBadRequest w)
                                       | Some decrypted \<Rightarrow>
                                           (case keys_Unmarshal decrypted of
                                              (_, Some err) \<Rightarrow>
                                                Returned ((s2, e),
                                                  http_Error err StatusInternalServerError w)
                                            | (keys, None) \<Rightarrow>
                                                (case setupWorker keys e of
                                                   (e', Some err) \<Rightarrow>
                                                     Exits ((s2, e'),
                                                       http_Error err StatusInternalServerError w)
                                                 | (e', None) \<Rightarrow> Returned ((s2, e'), w)))))))
                     | Inr _ \<Rightarrow> Panics ((s1, e), w)))))"

text \<open>Both arguments that the worker's handler draws fresh for a request.\<close>

record fresh =
  fr_rand :: rand
  fr_boxKey :: "(bytes \<times> bytes) res"

definition ServeHTTP ::
    "(auxInfo \<Rightarrow> bytes res) \<Rightarrow> (bytes \<Rightarrow> nonce \<Rightarrow> auxInfo res) \<Rightarrow> nacl \<Rightarrow> 'e installer \<Rightarrow> fresh
     \<Rightarrow> request \<Rightarrow> workerSync \<times> 'e \<Rightarrow> ((workerSync \<times> 'e) \<times> response) outcome" where
  "ServeHTTP createAttstn verifyAttstn box setupWorker fr r se =
     (if rq_Method r = ''GET'' then
        map_outcome (\<lambda>(s, w). ((s, snd se), w))
          (initSync createAttstn (fr_rand fr) (fr_boxKey fr) r (fst se))
      else if rq_Method r = ''POST'' then finishSync verifyAttstn box setupWorker r se
      else Returned (se, newResponse))"

section \<open>The leader\<close>

text \<open>
  The HTTP client is an argument that acts on the state of the world. A failed request is an
  error; the answer to a request has a status and a body.
\<close>

record 'w client =
  cl_Get :: "url \<Rightarrow> 'w \<Rightarrow> 'w \<times> http_resp res"
  cl_Post :: "url \<Rightarrow> bytes \<Rightarrow> 'w \<Rightarrow> 'w \<times> http_resp res"

definition syncWith ::
    "(auxInfo \<Rightarrow> bytes res) \<Rightarrow> (bytes \<Rightarrow> nonce \<Rightarrow> auxInfo res) \<Rightarrow> nacl \<Rightarrow> 'w client \<Rightarrow> rand
     \<Rightarrow> enclaveKeys \<Rightarrow> url \<Rightarrow> 'w \<Rightarrow> ('w \<times> go_error option) outcome" where
  "syncWith createAttstn verifyAttstn box client rnd keys worker x =
     (case newNonce rnd of
        Inl e \<Rightarrow> Returned (x, Some e)
      | Inr n \<Rightarrow>
          (case cl_Get client (worker\<lparr>u_RawQuery := nonce_query n\<rparr>) x of
             (x1, Inl e) \<Rightarrow> Returned (x1, Some e)
           | (x1, Inr resp) \<Rightarrow>
               (if hr_StatusCode resp \<noteq> StatusOK then
                  Returned (x1, Some (ErrNo200 (hr_StatusCode resp)))
                else
                  (case io_ReadAll (newLimitReader (hr_Body resp) maxReadLen) of
                     (_, Some e) \<Rightarrow> Returned (x1, Some e)
                   | (jsonBody, None) \<Rightarrow>
                       (case attstnBody_Unmarshal jsonBody of
                          (_, Some e) \<Rightarrow> Returned (x1, Some e)
                        | (reqBody, None) \<Rightarrow>
                            (if length (ab_EncryptedKeys reqBody) \<noteq> 0 then
                               Returned (x1, Some ErrExpectedEmptyKeys)
                             else
                               (case b64_DecodeString (ab_Document reqBody) of
                                  Inl e \<Rightarrow> Returned (x1, Some e)
                                | Inr attstnDoc \<Rightarrow>
                                    (case verifyAttstn attstnDoc n of
                                       Inl e \<Rightarrow> Returned (x1, Some e)
                                     | Inr (WorkerAux workerAux) \<Rightarrow>
                                         (case box_SealAnonymous box (keys_Marshal (keys_copy keys))
                                                 (go_copy (replicate boxKeyLen 0)
                                                   (slice_bytes (wa_PublicKey workerAux))) of
                                            Inl e \<Rightarrow> Returned (x1, Some e)
                                          | Inr encrypted \<Rightarrow>
                                              (case createAttstn (LeaderAux
                                                      \<lparr>la_WorkersNonce = wa_WorkersNonce workerAux,
                                                       la_HashOfEncrypted =
                                                         Some (sha256_Sum256 encrypted)\<rparr>) of
                                                 Inl e \<Rightarrow> Returned (x1, Some e)
                                               | Inr leaderDoc \<Rightarrow>
                                                   (case cl_Post client worker (attstnBody_Marshal
                                                           \<lparr>ab_Document = b64_EncodeToString leaderDoc,
                                                            ab_EncryptedKeys =
                                                              b64_EncodeToString encrypted\<rparr>) x1 of
                                                      (x2, Inl e) \<Rightarrow> Returned (x2, Some e)
                                                    | (x2, Inr resp2) \<Rightarrow>
                                                        (if hr_StatusCode resp2 \<noteq> StatusOK then
                                                           Returned (x2,
                                                             Some (ErrNo200 (hr_StatusCode resp2)))
                                                         else Returned (x2, None)))))
                                     | Inr _ \<Rightarrow> Panics (x1, None)))))))))"

section \<open>A leader talking to a worker\<close>

text \<open>
  The client whose requests are answered by a worker's handler. A handler that never answers
  makes the client's three-second timeout expire; a panic or the end of the process closes the
  connection.
\<close>

definition answer ::
    "(go_error \<Rightarrow> string) \<Rightarrow> (bytes \<Rightarrow> reader) \<Rightarrow> ('s \<times> response) outcome \<Rightarrow> 's \<times> http_resp res" where
  "answer render deliver out =
     (case out of
        Returned (s, w) \<Rightarrow> (s, Inr (client_view render deliver w))
      | Blocks (s, w) \<Rightarrow> (s, Inl (ErrExt ''timeout''))
      | Panics (s, w) \<Rightarrow> (s, Inl (ErrExt ''connection closed''))
      | Exits (s, w) \<Rightarrow> (s, Inl (ErrExt ''connection closed'')))"

definition worker_client ::
    "(go_error \<Rightarrow> string) \<Rightarrow> (bytes \<Rightarrow> reader)
     \<Rightarrow> (request \<Rightarrow> 's \<Rightarrow> ('s \<times> response) outcome) \<Rightarrow> 's client" where
  "worker_client render deliver serve =
     \<lparr>cl_Get = (\<lambda>u s. answer render deliver
         (serve \<lparr>rq_Method = ''GET'', rq_URL = u, rq_Body = []\<rparr> s)),
      cl_Post = (\<lambda>u body s. answer render deliver
         (serve \<lparr>rq_Method = ''POST'', rq_URL = u, rq_Body = deliver body\<rparr> s))\<rparr>"

text \<open>
  Several workers, each behind its own address with its own state: a request goes to the worker that
  its address names, whatever the query.
\<close>

definition fleet_client ::
    "(go_error \<Rightarrow> string) \<Rightarrow> (bytes \<Rightarrow> reader)
     \<Rightarrow> (url \<Rightarrow> request \<Rightarrow> 's \<Rightarrow> ('s \<times> response) outcome) \<Rightarrow> (url \<Rightarrow> 's) client" where
  "fleet_client render deliver serve =
     \<lparr>cl_Get = (\<lambda>u x.
         let v = u\<lparr>u_RawQuery := []\<rparr>; (s, resp) = cl_Get (worker_client render deliver (serve v)) u (x v) in
         (x(v := s), resp)),
      cl_Post = (\<lambda>u body x.
         let v = u\<lparr>u_RawQuery := []\<rparr>; (s, resp) = cl_Post (worker_client render deliver (serve v)) u body (x v) in
         (x(v := s), resp))\<rparr>"

section \<open>Lemmas: message bodies\<close>

lemma attstnBody_json_ok:
  "ascii (ab_Document b) \<Longrightarrow> ascii (ab_EncryptedKeys b) \<Longrightarrow> json_ok (attstnBody_json b)"
  "json_depth (attstnBody_json b) \<le> maxNestingDepth"
  by (simp_all add: attstnBody_json_def ascii_def maxNestingDepth_def)

interpretation body_codec: json_codec attstnBody_Marshal attstnBody_Unmarshal
  "\<lambda>b. ascii (ab_Document b) \<and> ascii (ab_EncryptedKeys b)"
proof
  fix x :: attstnBody
  assume "ascii (ab_Document x) \<and> ascii (ab_EncryptedKeys x)"
  then have "json_ok (attstnBody_json x)" by (simp add: attstnBody_json_ok)
  then have "attstnBody_Unmarshal (attstnBody_Marshal x) = fold (\<lambda>(k, v). attstnBody_field k v)
     [(''document'', JStr (ab_Document x)), (''encrypted_keys'', JStr (ab_EncryptedKeys x))]
     (\<lparr>ab_Document = [], ab_EncryptedKeys = []\<rparr>, None)"
    using attstnBody_json_ok(2) [of x]
    unfolding attstnBody_Unmarshal_def attstnBody_Marshal_def attstnBody_json_def
    by (rule json_Unmarshal_Marshal)
  then show "attstnBody_Unmarshal (attstnBody_Marshal x) = (x, None)"
    by (simp add: attstnBody_field_def same_field_def store_in_def store_string_def)
qed

lemma ascii_b64 [simp]: "ascii (b64_EncodeToString bs)"
  by (simp add: plain_ascii b64_plain)

lemma ascii_Nil [simp]: "ascii []"
  by (simp add: ascii_def)

lemma body_roundtrip [simp]:
  "attstnBody_Unmarshal (attstnBody_Marshal \<lparr>ab_Document = b64_EncodeToString d,
     ab_EncryptedKeys = b64_EncodeToString c\<rparr>)
   = (\<lparr>ab_Document = b64_EncodeToString d, ab_EncryptedKeys = b64_EncodeToString c\<rparr>, None)"
  "attstnBody_Unmarshal (attstnBody_Marshal \<lparr>ab_Document = b64_EncodeToString d,
     ab_EncryptedKeys = []\<rparr>)
   = (\<lparr>ab_Document = b64_EncodeToString d, ab_EncryptedKeys = []\<rparr>, None)"
  by (rule body_codec.dec_enc; simp)+

text \<open>
  The worker ends its answer with a newline, which is white space to the JSON scanner.
\<close>

lemma skip_ws_all: "list_all is_ws ws \<Longrightarrow> skip_ws ws = []"
  by (induction ws) auto

lemma json_parse_trailing_ws:
  assumes "json_ok v" "json_depth v \<le> maxNestingDepth" "list_all is_ws ws"
  shows "json_parse (json_print v @ ws) = Inr v"
proof -
  have "num_stop ws" using assms(3) by (cases ws) (auto simp: num_stop_def is_ws_def is_digit_def)
  then have "parse_value (Suc (2 * length (json_print v @ ws))) 0 (json_print v @ ws) = Some (v, ws)"
    using json_reads_back [OF assms(1)] assms(2) unfolding reads_back_def
    by (elim allE [where x = "Suc (2 * length (json_print v @ ws))"] allE [where x = "0 :: nat"]
        allE [where x = ws]) (simp del: parse_value.simps)
  then show ?thesis
    by (simp add: json_parse_def json_parse_fuel_def skip_ws_all [OF assms(3)] del: parse_value.simps)
qed

lemma bytes_str_newline: "bytes_str [0x0A] = [CHR 0x0A]"
  by code_simp

lemma body_newline [simp]:
  "attstnBody_Unmarshal (attstnBody_Marshal \<lparr>ab_Document = b64_EncodeToString d,
     ab_EncryptedKeys = []\<rparr> @ [0x0A])
   = (\<lparr>ab_Document = b64_EncodeToString d, ab_EncryptedKeys = []\<rparr>, None)" (is "?lhs (?m @ _) = _")
proof -
  let ?b = "\<lparr>ab_Document = b64_EncodeToString d, ab_EncryptedKeys = []\<rparr>"
  have "json_parse (json_print (attstnBody_json ?b) @ [CHR 0x0A]) = Inr (attstnBody_json ?b)"
    by (rule json_parse_trailing_ws) (simp_all add: attstnBody_json_ok is_ws_def)
  moreover have "bytes_str (?m @ [0x0A]) = json_print (attstnBody_json ?b) @ [CHR 0x0A]"
    by (simp add: attstnBody_Marshal_def json_Marshal_def bytes_str_newline)
  ultimately have "?lhs (?m @ [0x0A]) = attstnBody_Unmarshal ?m"
    using json_roundtrip [of "attstnBody_json ?b"] attstnBody_json_ok [of ?b]
    by (simp add: attstnBody_Unmarshal_def json_Unmarshal_def attstnBody_Marshal_def json_Marshal_def)
  then show ?thesis by simp
qed

section \<open>Lemmas: the phases of the worker\<close>

definition idle :: "workerSync \<Rightarrow> bool" where
  "idle s = (wk_ephemeralKeys s = None \<and> wk_nonce s = None)"

definition pending :: "workerSync \<Rightarrow> bool" where
  "pending s = (wk_ephemeralKeys s \<noteq> None \<and> wk_nonce s \<noteq> None)"

definition wedged :: "workerSync \<Rightarrow> bool" where
  "wedged s = (wk_ephemeralKeys s \<noteq> None \<and> wk_nonce s = None)"

lemma initSync_busy:
  "wk_ephemeralKeys s = Some k \<Longrightarrow>
   initSync create rnd gen r s = Returned (s, http_Error ErrInProgress StatusTooManyRequests newResponse)"
  by (simp add: initSync_def)

lemma initSync_idle:
  assumes "idle s" "getNonceFromReq r = Inr ln" "newNonce rnd = Inr wn" "gen = Inr (pub, priv)"
    and "create (WorkerAux \<lparr>wa_WorkersNonce = wn, wa_LeadersNonce = ln, wa_PublicKey = Some pub\<rparr>) = Inr doc"
  shows "initSync create rnd gen r s =
    Returned (\<lparr>wk_ephemeralKeys = Some \<lparr>bk_pubKey = pub, bk_privKey = priv\<rparr>, wk_nonce = Some wn\<rparr>,
      w_Fprintln (bytes_str (attstnBody_Marshal \<lparr>ab_Document = b64_EncodeToString doc,
        ab_EncryptedKeys = []\<rparr>)) newResponse)"
  using assms by (simp add: initSync_def idle_def newBoxKey_def)

text \<open>Without a nonce to compare with, no request of a leader gets anywhere.\<close>

lemma finishSync_no_nonce:
  "wk_nonce s = None \<Longrightarrow> fst (reached (finishSync verify box inst r (s, e))) = (s, e)"
  by (auto simp: finishSync_def Let_def split: prod.splits option.splits sum.splits)

lemma wedged_stays:
  assumes "wedged s"
  shows "fst (reached (ServeHTTP create verify box inst fr r (s, e))) = (s, e)"
proof -
  from assms obtain k where "wk_ephemeralKeys s = Some k" "wk_nonce s = None"
    by (auto simp: wedged_def)
  then show ?thesis by (simp add: ServeHTTP_def initSync_busy finishSync_no_nonce)
qed

text \<open>
  The enclave's state changes only by installing keys, and keys are installed only from a body
  whose attestation document verified for the nonce that this worker handed out and that contains
  the hash of the ciphertext.
\<close>

lemma finishSync_installs:
  assumes "snd (fst (reached (finishSync verify box inst r (s, e)))) \<noteq> e"
  shows "\<exists>body n doc leaderAux encrypted k decrypted keys.
    io_ReadAll (newLimitReader (rq_Body r) maxReadLen) = (body, None)
    \<and> wk_nonce s = Some n \<and> wk_ephemeralKeys s = Some k
    \<and> b64_DecodeString (ab_Document (fst (attstnBody_Unmarshal body))) = Inr doc
    \<and> verify doc n = Inr (LeaderAux leaderAux)
    \<and> b64_DecodeString (ab_EncryptedKeys (fst (attstnBody_Unmarshal body))) = Inr encrypted
    \<and> slice_bytes (la_HashOfEncrypted leaderAux) = sha256_Sum256 encrypted
    \<and> box_OpenAnonymous box encrypted (bk_pubKey k) (bk_privKey k) = Some decrypted
    \<and> keys_Unmarshal decrypted = (keys, None)
    \<and> fst (reached (finishSync verify box inst r (s, e))) =
        (\<lparr>wk_ephemeralKeys = None, wk_nonce = None\<rparr>, fst (inst keys e))"
proof -
  obtain body err where b: "io_ReadAll (newLimitReader (rq_Body r) maxReadLen) = (body, err)"
    by (metis prod.exhaust)
  obtain rb je where u: "attstnBody_Unmarshal body = (rb, je)" by (metis prod.exhaust)
  show ?thesis
    using assms b u
    by (auto simp: finishSync_def Let_def chan_recv_def split: option.splits sum.splits
        auxInfo.splits prod.splits if_splits)
qed

section \<open>Lemmas: how long the messages are\<close>

lemma html_safe_b64: "html_safe (b64_char n)"
  by (auto simp: html_safe_def b64_char_def char_of_eq_iff take_bit_eq_mod)

lemma html_safe_pad: "html_safe (CHR ''='')"
  by (simp add: html_safe_def)

lemma list_all_html_safe_b64: "list_all html_safe (b64_EncodeToString bs)"
  by (induction bs rule: b64_EncodeToString.induct) (simp_all add: html_safe_b64 html_safe_pad)

lemma escape_html_safe: "list_all html_safe s \<Longrightarrow> escape_string s = s"
  by (induction s) (auto simp: escape_string.simps escape_char_def html_safe_def)

lemma length_quote: "list_all html_safe s \<Longrightarrow> length (quote s) = length s + 2"
  by (simp add: quote_def escape_html_safe)

lemma length_attstnBody:
  "length (attstnBody_Marshal \<lparr>ab_Document = b64_EncodeToString d,
     ab_EncryptedKeys = b64_EncodeToString c\<rparr>) =
   b64_EncodedLen (length d) + b64_EncodedLen (length c) + 35"
  "length (attstnBody_Marshal \<lparr>ab_Document = b64_EncodeToString d, ab_EncryptedKeys = []\<rparr>) =
   b64_EncodedLen (length d) + 35"
proof -
  have "list_all html_safe ''document''" "list_all html_safe ''encrypted_keys''"
    by (simp_all add: html_safe_def)
  from this [THEN length_quote]
  show "length (attstnBody_Marshal \<lparr>ab_Document = b64_EncodeToString d,
     ab_EncryptedKeys = b64_EncodeToString c\<rparr>) =
   b64_EncodedLen (length d) + b64_EncodedLen (length c) + 35"
  "length (attstnBody_Marshal \<lparr>ab_Document = b64_EncodeToString d, ab_EncryptedKeys = []\<rparr>) =
   b64_EncodedLen (length d) + 35"
    by (simp_all add: attstnBody_Marshal_def json_Marshal_def attstnBody_json_def length_quote
        list_all_html_safe_b64)
qed

text \<open>
  A message fits if the limit, which both sides apply, leaves room for it. The worker's answer has
  one byte more, the newline.
\<close>

definition fits :: "bytes \<Rightarrow> bytes \<Rightarrow> bool" where
  "fits doc encrypted =
     (b64_EncodedLen (length doc) + b64_EncodedLen (length encrypted) + 35 \<le> maxReadLen)"

section \<open>An honest run\<close>

text \<open>
  A leader that synchronizes with a worker: the leader's client reaches the worker's handler. The
  fresh randomness of the worker is the argument \<open>fr\<close>, that of the leader \<open>rnd\<close>.
\<close>

definition run_sync ::
    "(auxInfo \<Rightarrow> bytes res) \<Rightarrow> (bytes \<Rightarrow> nonce \<Rightarrow> auxInfo res)
     \<Rightarrow> (auxInfo \<Rightarrow> bytes res) \<Rightarrow> (bytes \<Rightarrow> nonce \<Rightarrow> auxInfo res)
     \<Rightarrow> nacl \<Rightarrow> (go_error \<Rightarrow> string) \<Rightarrow> (bytes \<Rightarrow> reader) \<Rightarrow> 'e installer \<Rightarrow> fresh \<Rightarrow> rand
     \<Rightarrow> enclaveKeys \<Rightarrow> url \<Rightarrow> workerSync \<times> 'e \<Rightarrow> ((workerSync \<times> 'e) \<times> go_error option) outcome" where
  "run_sync wcreate wverify lcreate lverify box render deliver setupWorker fr rnd keys worker se =
     syncWith lcreate lverify box
       (worker_client render deliver (ServeHTTP wcreate wverify box setupWorker fr))
       rnd keys worker se"

text \<open>
  The documented contract of \<^verbatim>\<open>box\<close> for a key pair: what was sealed with the public key opens
  with the pair.
\<close>

definition opens_sealed :: "nacl \<Rightarrow> bytes \<Rightarrow> bytes \<Rightarrow> bool" where
  "opens_sealed box pub priv \<longleftrightarrow>
     (\<forall>m c. box_SealAnonymous box m pub = Inr c \<longrightarrow> box_OpenAnonymous box c pub priv = Some m)"

section \<open>Lemmas: the protocol between an honest leader and an honest worker\<close>

text \<open>
  The two attesters share a root of trust in both directions: the leader verifies what the worker
  creates and the other way round.
\<close>

locale key_sync =
  w2l: attester wcreate lverify + l2w: attester lcreate wverify
  for wcreate :: "auxInfo \<Rightarrow> bytes res" and wverify :: "bytes \<Rightarrow> nonce \<Rightarrow> auxInfo res"
    and lcreate :: "auxInfo \<Rightarrow> bytes res" and lverify :: "bytes \<Rightarrow> nonce \<Rightarrow> auxInfo res"
begin

text \<open>The worker's side of the second request, in the state that the first one leaves.\<close>

lemma finish_honest:
  assumes "faithful_delivery deliver" "rq_Body r = deliver (attstnBody_Marshal
      \<lparr>ab_Document = b64_EncodeToString ldoc, ab_EncryptedKeys = b64_EncodeToString encrypted\<rparr>)"
    and "fits ldoc encrypted" "wf_nonce wn"
    and "lcreate (LeaderAux \<lparr>la_WorkersNonce = wn,
           la_HashOfEncrypted = Some (sha256_Sum256 encrypted)\<rparr>) = Inr ldoc"
    and "box_OpenAnonymous box encrypted pub priv = Some (keys_Marshal keys)"
  shows "finishSync wverify box inst r
      (\<lparr>wk_ephemeralKeys = Some \<lparr>bk_pubKey = pub, bk_privKey = priv\<rparr>, wk_nonce = Some wn\<rparr>, e) =
    (case inst keys e of
       (e', None) \<Rightarrow> Returned ((asWorker, e'), newResponse)
     | (e', Some err) \<Rightarrow>
         Exits ((asWorker, e'), http_Error err StatusInternalServerError newResponse))"
proof -
  have "wverify ldoc wn = Inr (LeaderAux \<lparr>la_WorkersNonce = wn,
      la_HashOfEncrypted = Some (sha256_Sum256 encrypted)\<rparr>)"
    using l2w.verify_leader [OF assms(5) _ assms(4)] assms(4) by (simp add: wf_leader_def)
  then show ?thesis
    using assms(3) unfolding finishSync_def
    by (simp add: assms(2,6) ReadAll_delivered [OF assms(1)] length_attstnBody fits_def b64_roundtrip
        slice_bytes_def keys_codec.dec_enc asWorker_def split: prod.splits option.splits)
qed

text \<open>The first request to an idle worker.\<close>

lemma init_honest:
  assumes "idle s" "wf_nonce ln" "newNonce rnd = Inr wn" "gen = Inr (pub, priv)"
    and "wcreate (WorkerAux \<lparr>wa_WorkersNonce = wn, wa_LeadersNonce = ln, wa_PublicKey = Some pub\<rparr>) = Inr doc"
    and "u_RawQuery (rq_URL r) = nonce_query ln"
  shows "initSync wcreate rnd gen r s =
    Returned (\<lparr>wk_ephemeralKeys = Some \<lparr>bk_pubKey = pub, bk_privKey = priv\<rparr>, wk_nonce = Some wn\<rparr>,
      w_Fprintln (bytes_str (attstnBody_Marshal \<lparr>ab_Document = b64_EncodeToString doc,
        ab_EncryptedKeys = []\<rparr>)) newResponse)"
  using assms(1) getNonceFromReq_query [OF assms(2,6)] assms(3-5) by (rule initSync_idle)

text \<open>
  The whole run, with everything that the two requests depend on spelled out: what is left open is
  the result of installing the keys.
\<close>

lemma run_honest:
  assumes deliver: "faithful_delivery deliver" and idle: "idle s"
    and ln: "newNonce rnd = Inr ln" and wn: "newNonce (fr_rand fr) = Inr wn"
    and key: "fr_boxKey fr = Inr (pub, priv)" "length pub = boxKeyLen" "opens_sealed box pub priv"
    and wdoc: "wcreate (WorkerAux \<lparr>wa_WorkersNonce = wn, wa_LeadersNonce = ln,
                 wa_PublicKey = Some pub\<rparr>) = Inr wdoc"
    and wfits: "b64_EncodedLen (length wdoc) + 36 \<le> maxReadLen"
    and enc: "box_SealAnonymous box (keys_Marshal keys) pub = Inr encrypted"
    and ldoc: "lcreate (LeaderAux \<lparr>la_WorkersNonce = wn,
                 la_HashOfEncrypted = Some (sha256_Sum256 encrypted)\<rparr>) = Inr ldoc"
    and lfits: "fits ldoc encrypted"
  shows "run_sync wcreate wverify lcreate lverify box render deliver inst fr rnd keys u (s, e) =
    (case inst keys e of
       (e', None) \<Rightarrow> Returned ((asWorker, e'), None)
     | (e', Some err) \<Rightarrow> Returned ((asWorker, e'), Some (ErrExt ''connection closed'')))"
proof -
  have wf: "wf_nonce ln" "wf_nonce wn" using ln wn by (auto simp: newNonce_Inr)
  have aux: "lverify wdoc ln = Inr (WorkerAux \<lparr>wa_WorkersNonce = wn, wa_LeadersNonce = ln,
      wa_PublicKey = Some pub\<rparr>)"
    using w2l.verify_worker [OF wdoc _ wf(1)] wf key(2) by (simp add: wf_worker_def boxKeyLen_def)
  have opened: "box_OpenAnonymous box encrypted pub priv = Some (keys_Marshal keys)"
    using key(3) enc by (simp add: opens_sealed_def)
  have copied: "go_copy (replicate boxKeyLen 0) pub = pub" using key(2) by simp
  note get = init_honest [OF idle wf(1) wn key(1) wdoc]
  note post = finish_honest [OF deliver _ lfits wf(2) ldoc opened, where inst = inst and e = e]
  show ?thesis
    unfolding run_sync_def syncWith_def worker_client_def ServeHTTP_def answer_def
    using wfits
    by (simp add: ln get client_view_def ReadAll_delivered [OF deliver] length_attstnBody
        b64_roundtrip aux copied enc ldoc post slice_bytes_def split: prod.splits option.splits)
qed

text \<open>
  The converse: if the leader's call reports success, the worker was idle and every step of an
  honest run happened.
\<close>

lemma init_not_idle:
  "\<not> idle s \<Longrightarrow> initSync wcreate rnd gen r s = Returned (s', w) \<Longrightarrow> rs_status w \<noteq> StatusOK"
  by (auto simp: initSync_def idle_def Let_def chan_send_def chan_len_def split: option.splits
      sum.splits prod.splits if_splits)

lemma run_success_get:
  assumes run: "run_sync wcreate wverify lcreate lverify box render deliver inst fr rnd keys u (s, e) =
      Returned (se', None)"
  shows "\<exists>ln wn pub priv wdoc. idle s \<and> newNonce rnd = Inr ln \<and> newNonce (fr_rand fr) = Inr wn
    \<and> fr_boxKey fr = Inr (pub, priv)
    \<and> wcreate (WorkerAux \<lparr>wa_WorkersNonce = wn, wa_LeadersNonce = ln, wa_PublicKey = Some pub\<rparr>) = Inr wdoc"
proof -
  from run obtain ln where ln: "newNonce rnd = Inr ln"
    unfolding run_sync_def syncWith_def by (auto split: sum.splits)
  let ?r = "\<lparr>rq_Method = ''GET'', rq_URL = u\<lparr>u_RawQuery := nonce_query ln\<rparr>, rq_Body = []\<rparr>"
  from run obtain s1 w where get: "initSync wcreate (fr_rand fr) (fr_boxKey fr) ?r s = Returned (s1, w)"
    and ok: "rs_status w = StatusOK"
    unfolding run_sync_def syncWith_def worker_client_def ServeHTTP_def answer_def
    by (cases "initSync wcreate (fr_rand fr) (fr_boxKey fr) ?r s")
      (auto simp: ln client_view_def split: if_splits prod.splits)
  have idle: "idle s" using init_not_idle get ok by blast
  have "getNonceFromReq ?r = Inr ln"
    using ln by (intro getNonceFromReq_query) (auto simp: newNonce_Inr)
  with get ok idle ln show ?thesis
    by (auto simp: initSync_def idle_def newBoxKey_def Let_def split: sum.splits prod.splits)
qed

text \<open>A body over the limit is refused by the worker, whose state stays as it is.\<close>

lemma finish_too_long:
  assumes "faithful_delivery deliver" "rq_Body r = deliver (attstnBody_Marshal
      \<lparr>ab_Document = b64_EncodeToString ldoc, ab_EncryptedKeys = b64_EncodeToString encrypted\<rparr>)"
    and "\<not> fits ldoc encrypted"
  shows "finishSync wverify box inst r se =
    Returned (se, http_Error ErrTooMuchToRead StatusInternalServerError newResponse)"
  using assms(3) unfolding finishSync_def
  by (simp add: assms(2) ReadAll_delivered [OF assms(1)] length_attstnBody fits_def split: prod.splits)

lemma run_success_post:
  assumes deliver: "faithful_delivery deliver"
    and run: "run_sync wcreate wverify lcreate lverify box render deliver inst fr rnd keys u (s, e) =
      Returned (se', None)"
    and idle: "idle s"
    and ln: "newNonce rnd = Inr ln" and wn: "newNonce (fr_rand fr) = Inr wn"
    and key: "fr_boxKey fr = Inr (pub, priv)" "length pub = boxKeyLen"
    and wdoc: "wcreate (WorkerAux \<lparr>wa_WorkersNonce = wn, wa_LeadersNonce = ln,
                 wa_PublicKey = Some pub\<rparr>) = Inr wdoc"
  shows "\<exists>encrypted ldoc. b64_EncodedLen (length wdoc) + 36 \<le> maxReadLen
    \<and> box_SealAnonymous box (keys_Marshal keys) pub = Inr encrypted
    \<and> lcreate (LeaderAux \<lparr>la_WorkersNonce = wn,
         la_HashOfEncrypted = Some (sha256_Sum256 encrypted)\<rparr>) = Inr ldoc
    \<and> fits ldoc encrypted"
proof -
  have wf: "wf_nonce ln" "wf_nonce wn" using ln wn by (auto simp: newNonce_Inr)
  have aux: "lverify wdoc ln = Inr (WorkerAux \<lparr>wa_WorkersNonce = wn, wa_LeadersNonce = ln,
      wa_PublicKey = Some pub\<rparr>)"
    using w2l.verify_worker [OF wdoc _ wf(1)] wf key(2) by (simp add: wf_worker_def boxKeyLen_def)
  have copied: "go_copy (replicate boxKeyLen 0) pub = pub" using key(2) by simp
  note run' = run [unfolded run_sync_def syncWith_def worker_client_def ServeHTTP_def answer_def]
  note get = init_honest [OF idle wf(1) wn key(1) wdoc]
  have len: "b64_EncodedLen (length wdoc) + 36 \<le> maxReadLen"
    using run' by (simp add: ln get client_view_def ReadAll_delivered [OF deliver] length_attstnBody
        split: if_splits)
  note simps = ln get client_view_def ReadAll_delivered [OF deliver] length_attstnBody
    b64_roundtrip aux copied slice_bytes_def
  from run' len obtain encrypted where enc: "box_SealAnonymous box (keys_Marshal keys) pub = Inr encrypted"
    by (cases "box_SealAnonymous box (keys_Marshal keys) pub") (simp_all add: simps)
  from run' len obtain ldoc where ldoc: "lcreate (LeaderAux \<lparr>la_WorkersNonce = wn,
      la_HashOfEncrypted = Some (sha256_Sum256 encrypted)\<rparr>) = Inr ldoc"
    by (cases "lcreate (LeaderAux \<lparr>la_WorkersNonce = wn,
      la_HashOfEncrypted = Some (sha256_Sum256 encrypted)\<rparr>)") (simp_all add: simps enc)
  have "fits ldoc encrypted"
  proof (rule ccontr)
    assume "\<not> fits ldoc encrypted"
    with run' len show False
      by (simp add: simps enc ldoc finish_too_long [OF deliver])
  qed
  with len enc ldoc show ?thesis by blast
qed

lemma run_success:
  assumes deliver: "faithful_delivery deliver"
    and key: "\<And>pub priv. fr_boxKey fr = Inr (pub, priv) \<Longrightarrow>
                length pub = boxKeyLen \<and> opens_sealed box pub priv"
    and run: "run_sync wcreate wverify lcreate lverify box render deliver inst fr rnd keys u (s, e) =
      Returned ((s', e'), None)"
  shows "idle s \<and> s' = asWorker \<and> inst keys e = (e', None)"
proof -
  from run_success_get [OF run] obtain ln wn pub priv wdoc where get: "idle s" "newNonce rnd = Inr ln"
    "newNonce (fr_rand fr) = Inr wn" "fr_boxKey fr = Inr (pub, priv)"
    "wcreate (WorkerAux \<lparr>wa_WorkersNonce = wn, wa_LeadersNonce = ln, wa_PublicKey = Some pub\<rparr>) = Inr wdoc"
    by blast
  note k = key [OF get(4)]
  from run_success_post [OF deliver run get(1-4) conjunct1 [OF k] get(5)] obtain encrypted ldoc where
    post: "b64_EncodedLen (length wdoc) + 36 \<le> maxReadLen"
      "box_SealAnonymous box (keys_Marshal keys) pub = Inr encrypted"
      "lcreate (LeaderAux \<lparr>la_WorkersNonce = wn,
         la_HashOfEncrypted = Some (sha256_Sum256 encrypted)\<rparr>) = Inr ldoc" "fits ldoc encrypted"
    by blast
  have "(case inst keys e of (e', None) \<Rightarrow> Returned ((asWorker, e'), None)
      | (e', Some err) \<Rightarrow> Returned ((asWorker, e'), Some (ErrExt ''connection closed'')))
    = Returned ((s', e'), None)"
    using run_honest [OF deliver get(1-4) conjunct1 [OF k] conjunct2 [OF k] get(5) post,
        where render = render and inst = inst and u = u and e = e] run by simp
  with get(1) show ?thesis by (auto split: prod.splits option.splits)
qed

text \<open>Whatever happens, the leader's call returns.\<close>

lemma run_returns:
  assumes deliver: "faithful_delivery deliver"
    and key: "\<And>pub priv. fr_boxKey fr = Inr (pub, priv) \<Longrightarrow> length pub = boxKeyLen"
  shows "\<exists>out. run_sync wcreate wverify lcreate lverify box render deliver inst fr rnd keys u (s, e) = Returned out"
proof (cases "newNonce rnd")
  case (Inl err)
  then show ?thesis by (simp add: run_sync_def syncWith_def)
next
  case (Inr ln)
  let ?r = "\<lparr>rq_Method = ''GET'', rq_URL = u\<lparr>u_RawQuery := nonce_query ln\<rparr>, rq_Body = []\<rparr>"
  note unfolded = run_sync_def syncWith_def worker_client_def ServeHTTP_def answer_def
  have wf: "wf_nonce ln" using Inr by (auto simp: newNonce_Inr)
  show ?thesis
  proof (cases "\<exists>s1 w. initSync wcreate (fr_rand fr) (fr_boxKey fr) ?r s = Returned (s1, w) \<and> rs_status w = StatusOK")
    case False
    then show ?thesis
      unfolding unfolded by (cases "initSync wcreate (fr_rand fr) (fr_boxKey fr) ?r s") (auto simp: Inr client_view_def)
  next
    case True
    then obtain s1 w where get: "initSync wcreate (fr_rand fr) (fr_boxKey fr) ?r s = Returned (s1, w)"
      and ok: "rs_status w = StatusOK" by blast
    have idle: "idle s" using init_not_idle get ok by blast
    have "getNonceFromReq ?r = Inr ln" using wf by (intro getNonceFromReq_query) simp_all
    with get ok idle obtain wn pub priv wdoc where wn: "newNonce (fr_rand fr) = Inr wn"
      and bk: "fr_boxKey fr = Inr (pub, priv)"
      and wdoc: "wcreate (WorkerAux \<lparr>wa_WorkersNonce = wn, wa_LeadersNonce = ln, wa_PublicKey = Some pub\<rparr>) = Inr wdoc"
      by (auto simp: initSync_def idle_def newBoxKey_def Let_def split: sum.splits prod.splits)
    have "wf_nonce wn" using wn by (auto simp: newNonce_Inr)
    with w2l.verify_worker [OF wdoc _ wf] key [OF bk] wf
    have aux: "lverify wdoc ln = Inr (WorkerAux \<lparr>wa_WorkersNonce = wn, wa_LeadersNonce = ln, wa_PublicKey = Some pub\<rparr>)"
      by (simp add: wf_worker_def boxKeyLen_def)
    show ?thesis
      unfolding unfolded
      by (simp add: Inr init_honest [OF idle wf wn bk wdoc] client_view_def ReadAll_delivered [OF deliver]
          length_attstnBody b64_roundtrip aux split: sum.splits prod.splits)
  qed
qed

text \<open>Keys that do not fit: the leader gives up and the worker is left waiting.\<close>

lemma run_too_long:
  assumes deliver: "faithful_delivery deliver" and idle: "idle s"
    and ln: "newNonce rnd = Inr ln" and wn: "newNonce (fr_rand fr) = Inr wn"
    and key: "fr_boxKey fr = Inr (pub, priv)" "length pub = boxKeyLen"
    and wdoc: "wcreate (WorkerAux \<lparr>wa_WorkersNonce = wn, wa_LeadersNonce = ln,
                 wa_PublicKey = Some pub\<rparr>) = Inr wdoc"
    and wfits: "b64_EncodedLen (length wdoc) + 36 \<le> maxReadLen"
    and enc: "box_SealAnonymous box (keys_Marshal keys) pub = Inr encrypted"
    and ldoc: "lcreate (LeaderAux \<lparr>la_WorkersNonce = wn,
                 la_HashOfEncrypted = Some (sha256_Sum256 encrypted)\<rparr>) = Inr ldoc"
    and big: "\<not> fits ldoc encrypted"
  shows "run_sync wcreate wverify lcreate lverify box render deliver inst fr rnd keys u (s, e) =
    Returned ((\<lparr>wk_ephemeralKeys = Some \<lparr>bk_pubKey = pub, bk_privKey = priv\<rparr>, wk_nonce = Some wn\<rparr>, e),
      Some (ErrNo200 StatusInternalServerError))"
proof -
  have wf: "wf_nonce ln" "wf_nonce wn" using ln wn by (auto simp: newNonce_Inr)
  have aux: "lverify wdoc ln = Inr (WorkerAux \<lparr>wa_WorkersNonce = wn, wa_LeadersNonce = ln,
      wa_PublicKey = Some pub\<rparr>)"
    using w2l.verify_worker [OF wdoc _ wf(1)] wf key(2) by (simp add: wf_worker_def boxKeyLen_def)
  have copied: "go_copy (replicate boxKeyLen 0) pub = pub" using key(2) by simp
  note get = init_honest [OF idle wf(1) wn key(1) wdoc]
  show ?thesis
    unfolding run_sync_def syncWith_def worker_client_def ServeHTTP_def answer_def
    using wfits
    by (simp add: ln get client_view_def ReadAll_delivered [OF deliver] length_attstnBody
        b64_roundtrip aux copied enc ldoc finish_too_long [OF deliver _ big] slice_bytes_def)
qed

end

interpretation dummy_sync: key_sync dummy_createAttstn dummy_verifyAttstn
  dummy_createAttstn dummy_verifyAttstn ..

lemma nitro_key_sync:
  assumes "issues t leader verify leaderRegs" "attests leader"
    and "issues t' worker verify workerRegs" "attests worker"
    and "arePCRsIdentical leaderRegs workerRegs" "arePCRsIdentical workerRegs leaderRegs"
  shows "key_sync (nitro_createAttstn worker) (nitro_verifyAttstn worker verify t)
    (nitro_createAttstn leader) (nitro_verifyAttstn leader verify t')"
  unfolding key_sync_def using assms by (blast intro: nitro_attester)

section \<open>Lemmas: several workers\<close>

text \<open>
  A client that acts on the part of the world that belongs to the address: what the leader does then
  concerns that part only.
\<close>

lemma syncWith_mapped:
  assumes "\<And>q x. cl_Get C (u\<lparr>u_RawQuery := q\<rparr>) x =
      map_prod (\<lambda>s. x(u := s)) id (cl_Get W (u\<lparr>u_RawQuery := q\<rparr>) (x u))"
    and "\<And>b x. cl_Post C u b x = map_prod (\<lambda>s. x(u := s)) id (cl_Post W u b (x u))"
  shows "syncWith create verify box C rnd keys u x =
    map_outcome (map_prod (\<lambda>s. x(u := s)) id) (syncWith create verify box W rnd keys u (x u))"
proof (cases "newNonce rnd")
  case nonce: (Inr n)
  obtain s1 r1 where get: "cl_Get W (u\<lparr>u_RawQuery := nonce_query n\<rparr>) (x u) = (s1, r1)" by fastforce
  show ?thesis
  proof (cases r1)
    case resp: (Inr resp)
    obtain body e where read: "io_ReadAll (newLimitReader (hr_Body resp) maxReadLen) = (body, e)" by fastforce
    obtain rb je where dec: "attstnBody_Unmarshal body = (rb, je)" by fastforce
    note eqs = syncWith_def assms nonce get resp read dec
    show ?thesis
    proof (cases "hr_StatusCode resp = StatusOK \<and> e = None \<and> je = None \<and> ab_EncryptedKeys rb = []")
      case True
      show ?thesis
      proof (cases "b64_DecodeString (ab_Document rb)")
        case doc: (Inr doc)
        show ?thesis
        proof (cases "verify doc n")
          case (Inr aux)
          then show ?thesis by (cases aux) (simp_all add: eqs True doc split: sum.split prod.split)
        qed (simp add: eqs True doc)
      qed (simp add: eqs True)
    qed (cases e; cases je; auto simp: eqs)
  qed (simp add: syncWith_def assms nonce get)
qed (simp add: syncWith_def)

text \<open>Synchronizing with one worker of many is synchronizing with that worker, and leaves the others alone.\<close>

lemma syncWith_fleet:
  assumes "u_RawQuery u = []"
  shows "syncWith create verify box (fleet_client render deliver serve) rnd keys u x =
    map_outcome (map_prod (\<lambda>s. x(u := s)) id)
      (syncWith create verify box (worker_client render deliver (serve u)) rnd keys u (x u))"
proof -
  have u: "u\<lparr>u_RawQuery := q\<rparr>\<lparr>u_RawQuery := []\<rparr> = u" "u\<lparr>u_RawQuery := []\<rparr> = u" for q
    using assms by (cases u; simp)+
  show ?thesis
    by (rule syncWith_mapped) (simp_all add: fleet_client_def u Let_def map_prod_def split_beta)
qed

section \<open>Lemmas: what can go wrong\<close>

text \<open>A worker that waits for the second request turns every other leader away.\<close>

lemma run_busy:
  assumes "newNonce rnd = Inr ln" "wk_ephemeralKeys s = Some k"
  shows "run_sync wcreate wverify lcreate lverify box render deliver inst fr rnd keys u (s, e) =
    Returned ((s, e), Some (ErrNo200 StatusTooManyRequests))"
  using assms
  by (simp add: run_sync_def syncWith_def worker_client_def ServeHTTP_def answer_def initSync_busy
      client_view_def)

lemma b64_EncodedLen_mono: "m \<le> n \<Longrightarrow> b64_EncodedLen m \<le> b64_EncodedLen n"
  by (simp add: b64_EncodedLen_def div_le_mono)

lemma length_keys_Marshal:
  "AppKeys keys = Some a \<Longrightarrow> b64_EncodedLen (length a) \<le> length (keys_Marshal keys)"
  using escape_html_safe [OF list_all_html_safe_b64, of a]
  by (simp add: keys_Marshal_def json_Marshal_def keys_json_def slice_json_def quote_def)

lemma big_keys_do_not_fit:
  assumes "AppKeys keys = Some a" "12288 \<le> length a" "length (keys_Marshal keys) \<le> length encrypted"
  shows "\<not> fits doc encrypted"
proof -
  have "b64_EncodedLen 12288 \<le> length encrypted"
    using b64_EncodedLen_mono [OF assms(2)] length_keys_Marshal [OF assms(1)] assms(3) by linarith
  then have "b64_EncodedLen (b64_EncodedLen 12288) \<le> b64_EncodedLen (length encrypted)"
    by (rule b64_EncodedLen_mono)
  then show ?thesis by (simp add: fits_def maxReadLen_def maxAttstnBodyLen_def b64_EncodedLen_def)
qed

text \<open>
  The document of the public attestation endpoint has the shape of a leader's. Presented to a
  leader in place of a worker's document it makes the type assertion panic.
\<close>

lemma nitro_client_document:
  assumes "issues t0 our verify ourRegs" "attests our" "issues t their verify theirRegs"
    and "arePCRsIdentical ourRegs theirRegs"
    and "nitro_createAttstn their (ClientAux c) = Inr doc" "wf_nonce (ca_clientNonce c)"
  shows "nitro_verifyAttstn our verify t doc (ca_clientNonce c) =
    Inr (LeaderAux \<lparr>la_WorkersNonce = ca_clientNonce c,
                    la_HashOfEncrypted = Some (ca_attestationHashes c)\<rparr>)"
  using nitro_verify_issued [OF assms(1-3,5)] assms(4,6) by (simp add: attestation_request_def)

lemma syncWith_wrong_role:
  assumes "newNonce rnd = Inr n"
    and "cl_Get client (worker\<lparr>u_RawQuery := nonce_query n\<rparr>) x = (x', Inr resp)"
    and "hr_StatusCode resp = StatusOK"
    and "io_ReadAll (newLimitReader (hr_Body resp) maxReadLen) =
      (attstnBody_Marshal \<lparr>ab_Document = b64_EncodeToString doc, ab_EncryptedKeys = []\<rparr>, None)"
    and "verify doc n = Inr (LeaderAux l)"
  shows "syncWith create verify box client rnd keys worker x = Panics (x', None)"
  using assms by (simp add: syncWith_def b64_roundtrip)

text \<open>A worker is safe from that document: it is twice as long as a hash.\<close>

lemma finishSync_client_document:
  assumes "wk_nonce s = Some n"
    and "io_ReadAll (newLimitReader (rq_Body r) maxReadLen) =
      (attstnBody_Marshal \<lparr>ab_Document = b64_EncodeToString doc,
         ab_EncryptedKeys = b64_EncodeToString encrypted\<rparr>, None)"
    and "verify doc n = Inr (LeaderAux \<lparr>la_WorkersNonce = n, la_HashOfEncrypted = Some (Serialize h)\<rparr>)"
    and "wf_hashes h"
  shows "finishSync verify box inst r (s, e) =
    Returned ((s\<lparr>wk_nonce := None\<rparr>, e), http_Error ErrHashNotInAttstn StatusBadRequest newResponse)"
proof -
  have "sha256_Sum256 encrypted \<noteq> Serialize h"
  proof
    assume "sha256_Sum256 encrypted = Serialize h"
    then have "length (Serialize h) = 32" by (metis length_sha256)
    with length_Serialize [OF assms(4)] show False by simp
  qed
  with assms(1-3) show ?thesis by (simp add: finishSync_def b64_roundtrip slice_bytes_def)
qed

text \<open>A verification that fails uses up the nonce but not the key: the worker is wedged.\<close>

lemma finishSync_rejects:
  assumes "wk_nonce s = Some n" "wk_ephemeralKeys s = Some k"
    and "io_ReadAll (newLimitReader (rq_Body r) maxReadLen) = (body, None)"
    and "b64_DecodeString (ab_Document (fst (attstnBody_Unmarshal body))) = Inr doc"
    and "verify doc n = Inl err"
  shows "\<exists>w. finishSync verify box inst r (s, e) = Returned ((s\<lparr>wk_nonce := None\<rparr>, e), w)
    \<and> rs_status w = StatusBadRequest \<and> wedged (s\<lparr>wk_nonce := None\<rparr>)"
  using assms by (auto simp: finishSync_def wedged_def split: prod.splits option.splits)

end
