(* ===== verification/Doubles.thy ===== *)
theory Doubles
  imports Sync
begin

text \<open>
  Concrete stand-ins for the code outside the repository: a security module that issues documents in
  JSON, the verification that reads them, and a box that prefixes the public key. They satisfy the
  documented behaviour that the theorems assume of the real ones, so the assumptions can hold
  together; nothing else is claimed of them.
\<close>

section \<open>Definitions\<close>

definition sim_encode :: "attRequest \<Rightarrow> bytes" where
  "sim_encode req =
     keys_Marshal \<lparr>NitridingKey = ar_Nonce req, NitridingCert = ar_UserData req, AppKeys = ar_PublicKey req\<rparr>"

definition sim_nsm :: nsm where
  "sim_nsm = \<lparr>nsm_OpenDefaultSession = None, nsm_Send = (\<lambda>req. Inr (Some (Some (sim_encode req))))\<rparr>"

definition sim_nitrite :: "pcrs \<Rightarrow> nitrite" where
  "sim_nitrite regs t doc =
     (case keys_Unmarshal doc of
        (k, Some e) \<Rightarrow> Inl e
      | (k, None) \<Rightarrow> Inr \<lparr>doc_PCRs = regs, doc_Nonce = NitridingKey k, doc_UserData = NitridingCert k,
                         doc_PublicKey = AppKeys k\<rparr>)"

definition sim_box :: nacl where
  "sim_box =
     \<lparr>box_SealAnonymous = (\<lambda>m pub. Inr (pub @ m)),
      box_OpenAnonymous = (\<lambda>c pub priv. if take (length pub) c = pub then Some (drop (length pub) c) else None)\<rparr>"

definition sim_rand :: "byte \<Rightarrow> rand" where
  "sim_rand b n = (replicate n b, None)"

definition sim_fresh :: fresh where
  "sim_fresh = \<lparr>fr_rand = sim_rand 2, fr_boxKey = Inr (replicate 32 3, replicate 32 4)\<rparr>"

section \<open>They behave as documented\<close>

lemma sim_issues: "issues t sim_nsm (sim_nitrite regs) regs"
  by (simp add: issues_def sim_nsm_def sim_nitrite_def sim_encode_def keys_codec.dec_enc)

lemma sim_create: "nitro_createAttstn sim_nsm aux = Inr (sim_encode (attestation_request aux))"
  by (simp add: nitro_createAttstn_def sim_nsm_def)

lemma sim_attests: "attests sim_nsm"
  by (simp add: attests_def sim_create)

lemma sim_opens: "opens_sealed sim_box pub priv"
  by (simp add: opens_sealed_def sim_box_def)

lemma sim_newNonce: "newNonce (sim_rand b) = Inr (replicate 20 b)"
  by (simp add: newNonce_Inr sim_rand_def wf_nonce_def nonceLen_def)

section \<open>Sizes\<close>

lemma length_slice_json:
  "length (json_print (slice_json s)) = (case s of None \<Rightarrow> 4 | Some bs \<Rightarrow> b64_EncodedLen (length bs) + 2)"
  by (simp add: slice_json_def length_quote list_all_html_safe_b64 split: option.splits)

lemma length_keys:
  "length (keys_Marshal k) = 48 + length (json_print (slice_json (NitridingKey k)))
     + length (json_print (slice_json (NitridingCert k))) + length (json_print (slice_json (AppKeys k)))"
proof -
  have "list_all html_safe ''nitriding_key''" "list_all html_safe ''nitriding_cert''"
    "list_all html_safe ''app_keys''"
    by (simp_all add: html_safe_def)
  from this [THEN length_quote] show ?thesis
    by (simp add: keys_Marshal_def json_Marshal_def keys_json_def)
qed

lemma length_sim_worker:
  "length (sim_encode (attestation_request (WorkerAux \<lparr>wa_WorkersNonce = replicate 20 a,
     wa_LeadersNonce = replicate 20 b, wa_PublicKey = Some (replicate 32 c)\<rparr>))) = 154"
  by (simp add: sim_encode_def attestation_request_def length_keys length_slice_json b64_EncodedLen_def)

lemma length_sim_leader:
  "length (sim_encode (attestation_request (LeaderAux \<lparr>la_WorkersNonce = replicate 20 a,
     la_HashOfEncrypted = Some (sha256_Sum256 m)\<rparr>))) = 134"
  by (simp add: sim_encode_def attestation_request_def length_keys length_slice_json b64_EncodedLen_def
      padding_length)

lemma maxReadLen_value: "maxReadLen = 21848"
  by (simp add: maxReadLen_def maxAttstnBodyLen_def b64_EncodedLen_def)

text \<open>Some keys of moderate size, and the documents of a run with them.\<close>

definition sim_keys :: "bytes \<Rightarrow> enclaveKeys" where
  "sim_keys app = \<lparr>NitridingKey = Some [7], NitridingCert = Some [8], AppKeys = Some app\<rparr>"

lemma sim_sealed: "box_SealAnonymous sim_box (keys_Marshal keys) pub = Inr (pub @ keys_Marshal keys)"
  by (simp add: sim_box_def)

lemma sim_fits: "length app \<le> 3 \<Longrightarrow> fits (sim_encode (attestation_request (LeaderAux
    \<lparr>la_WorkersNonce = replicate 20 a, la_HashOfEncrypted = Some (sha256_Sum256 m)\<rparr>)))
  (replicate 32 3 @ keys_Marshal (sim_keys app))"
proof -
  assume "length app \<le> 3"
  then have "(length app + 2) div 3 \<le> 1" by linarith
  then have "b64_EncodedLen (length app) \<le> 4" by (simp add: b64_EncodedLen_def)
  then have "length (replicate 32 3 @ keys_Marshal (sim_keys app)) \<le> 200"
    by (simp add: length_keys sim_keys_def length_slice_json) (simp add: b64_EncodedLen_def)
  then have "b64_EncodedLen (length (replicate 32 3 @ keys_Marshal (sim_keys app))) \<le> b64_EncodedLen 200"
    by (rule b64_EncodedLen_mono)
  then show ?thesis
    by (simp add: fits_def length_sim_leader maxReadLen_value) (simp add: b64_EncodedLen_def)
qed

section \<open>A run with the stand-ins\<close>

lemma sim_key_sync:
  "key_sync (nitro_createAttstn sim_nsm) (nitro_verifyAttstn sim_nsm (sim_nitrite []) t)
     (nitro_createAttstn sim_nsm) (nitro_verifyAttstn sim_nsm (sim_nitrite []) t')"
  by (rule nitro_key_sync [OF sim_issues sim_attests sim_issues sim_attests])
    (simp_all add: arePCRsIdentical_def)

lemma idle_asWorker: "idle asWorker"
  by (simp add: idle_def asWorker_def)

lemma sim_run:
  assumes "length app \<le> 3" "inst (sim_keys app) e = (e', None)"
  shows "run_sync (nitro_createAttstn sim_nsm) (nitro_verifyAttstn sim_nsm (sim_nitrite []) t)
      (nitro_createAttstn sim_nsm) (nitro_verifyAttstn sim_nsm (sim_nitrite []) t')
      sim_box render bytes_reader inst sim_fresh (sim_rand 1) (sim_keys app) u (asWorker, e) =
    Returned ((asWorker, e'), None)"
proof -
  have "b64_EncodedLen 154 + 36 \<le> maxReadLen" by (simp add: maxReadLen_value b64_EncodedLen_def)
  then show ?thesis
    using key_sync.run_honest [OF sim_key_sync faithful_delivery_bytes_reader idle_asWorker
        sim_newNonce [of 1], of sim_fresh "replicate 20 2" "replicate 32 3" "replicate 32 4" sim_box _
        "sim_keys app" "replicate 32 3 @ keys_Marshal (sim_keys app)" _ t t' render inst u e] assms
    by (simp add: sim_fresh_def sim_newNonce sim_opens sim_create sim_sealed sim_fits length_sim_worker
        boxKeyLen_def)
qed

end
