(* ===== verification/Workers.thy ===== *)
theory Workers
  imports Http "HOL-Library.AList"
begin

text \<open>
  The worker manager of the leader (src/workers.go): the set of registered workers with the time
  of their last heartbeat, the event loop that owns it, and the blocking calls by which handlers
  talk to the loop over unbuffered channels. The event loop refines an abstract registry, a map
  from workers to times; the channel protocol of \<^verbatim>\<open>length\<close> is a step relation over the loop and
  any number of callers.
\<close>

section \<open>The worker set\<close>

text \<open>
  \<^verbatim>\<open>type workers map[url.URL]time.Time\<close> as the list of its entries; times and durations are
  nanoseconds.
\<close>

type_synonym workers = "(url \<times> int) list"

definition wf_workers :: "workers \<Rightarrow> bool" where
  "wf_workers s = distinct (map fst s)"

definition ws_register :: "url \<Rightarrow> int \<Rightarrow> workers \<Rightarrow> workers" where
  "ws_register worker now s = AList.update worker now s"

definition ws_unregister :: "url \<Rightarrow> workers \<Rightarrow> workers" where
  "ws_unregister worker s = AList.delete worker s"

fun ws_prune :: "int \<Rightarrow> int \<Rightarrow> workers \<Rightarrow> workers" where
  "ws_prune timeout now [] = []"
| "ws_prune timeout now ((worker, lastSeen) # rest) =
     (if now - lastSeen > timeout then ws_prune timeout now rest
      else (worker, lastSeen) # ws_prune timeout now rest)"

text \<open>
  \<^verbatim>\<open>runForAll\<close> starts one goroutine per worker: the list of their arguments. The module requires a
  version of Go whose loops have a new variable in each iteration, so that the pointers differ.
\<close>

definition runForAll :: "workers \<Rightarrow> url list" where
  "runForAll s = map fst s"

section \<open>The event loop\<close>

text \<open>
  What the loop's \<^verbatim>\<open>select\<close> can receive. The ticker and the registration carry the time that
  \<^verbatim>\<open>time.Now()\<close> returns in their branch.
\<close>

datatype wm_event =
    Stopped
  | Tick int
  | Reg url int
  | Unreg url
  | ForAll
  | Len

datatype wm_effect = Spawned "url list" | Replied nat

record workerManager =
  wm_timeout :: int
  wm_set :: workers
  wm_running :: bool

definition newWorkerManager :: "int \<Rightarrow> workerManager" where
  "newWorkerManager timeout = \<lparr>wm_timeout = timeout, wm_set = [], wm_running = False\<rparr>"

text \<open>\<^verbatim>\<open>start\<close> begins with an empty set.\<close>

definition wm_start :: "workerManager \<Rightarrow> workerManager" where
  "wm_start w = w\<lparr>wm_set := [], wm_running := True\<rparr>"

fun wm_step :: "workerManager \<Rightarrow> wm_event \<Rightarrow> workerManager \<times> wm_effect list" where
  "wm_step w Stopped = (w\<lparr>wm_running := False\<rparr>, [])"
| "wm_step w (Tick now) = (w\<lparr>wm_set := ws_prune (wm_timeout w) now (wm_set w)\<rparr>, [])"
| "wm_step w (Reg worker now) = (w\<lparr>wm_set := ws_register worker now (wm_set w)\<rparr>, [])"
| "wm_step w (Unreg worker) = (w\<lparr>wm_set := ws_unregister worker (wm_set w)\<rparr>, [])"
| "wm_step w ForAll = (w, [Spawned (runForAll (wm_set w))])"
| "wm_step w Len = (w, [Replied (length (wm_set w))])"

text \<open>The loop runs until it is stopped; what comes later is never received.\<close>

fun wm_loop :: "workerManager \<Rightarrow> wm_event list \<Rightarrow> workerManager \<times> wm_effect list" where
  "wm_loop w [] = (w, [])"
| "wm_loop w (e # es) =
     (if \<not> wm_running w then (w, [])
      else (let (w1, out1) = wm_step w e; (w2, out2) = wm_loop w1 es in (w2, out1 @ out2)))"

section \<open>The abstract registry\<close>

text \<open>The contract: when each worker was last seen, as a map.\<close>

fun registry_step :: "int \<Rightarrow> (url \<rightharpoonup> int) \<Rightarrow> wm_event \<Rightarrow> (url \<rightharpoonup> int)" where
  "registry_step timeout m (Tick now) =
     (\<lambda>u. case m u of None \<Rightarrow> None | Some t \<Rightarrow> if now - t > timeout then None else Some t)"
| "registry_step timeout m (Reg worker now) = m(worker \<mapsto> now)"
| "registry_step timeout m (Unreg worker) = m(worker := None)"
| "registry_step timeout m _ = m"

locale worker_registry =
  fixes lookup :: "'s \<Rightarrow> url \<Rightarrow> int option"
    and register :: "url \<Rightarrow> int \<Rightarrow> 's \<Rightarrow> 's"
    and unregister :: "url \<Rightarrow> 's \<Rightarrow> 's"
    and prune :: "int \<Rightarrow> int \<Rightarrow> 's \<Rightarrow> 's"
    and members :: "'s \<Rightarrow> url list"
    and invar :: "'s \<Rightarrow> bool"
  assumes lookup_register: "invar s \<Longrightarrow> lookup (register u t s) = (lookup s)(u \<mapsto> t)"
    and lookup_unregister: "invar s \<Longrightarrow> lookup (unregister u s) = (lookup s)(u := None)"
    and lookup_prune: "invar s \<Longrightarrow> lookup (prune d now s) = registry_step d (lookup s) (Tick now)"
    and members_lookup: "invar s \<Longrightarrow> set (members s) = dom (lookup s)"
    and members_distinct: "invar s \<Longrightarrow> distinct (members s)"
    and invar_register: "invar s \<Longrightarrow> invar (register u t s)"
    and invar_unregister: "invar s \<Longrightarrow> invar (unregister u s)"
    and invar_prune: "invar s \<Longrightarrow> invar (prune d now s)"
begin

lemma register_member: "invar s \<Longrightarrow> u \<in> set (members (register u t s))"
  by (simp add: members_lookup lookup_register invar_register)

text \<open>Registering again does not create a second entry.\<close>

lemma register_length:
  assumes "invar s"
  shows "length (members (register u t s)) =
    (if u \<in> set (members s) then length (members s) else Suc (length (members s)))"
proof -
  have "length (members s') = card (dom (lookup s'))" if "invar s'" for s'
    using that members_lookup members_distinct distinct_card by metis
  moreover have "finite (dom (lookup s))" using members_lookup [OF assms] by (metis List.finite_set)
  ultimately show ?thesis
    using assms by (auto simp: lookup_register invar_register members_lookup insert_absorb)
qed

lemma unregister_member: "invar s \<Longrightarrow> u \<notin> set (members (unregister u s))"
  by (simp add: members_lookup lookup_unregister invar_unregister)

lemma prune_member:
  "invar s \<Longrightarrow> u \<in> set (members (prune d now s)) \<longleftrightarrow> (\<exists>t. lookup s u = Some t \<and> now - t \<le> d)"
  by (auto simp: members_lookup lookup_prune invar_prune split: option.splits if_splits)

end

section \<open>Lemmas: the set and the loop\<close>

lemma map_of_prune:
  "wf_workers s \<Longrightarrow> map_of (ws_prune d now s) = registry_step d (map_of s) (Tick now)"
proof (induction s rule: ws_prune.induct)
  case (2 d now worker lastSeen rest)
  then have "worker \<notin> fst ` set rest" by (simp add: wf_workers_def)
  then have "map_of rest worker = None" by (simp add: map_of_eq_None_iff)
  with 2 show ?case by (auto simp: fun_eq_iff wf_workers_def)
qed auto

lemma set_prune: "set (map fst (ws_prune d now s)) \<subseteq> set (map fst s)"
  by (induction d now s rule: ws_prune.induct) auto

lemma wf_prune: "wf_workers s \<Longrightarrow> wf_workers (ws_prune d now s)"
proof (induction d now s rule: ws_prune.induct)
  case (2 d now worker lastSeen rest)
  then show ?case using set_prune [of d now rest] by (auto simp: wf_workers_def)
qed simp

interpretation ws: worker_registry map_of ws_register ws_unregister ws_prune runForAll wf_workers
proof
  fix s u t d now
  assume wf: "wf_workers s"
  show "map_of (ws_register u t s) = (map_of s)(u \<mapsto> t)"
    by (simp add: ws_register_def update_conv')
  show "map_of (ws_unregister u s) = (map_of s)(u := None)"
    by (simp add: ws_unregister_def delete_conv')
  show "map_of (ws_prune d now s) = registry_step d (map_of s) (Tick now)"
    using wf by (rule map_of_prune)
  show "set (runForAll s) = dom (map_of s)" by (simp add: runForAll_def dom_map_of_conv_image_fst)
  show "distinct (runForAll s)" using wf by (simp add: runForAll_def wf_workers_def)
  show "wf_workers (ws_register u t s)"
    using wf by (simp add: wf_workers_def ws_register_def distinct_update)
  show "wf_workers (ws_unregister u s)"
    using wf by (simp add: wf_workers_def ws_unregister_def distinct_delete)
  show "wf_workers (ws_prune d now s)" using wf by (rule wf_prune)
qed

lemma wm_step_timeout [simp]: "wm_timeout (fst (wm_step w e)) = wm_timeout w"
  by (cases e) simp_all

lemma wm_step_wf: "wf_workers (wm_set w) \<Longrightarrow> wf_workers (wm_set (fst (wm_step w e)))"
  by (cases e) (simp_all add: ws.invar_register ws.invar_unregister ws.invar_prune)

lemma wm_step_refines:
  "wf_workers (wm_set w) \<Longrightarrow>
   map_of (wm_set (fst (wm_step w e))) = registry_step (wm_timeout w) (map_of (wm_set w)) e"
  by (cases e)
    (simp_all add: ws.lookup_register ws.lookup_unregister ws.lookup_prune del: registry_step.simps(1))

lemma wm_step_running: "wm_running (fst (wm_step w e)) = (wm_running w \<and> e \<noteq> Stopped)"
  by (cases e) simp_all

lemma wm_loop_fst: "fst (wm_loop w (e # es)) = (if wm_running w then fst (wm_loop (fst (wm_step w e)) es) else w)"
  by (simp add: case_prod_beta)

declare wm_loop.simps(2) [simp del]

lemma wm_loop_wf: "wf_workers (wm_set w) \<Longrightarrow> wf_workers (wm_set (fst (wm_loop w es)))"
  by (induction es arbitrary: w) (simp_all add: wm_loop_fst wm_step_wf)

text \<open>The loop refines the registry over whole runs.\<close>

lemma wm_loop_refines:
  assumes "wf_workers (wm_set w)" "wm_running w" "Stopped \<notin> set es"
  shows "map_of (wm_set (fst (wm_loop w es))) = foldl (registry_step (wm_timeout w)) (map_of (wm_set w)) es
    \<and> wm_running (fst (wm_loop w es))"
  using assms
proof (induction es arbitrary: w)
  case (Cons e es)
  then have "wf_workers (wm_set (fst (wm_step w e)))" "wm_running (fst (wm_step w e))"
    by (auto simp: wm_step_wf wm_step_running)
  with Cons show ?case by (simp add: wm_loop_fst wm_step_refines)
qed simp

section \<open>Properties\<close>

text \<open>C15: The event loop implements the registry: after any events before a stop, its set is the map
  obtained by applying the abstract registry's steps, one by one, and no worker has two entries.\<close>

theorem worker_manager_refines:
  assumes "Stopped \<notin> set es"
  shows "let w = fst (wm_loop (wm_start (newWorkerManager timeout)) es) in
    map_of (wm_set w) = foldl (registry_step timeout) Map.empty es \<and> distinct (map fst (wm_set w))"
proof -
  let ?w = "wm_start (newWorkerManager timeout)"
  have "wf_workers (wm_set ?w)" "wm_running ?w" "wm_timeout ?w = timeout" "map_of (wm_set ?w) = Map.empty"
    by (simp_all add: wm_start_def newWorkerManager_def wf_workers_def)
  with wm_loop_refines [OF _ _ assms, of ?w] wm_loop_wf [of ?w es] show ?thesis
    by (simp add: Let_def wf_workers_def)
qed

theorem worker_manager_refines_witness:
  "let u = \<lparr>u_Scheme = [], u_Host = ''a'', u_Path = [], u_RawQuery = []\<rparr>;
       w = fst (wm_loop (wm_start (newWorkerManager 60)) [Reg u 0, Tick 61]) in
   map_of (wm_set w) = foldl (registry_step 60) Map.empty [Reg u 0, Tick 61] \<and> distinct (map fst (wm_set w))"
  using worker_manager_refines [of "[Reg u 0, Tick 61]" 60 for u] by simp

text \<open>A tick of the timer removes exactly the workers whose last heartbeat is older than the
  timeout.\<close>

theorem tick_prunes_exactly:
  assumes "wf_workers (wm_set w)"
  shows "u \<in> set (runForAll (wm_set (fst (wm_step w (Tick now))))) \<longleftrightarrow>
    (\<exists>t. map_of (wm_set w) u = Some t \<and> now - t \<le> wm_timeout w)"
  using ws.prune_member [OF assms] by simp

theorem tick_prunes_exactly_witness:
  "let u = \<lparr>u_Scheme = [], u_Host = ''a'', u_Path = [], u_RawQuery = []\<rparr>;
       w = \<lparr>wm_timeout = 60, wm_set = [(u, 5)], wm_running = True\<rparr> in
   u \<in> set (runForAll (wm_set (fst (wm_step w (Tick 65))))) \<and>
   u \<notin> set (runForAll (wm_set (fst (wm_step w (Tick 66)))))"
  unfolding Let_def by (subst (1 2) tick_prunes_exactly) (simp_all add: wf_workers_def)

text \<open>Registering a worker again only refreshes its time: the set grows by one for a new worker and
  not at all for a known one, and the worker is a member afterwards.\<close>

theorem register_is_idempotent:
  assumes "wf_workers (wm_set w)"
  shows "length (wm_set (fst (wm_step w (Reg u now)))) =
      (if u \<in> set (runForAll (wm_set w)) then length (wm_set w) else Suc (length (wm_set w)))
    \<and> u \<in> set (runForAll (wm_set (fst (wm_step w (Reg u now)))))"
  using ws.register_length [OF assms, of u now] ws.register_member [OF assms, of u now]
  by (simp add: runForAll_def)

theorem register_is_idempotent_witness:
  "length (wm_set (fst (wm_step (wm_start (newWorkerManager 60))
     (Reg \<lparr>u_Scheme = [], u_Host = ''a'', u_Path = [], u_RawQuery = []\<rparr> 1)))) = 1"
  using register_is_idempotent [of "wm_start (newWorkerManager 60)"
      "\<lparr>u_Scheme = [], u_Host = ''a'', u_Path = [], u_RawQuery = []\<rparr>" 1]
  by (simp add: wm_start_def newWorkerManager_def wf_workers_def runForAll_def)

end
