(* ===== verification/Config.thy ===== *)
theory Config
  imports Http
begin

text \<open>
  The configuration of the enclave (src/enclave.go, \<^verbatim>\<open>Config\<close>), how the command line becomes one
  (src/main.go), the URLs that are derived from it, and the routes that \<^verbatim>\<open>NewEnclave\<close> registers.
  Ports keep their width, so the conversions of \<^verbatim>\<open>main\<close> may wrap; the lemmas show that its checks
  keep them from doing so.
\<close>

section \<open>Configuration\<close>

text \<open>The two URL fields hold the rendered URL; \<open>None\<close> is \<^verbatim>\<open>nil\<close>.\<close>

record Config =
  FQDN :: string
  FQDNLeader :: string
  ExtPubPort :: "16 word"
  ExtPrivPort :: "16 word"
  IntPort :: "16 word"
  UseVsockForExtPort :: bool
  DisableKeepAlives :: bool
  HostProxyPort :: "32 word"
  PrometheusPort :: "16 word"
  PrometheusNamespace :: string
  UseProfiling :: bool
  UseACME :: bool
  Debug :: bool
  FdCur :: "64 word"
  FdMax :: "64 word"
  AppURL :: "string option"
  AppWebSrv :: "string option"
  WaitForApp :: bool
  MockCertFp :: string

definition Validate :: "Config \<Rightarrow> go_error option" where
  "Validate c =
     (if ExtPubPort c = 0 \<or> IntPort c = 0 \<or> HostProxyPort c = 0 then Some ErrCfgMissingPort
      else if FQDN c = [] then Some ErrCfgMissingFQDN
      else None)"

definition isScalingEnabled :: "Config \<Rightarrow> bool" where
  "isScalingEnabled c = (FQDNLeader c \<noteq> [])"

section \<open>The command line\<close>

text \<open>\<^verbatim>\<open>uint\<close> has 64 bits; the parsed flags with the values that \<^verbatim>\<open>flag\<close> leaves in them.\<close>

record flags =
  fl_fqdn :: string
  fl_fqdnLeader :: string
  fl_appURL :: string
  fl_appWebSrv :: string
  fl_appCmd :: string
  fl_prometheusNamespace :: string
  fl_extPubPort :: "64 word"
  fl_extPrivPort :: "64 word"
  fl_intPort :: "64 word"
  fl_hostProxyPort :: "64 word"
  fl_prometheusPort :: "64 word"
  fl_disableKeepAlives :: bool
  fl_useVsockForExtPort :: bool
  fl_useProfiling :: bool
  fl_useACME :: bool
  fl_waitForApp :: bool
  fl_debug :: bool
  fl_mockCertFp :: string

definition default_flags :: flags where
  "default_flags =
     \<lparr>fl_fqdn = [], fl_fqdnLeader = [], fl_appURL = [], fl_appWebSrv = [], fl_appCmd = [],
      fl_prometheusNamespace = [], fl_extPubPort = 443, fl_extPrivPort = 444, fl_intPort = 8080,
      fl_hostProxyPort = 1024, fl_prometheusPort = 0, fl_disableKeepAlives = False,
      fl_useVsockForExtPort = False, fl_useProfiling = False, fl_useACME = False,
      fl_waitForApp = False, fl_debug = False, fl_mockCertFp = []\<rparr>"

abbreviation "MaxUint16 \<equiv> (65535 :: 64 word)"
abbreviation "MaxUint32 \<equiv> (4294967295 :: 64 word)"

text \<open>
  \<^verbatim>\<open>main\<close> up to the call of \<^verbatim>\<open>NewEnclave\<close>: a message of \<^verbatim>\<open>elog.Fatalf\<close>, or the configuration.
  \<^verbatim>\<open>url.Parse\<close> followed by rendering is the argument \<open>parse\<close>.
\<close>

definition main_config :: "(string \<Rightarrow> string res) \<Rightarrow> flags \<Rightarrow> string + Config" where
  "main_config parse f =
     (if fl_fqdn f = [] then Inl ''-fqdn must be set.''
      else if fl_extPubPort f < 1 \<or> fl_extPubPort f > MaxUint16 then
        Inl ''-extport must be in interval [1, 65535]''
      else if fl_extPrivPort f < 1 \<or> fl_extPrivPort f > MaxUint16 then
        Inl ''-extPrivPort must be in interval [1, 65535]''
      else if fl_intPort f < 1 \<or> fl_intPort f > MaxUint16 then
        Inl ''-intport must be in interval [1, 65535]''
      else if fl_hostProxyPort f < 1 \<or> fl_hostProxyPort f > MaxUint32 then
        Inl ''-host-proxy-port must be in interval [1, 4294967295]''
      else if fl_prometheusPort f > MaxUint16 then
        Inl ''-prometheus-port must be in interval [1, 65535]''
      else if fl_prometheusPort f \<noteq> 0 \<and> fl_prometheusNamespace f = [] then
        Inl ''-prometheus-namespace must be set when Prometheus is used.''
      else
        (let c = \<lparr>FQDN = fl_fqdn f, FQDNLeader = fl_fqdnLeader f,
                  ExtPubPort = ucast (fl_extPubPort f), ExtPrivPort = ucast (fl_extPrivPort f),
                  IntPort = ucast (fl_intPort f), UseVsockForExtPort = fl_useVsockForExtPort f,
                  DisableKeepAlives = fl_disableKeepAlives f,
                  HostProxyPort = ucast (fl_hostProxyPort f),
                  PrometheusPort = ucast (fl_prometheusPort f),
                  PrometheusNamespace = fl_prometheusNamespace f,
                  UseProfiling = fl_useProfiling f, UseACME = fl_useACME f, Debug = fl_debug f,
                  FdCur = 0, FdMax = 0, AppURL = None, AppWebSrv = None,
                  WaitForApp = fl_waitForApp f, MockCertFp = fl_mockCertFp f\<rparr> in
         case (if fl_appURL f = [] then Inr None else map_sum id Some (parse (fl_appURL f))) of
           Inl e \<Rightarrow> Inl ''Failed to parse application URL''
         | Inr app \<Rightarrow>
             (case (if fl_appWebSrv f = [] then Inr None else map_sum id Some (parse (fl_appWebSrv f))) of
                Inl e \<Rightarrow> Inl ''Failed to parse URL of Web server''
              | Inr web \<Rightarrow> Inr (c\<lparr>AppURL := app, AppWebSrv := web\<rparr>))))"

section \<open>URLs\<close>

definition pathRoot :: string where "pathRoot = ''/enclave''"
definition pathAttestation :: string where "pathAttestation = ''/enclave/attestation''"
definition pathState :: string where "pathState = ''/enclave/state''"
definition pathSync :: string where "pathSync = ''/enclave/sync''"
definition pathHash :: string where "pathHash = ''/enclave/hash''"
definition pathReady :: string where "pathReady = ''/enclave/ready''"
definition pathProfiling :: string where "pathProfiling = ''/enclave/debug''"
definition pathConfig :: string where "pathConfig = ''/enclave/config''"
definition pathLeader :: string where "pathLeader = ''/enclave/leader''"
definition pathHeartbeat :: string where "pathHeartbeat = ''/enclave/heartbeat''"
definition pathProxy :: string where "pathProxy = ''/*''"

lemmas path_defs = pathRoot_def pathAttestation_def pathState_def pathSync_def pathHash_def
  pathReady_def pathProfiling_def pathConfig_def pathLeader_def pathHeartbeat_def pathProxy_def

definition getSyncURL :: "string \<Rightarrow> 16 word \<Rightarrow> url" where
  "getSyncURL host port =
     \<lparr>u_Scheme = ''https'', u_Host = host @ '':'' @ show_nat (unat port), u_Path = pathSync,
      u_RawQuery = []\<rparr>"

definition getLeader :: "Config \<Rightarrow> string \<Rightarrow> url" where
  "getLeader c path =
     \<lparr>u_Scheme = ''https'', u_Host = FQDNLeader c @ '':'' @ show_nat (unat (ExtPrivPort c)),
      u_Path = path, u_RawQuery = []\<rparr>"

section \<open>Routes\<close>

text \<open>
  The handlers by name; \<open>Gone\<close> is the one that \<^verbatim>\<open>weAreLeader\<close> leaves behind. A route has the
  method it is registered for, or none for \<^verbatim>\<open>Handle\<close> and \<^verbatim>\<open>Mount\<close>, which match every method.
\<close>

datatype handler =
    AttestationHandler | RootHandler | ConfigHandler | SyncHandler | ReadyHandler
  | GetStateHandler | PutStateHandler | HashHandler | RevProxy | Profiler
  | LeaderHandler | Gone | HeartbeatHandler

datatype server = ExtPub | ExtPriv | Internal

type_synonym route = "string option \<times> string \<times> handler"

definition initial_routes :: "Config \<Rightarrow> server \<Rightarrow> route list" where
  "initial_routes cfg srv =
     (case srv of
        ExtPub \<Rightarrow>
          (if UseProfiling cfg then [(None, pathProfiling, Profiler)] else [])
          @ [(Some ''GET'', pathAttestation, AttestationHandler), (Some ''GET'', pathRoot, RootHandler),
             (Some ''GET'', pathConfig, ConfigHandler)]
          @ (if AppWebSrv cfg \<noteq> None then [(None, pathProxy, RevProxy)] else [])
      | ExtPriv \<Rightarrow> [(None, pathSync, SyncHandler)]
      | Internal \<Rightarrow>
          (if WaitForApp cfg then [(Some ''GET'', pathReady, ReadyHandler)] else [])
          @ [(Some ''GET'', pathState, GetStateHandler), (Some ''PUT'', pathState, PutStateHandler),
             (Some ''POST'', pathHash, HashHandler)])"

text \<open>Registering a handler for a method and path again replaces the one that was there.\<close>

definition set_route :: "string option \<Rightarrow> string \<Rightarrow> handler \<Rightarrow> route list \<Rightarrow> route list" where
  "set_route m p h rs = filter (\<lambda>r. \<not> (fst r = m \<and> fst (snd r) = p)) rs @ [(m, p, h)]"

section \<open>Lemmas\<close>

lemma ucast_exact:
  fixes w :: "64 word"
  assumes "w \<le> 65535"
  shows "unat (ucast w :: 16 word) = unat w"
proof -
  have "unat w \<le> 65535" using assms by (simp add: word_le_nat_alt)
  then show ?thesis by (simp add: unsigned_ucast_eq take_bit_eq_mod)
qed

lemma ucast_exact32:
  fixes w :: "64 word"
  assumes "w \<le> 4294967295"
  shows "unat (ucast w :: 32 word) = unat w"
proof -
  have "unat w \<le> 4294967295" using assms by (simp add: word_le_nat_alt)
  then show ?thesis by (simp add: unsigned_ucast_eq take_bit_eq_mod)
qed

lemma main_config_Inr:
  assumes "main_config parse f = Inr c"
  shows "fl_fqdn f \<noteq> []" "FQDN c = fl_fqdn f" "FQDNLeader c = fl_fqdnLeader f"
    and "fl_extPubPort f \<noteq> 0 \<and> fl_extPubPort f \<le> MaxUint16 \<and> ExtPubPort c = ucast (fl_extPubPort f)"
    and "fl_extPrivPort f \<noteq> 0 \<and> fl_extPrivPort f \<le> MaxUint16 \<and> ExtPrivPort c = ucast (fl_extPrivPort f)"
    and "fl_intPort f \<noteq> 0 \<and> fl_intPort f \<le> MaxUint16 \<and> IntPort c = ucast (fl_intPort f)"
    and "fl_hostProxyPort f \<noteq> 0 \<and> fl_hostProxyPort f \<le> MaxUint32
      \<and> HostProxyPort c = ucast (fl_hostProxyPort f)"
    and "fl_prometheusPort f \<le> MaxUint16 \<and> PrometheusPort c = ucast (fl_prometheusPort f)"
    and "PrometheusPort c \<noteq> 0 \<longrightarrow> PrometheusNamespace c \<noteq> []"
  using assms unfolding main_config_def Let_def
  by (auto simp: not_less split: if_splits sum.splits)

lemma ports_of_main:
  assumes "main_config parse f = Inr c"
  shows "unat (ExtPubPort c) = unat (fl_extPubPort f)" "unat (ExtPrivPort c) = unat (fl_extPrivPort f)"
    "unat (IntPort c) = unat (fl_intPort f)" "unat (HostProxyPort c) = unat (fl_hostProxyPort f)"
    "unat (PrometheusPort c) = unat (fl_prometheusPort f)"
  using main_config_Inr [OF assms] by (simp_all add: ucast_exact ucast_exact32)

lemma config_of_main_valid:
  assumes "main_config parse f = Inr c"
  shows "Validate c = None"
proof -
  note m = main_config_Inr [OF assms] and p = ports_of_main [OF assms]
  have "ExtPubPort c \<noteq> 0" "IntPort c \<noteq> 0" "HostProxyPort c \<noteq> 0"
    using p m by (metis unsigned_0 unsigned_word_eqI)+
  then show ?thesis using m(1,2) by (simp add: Validate_def)
qed

section \<open>Properties\<close>

text \<open>C33: A configuration that \<^verbatim>\<open>main\<close> builds from the command line is always valid, and its ports are the
  numbers given on the command line: no conversion to 16 or 32 bits wraps around.\<close>

theorem main_config_valid:
  assumes "main_config parse f = Inr c"
  shows "Validate c = None \<and> ExtPrivPort c \<noteq> 0
    \<and> unat (ExtPubPort c) = unat (fl_extPubPort f) \<and> unat (ExtPrivPort c) = unat (fl_extPrivPort f)
    \<and> unat (IntPort c) = unat (fl_intPort f) \<and> unat (HostProxyPort c) = unat (fl_hostProxyPort f)
    \<and> unat (PrometheusPort c) = unat (fl_prometheusPort f)"
proof -
  have "ExtPrivPort c \<noteq> 0"
    using ports_of_main(2) [OF assms] main_config_Inr(5) [OF assms] by (metis unsigned_0 unsigned_word_eqI)
  then show ?thesis using ports_of_main [OF assms] config_of_main_valid [OF assms] by simp
qed

theorem main_config_valid_witness:
  "\<exists>c. main_config Inr (default_flags\<lparr>fl_fqdn := ''example.com''\<rparr>) = Inr c \<and> Validate c = None"
proof -
  obtain c where c: "main_config Inr (default_flags\<lparr>fl_fqdn := ''example.com''\<rparr>) = Inr c"
    by (simp add: main_config_def default_flags_def)
  with main_config_valid [OF c] show ?thesis by blast
qed

text \<open>Each check of the command line is needed in the range it has: a port of 65536 would become 0
  and is refused by \<^verbatim>\<open>main\<close>.\<close>

theorem port_overflow_refused:
  assumes "fl_fqdn f \<noteq> []" "fl_extPubPort f > 65535"
  shows "main_config parse f = Inl ''-extport must be in interval [1, 65535]''"
  using assms by (simp add: main_config_def)

theorem port_overflow_refused_witness:
  "main_config Inr (default_flags\<lparr>fl_fqdn := ''a'', fl_extPubPort := 65536\<rparr>)
     = Inl ''-extport must be in interval [1, 65535]''"
  by (rule port_overflow_refused) simp_all

text \<open>The confidential endpoints are never on the public server: what \<^verbatim>\<open>NewEnclave\<close> registers there
  is attestation, index page and configuration, the profiler only when profiling is on, and the
  reverse proxy only when the application has a Web server; state, hash and readiness are on the
  enclave-internal server only.\<close>

theorem confidential_routes:
  "set (map (snd \<circ> snd) (initial_routes cfg ExtPub)) \<subseteq>
     {AttestationHandler, RootHandler, ConfigHandler}
     \<union> (if UseProfiling cfg then {Profiler} else {})
     \<union> (if AppWebSrv cfg \<noteq> None then {RevProxy} else {})
   \<and> set (map (snd \<circ> snd) (initial_routes cfg ExtPriv)) = {SyncHandler}
   \<and> {GetStateHandler, PutStateHandler, HashHandler} \<subseteq> set (map (snd \<circ> snd) (initial_routes cfg Internal))
   \<and> (ReadyHandler \<in> set (map (snd \<circ> snd) (initial_routes cfg Internal)) \<longleftrightarrow> WaitForApp cfg)"
  by (auto simp: initial_routes_def)

end
