(* ===== verification/Handlers.thy ===== *)
theory Handlers
  imports Sync Workers Config
begin

text \<open>
  The HTTP handlers of src/handlers.go, each as a function from the part of the enclave's state it
  works on. A handler that talks to the worker manager does so over unbuffered channels: the call
  is taken by the event loop if that runs, and waits for ever if it does not. Goroutines that a
  handler starts are part of its result.
\<close>

section \<open>Constants and shared definitions\<close>

definition maxKeyMaterialLen :: nat where
  "maxKeyMaterialLen = 1024 * 1024"

definition maxHeartbeatBody :: nat where
  "maxHeartbeatBody = 44 + 255 + 128"

definition indexPage :: string where
  "indexPage = ''This host runs inside an AWS Nitro Enclave.'' @ [CHR 0x0A]"

text \<open>The states the enclave can be in relating to key synchronization.\<close>

datatype syncState = noSync | inProgress | isLeader | isWorker

text \<open>A call into the worker manager's event loop.\<close>

definition wm_call :: "wm_event \<Rightarrow> workerManager \<Rightarrow> (workerManager \<times> wm_effect list) outcome" where
  "wm_call ev w = (if wm_running w then Returned (wm_step w ev) else Blocks (w, []))"

text \<open>The goroutines that handlers start.\<close>

datatype goroutine =
    ForAllResync
  | SyncAndRegister url

section \<open>Index page, configuration and readiness\<close>

definition formatIndexPage :: "string option \<Rightarrow> string" where
  "formatIndexPage appURL =
     (case appURL of
        None \<Rightarrow> indexPage
      | Some u \<Rightarrow>
          indexPage @ [CHR 0x0A] @ ''It runs the following code: '' @ u @ [CHR 0x0A]
          @ ''Use the following tool to verify the enclave: ''
          @ ''https://github.com/brave-experiments/verify-enclave'')"

definition rootHandler :: "Config \<Rightarrow> response" where
  "rootHandler cfg = w_Fprintln (formatIndexPage (AppURL cfg)) newResponse"

text \<open>\<^verbatim>\<open>Config.String\<close> marshals the configuration; its result is the argument.\<close>

definition configHandler :: "string \<Rightarrow> response" where
  "configHandler cfg = w_Fprintln cfg newResponse"

text \<open>The state is whether \<^verbatim>\<open>once\<close> has run, and so whether the channel \<^verbatim>\<open>ready\<close> is closed.\<close>

definition readyHandler :: "bool \<Rightarrow> bool \<times> response" where
  "readyHandler done =
     (let (closed, w) = (if done then (done, newResponse)
                         else (True, w_WriteHeader StatusOK newResponse)) in
      (closed, w_WriteHeader StatusGone w))"

section \<open>Application state\<close>

text \<open>
  Writing to the client may fail or fall short, which ends the process; the result of that
  \<^verbatim>\<open>Write\<close> is an argument.
\<close>

definition getStateHandler ::
    "(bytes \<Rightarrow> nat \<times> go_error option) \<Rightarrow> syncState \<Rightarrow> enclaveKeys \<Rightarrow> response outcome" where
  "getStateHandler write st keys =
     (case st of
        noSync \<Rightarrow> Returned (http_Error ErrKeySyncDisabled StatusForbidden newResponse)
      | isLeader \<Rightarrow> Returned (http_Error ErrEndpointGone StatusGone newResponse)
      | inProgress \<Rightarrow>
          Returned (http_Error ErrDesignationInProgress StatusServiceUnavailable newResponse)
      | isWorker \<Rightarrow>
          (let w = w_SetHeader ''Content-Type'' ''application/octet-stream'' newResponse;
               appKeys = slice_bytes (getAppKeys keys) in
           case write appKeys of
             (n, Some e) \<Rightarrow> Exits (w_Write (take n appKeys) w)
           | (n, None) \<Rightarrow>
               (if n \<noteq> length appKeys then Exits (w_Write (take n appKeys) w)
                else Returned (w_Write appKeys w))))"

definition putStateHandler ::
    "syncState \<Rightarrow> request \<Rightarrow> enclaveKeys \<times> workerManager
     \<Rightarrow> ((enclaveKeys \<times> workerManager \<times> goroutine list) \<times> response) outcome" where
  "putStateHandler st r s =
     (let (keys, workers) = s in
      case st of
        noSync \<Rightarrow>
          Returned ((keys, workers, []), http_Error ErrKeySyncDisabled StatusForbidden newResponse)
      | isWorker \<Rightarrow> Returned ((keys, workers, []), http_Error ErrEndpointGone StatusGone newResponse)
      | inProgress \<Rightarrow>
          Returned ((keys, workers, []),
            http_Error ErrDesignationInProgress StatusServiceUnavailable newResponse)
      | isLeader \<Rightarrow>
          (case io_ReadAll (newLimitReader (rq_Body r) maxKeyMaterialLen) of
             (_, Some e) \<Rightarrow>
               Returned ((keys, workers, []),
                 http_Error ErrFailedReqBody StatusInternalServerError newResponse)
           | (body, None) \<Rightarrow>
               (let keys' = setAppKeys (Some body) keys;
                    w = w_WriteHeader StatusOK newResponse in
                case wm_call Len workers of
                  Returned (workers', eff) \<Rightarrow> Returned ((keys', workers', [ForAllResync]), w)
                | _ \<Rightarrow> Blocks ((keys', workers, []), w))))"

text \<open>
  What the started goroutines do. \<open>ForAllResync\<close> sends a function to the event loop, which starts
  a goroutine of it for each worker; the function synchronizes and unregisters the worker if that
  fails. The state is that of the worker manager and of the world.
\<close>

definition resync ::
    "(auxInfo \<Rightarrow> bytes res) \<Rightarrow> (bytes \<Rightarrow> nonce \<Rightarrow> auxInfo res) \<Rightarrow> nacl \<Rightarrow> 'w client \<Rightarrow> rand
     \<Rightarrow> enclaveKeys \<Rightarrow> url \<Rightarrow> workerManager \<times> 'w \<Rightarrow> (workerManager \<times> 'w) outcome" where
  "resync createAttstn verifyAttstn box client rnd keys worker wx =
     (case syncWith createAttstn verifyAttstn box client rnd keys worker (snd wx) of
        Returned (x, Some e) \<Rightarrow> map_outcome (\<lambda>(w, eff). (w, x)) (wm_call (Unreg worker) (fst wx))
      | out \<Rightarrow> map_outcome (\<lambda>(x, err). (fst wx, x)) out)"

definition syncAndRegister ::
    "(auxInfo \<Rightarrow> bytes res) \<Rightarrow> (bytes \<Rightarrow> nonce \<Rightarrow> auxInfo res) \<Rightarrow> nacl \<Rightarrow> 'w client \<Rightarrow> rand
     \<Rightarrow> int \<Rightarrow> enclaveKeys \<Rightarrow> url \<Rightarrow> workerManager \<times> 'w \<Rightarrow> (workerManager \<times> 'w) outcome" where
  "syncAndRegister createAttstn verifyAttstn box client rnd now keys worker wx =
     (case syncWith createAttstn verifyAttstn box client rnd keys worker (snd wx) of
        Returned (x, None) \<Rightarrow> map_outcome (\<lambda>(w, eff). (w, x)) (wm_call (Reg worker now) (fst wx))
      | out \<Rightarrow> map_outcome (\<lambda>(x, err). (fst wx, x)) out)"

text \<open>
  The goroutines that the event loop started, one after the other. One that waits for ever does
  not keep the others from running; a panic ends the process.
\<close>

fun run_spawned :: "(url \<Rightarrow> 's \<Rightarrow> 's outcome) \<Rightarrow> url list \<Rightarrow> 's \<Rightarrow> 's outcome" where
  "run_spawned f [] s = Returned s"
| "run_spawned f (u # us) s =
     (case f u s of
        Returned s' \<Rightarrow> run_spawned f us s'
      | Blocks s' \<Rightarrow> run_spawned f us s'
      | out \<Rightarrow> out)"

section \<open>The application's key hash\<close>

definition hashHandler :: "request \<Rightarrow> AttestationHashes \<Rightarrow> AttestationHashes \<times> response" where
  "hashHandler r hashes =
     (let (body, err) =
        io_ReadAll (newLimitReader (rq_Body r) (b64_EncodedLen sha256_Size + 1)) in
      if (case err of None \<Rightarrow> False | Some e \<Rightarrow> errors_Is e ErrTooMuchToRead) then
        (hashes, http_Error ErrTooMuchToRead StatusBadRequest newResponse)
      else
        (let w = (case err of
                    None \<Rightarrow> newResponse
                  | Some e \<Rightarrow> http_Error ErrFailedReqBody StatusInternalServerError newResponse) in
         case b64_DecodeString (strings_TrimSpace (bytes_str body)) of
           Inl e \<Rightarrow> (hashes, http_Error ErrNoBase64 StatusBadRequest w)
         | Inr keyHash \<Rightarrow>
             (if length keyHash \<noteq> sha256_Size then
                (hashes, http_Error ErrHashWrongSize StatusBadRequest w)
              else (hashes\<lparr>appKeyHash := go_copy (appKeyHash hashes) keyHash\<rparr>, w))))"

section \<open>Attestation\<close>

definition attestationHandler ::
    "bool \<Rightarrow> AttestationHashes \<Rightarrow> (auxInfo \<Rightarrow> bytes res) \<Rightarrow> request \<Rightarrow> response" where
  "attestationHandler useProfiling hashes createAttstn r =
     (if useProfiling then http_Error ErrProfilingSet StatusServiceUnavailable newResponse
      else
        (case getNonceFromReq r of
           Inl e \<Rightarrow> http_Error e StatusBadRequest newResponse
         | Inr n \<Rightarrow>
             (case createAttstn (ClientAux \<lparr>ca_clientNonce = n,
                                             ca_attestationHashes = Serialize hashes\<rparr>) of
                Inl e \<Rightarrow> http_Error ErrFailedAttestation StatusInternalServerError newResponse
              | Inr rawDoc \<Rightarrow> w_Fprintln (b64_EncodeToString rawDoc) newResponse)))"

section \<open>Heartbeats\<close>

record heartbeatRequest =
  hb_HashedKeys :: string
  hb_WorkerHostname :: string

definition heartbeat_json :: "heartbeatRequest \<Rightarrow> json" where
  "heartbeat_json hb =
     JObj [(''hashed_keys'', JStr (hb_HashedKeys hb)), (''worker_hostname'', JStr (hb_WorkerHostname hb))]"

definition heartbeat_Marshal :: "heartbeatRequest \<Rightarrow> bytes" where
  "heartbeat_Marshal hb = json_Marshal (heartbeat_json hb)"

definition heartbeat_field ::
    "string \<Rightarrow> json \<Rightarrow> heartbeatRequest decoding \<Rightarrow> heartbeatRequest decoding" where
  "heartbeat_field k v st =
     (if same_field ''hashed_keys'' k then
        store_in hb_HashedKeys (\<lambda>f x. x\<lparr>hb_HashedKeys := f\<rparr>) store_string v st
      else if same_field ''worker_hostname'' k then
        store_in hb_WorkerHostname (\<lambda>f x. x\<lparr>hb_WorkerHostname := f\<rparr>) store_string v st
      else st)"

definition heartbeat_Unmarshal :: "bytes \<Rightarrow> heartbeatRequest decoding" where
  "heartbeat_Unmarshal bs =
     json_Unmarshal heartbeat_field bs \<lparr>hb_HashedKeys = [], hb_WorkerHostname = []\<rparr>"

definition getWorker :: "16 word \<Rightarrow> heartbeatRequest \<Rightarrow> url res" where
  "getWorker extPrivPort hb =
     (case net_SplitHostPort (hb_WorkerHostname hb) of
        Inl e \<Rightarrow> Inl e
      | Inr (host, _) \<Rightarrow> Inr (getSyncURL host extPrivPort))"

definition heartbeatHandler ::
    "16 word \<Rightarrow> enclaveKeys \<Rightarrow> int \<Rightarrow> request \<Rightarrow> workerManager
     \<Rightarrow> ((workerManager \<times> goroutine list) \<times> response) outcome" where
  "heartbeatHandler extPrivPort keys now r workers =
     (case io_ReadAll (newLimitReader (rq_Body r) maxHeartbeatBody) of
        (_, Some e) \<Rightarrow>
          Returned ((workers, []), http_Error ErrFailedReqBody StatusInternalServerError newResponse)
      | (body, None) \<Rightarrow>
          (case heartbeat_Unmarshal body of
             (_, Some e) \<Rightarrow> Returned ((workers, []), http_Error e StatusBadRequest newResponse)
           | (hb, None) \<Rightarrow>
               (case getWorker extPrivPort hb of
                  Inl e \<Rightarrow>
                    Returned ((workers, []), http_Error e StatusInternalServerError newResponse)
                | Inr worker \<Rightarrow>
                    (if hashAndB64 keys \<noteq> hb_HashedKeys hb then
                       Returned ((workers, [SyncAndRegister worker]), w_WriteHeader StatusOK newResponse)
                     else
                       (case wm_call (Reg worker now) workers of
                          Returned (workers', eff) \<Rightarrow>
                            Returned ((workers', []), w_WriteHeader StatusOK newResponse)
                        | _ \<Rightarrow> Blocks ((workers, []), newResponse))))))"

section \<open>Leader designation\<close>

definition getLeaderHandler ::
    "nonce \<Rightarrow> request \<Rightarrow> unit chan1 \<Rightarrow> (unit chan1 \<times> response) outcome" where
  "getLeaderHandler ourNonce r weAreLeader =
     (case getNonceFromReq r of
        Inl e \<Rightarrow> Returned (weAreLeader, http_Error e StatusBadRequest newResponse)
      | Inr theirNonce \<Rightarrow>
          (if ourNonce = theirNonce then
             (if chan_len weAreLeader = 0 then
                (case chan_send () weAreLeader of
                   None \<Rightarrow> Blocks (weAreLeader, newResponse)
                 | Some c \<Rightarrow> Returned (c, w_WriteHeader StatusOK newResponse))
              else Returned (weAreLeader, w_WriteHeader StatusOK newResponse))
           else Returned (weAreLeader, w_WriteHeader StatusOK newResponse)))"

section \<open>Lemmas\<close>

lemma wm_call_running [simp]: "wm_running w \<Longrightarrow> wm_call ev w = Returned (wm_step w ev)"
  by (simp add: wm_call_def)

lemma wm_call_stopped [simp]: "\<not> wm_running w \<Longrightarrow> wm_call ev w = Blocks (w, [])"
  by (simp add: wm_call_def)

lemma readyHandler_first: "readyHandler False = (True, w_WriteHeader StatusOK newResponse)"
  by (simp add: readyHandler_def w_WriteHeader_def)

lemma readyHandler_again: "readyHandler True = (True, w_WriteHeader StatusGone newResponse)"
  by (simp add: readyHandler_def)

lemma hashHandler_keeps: "tlsKeyHash (fst (hashHandler r h)) = tlsKeyHash h"
  by (auto simp: hashHandler_def Let_def split: prod.splits sum.splits option.splits)

lemma hashHandler_wf: "wf_hashes h \<Longrightarrow> wf_hashes (fst (hashHandler r h))"
  by (auto simp: hashHandler_def Let_def wf_hashes_def split: prod.splits sum.splits option.splits)

lemma hashHandler_changes:
  assumes "wf_hashes h" "fst (hashHandler r h) \<noteq> h"
  shows "\<exists>body err. io_ReadAll (newLimitReader (rq_Body r) 45) = (body, err)
    \<and> length body \<le> 45
    \<and> b64_DecodeString (strings_TrimSpace (bytes_str body)) = Inr (appKeyHash (fst (hashHandler r h)))"
proof -
  obtain body err where b: "io_ReadAll (newLimitReader (rq_Body r) 45) = (body, err)"
    by (metis prod.exhaust)
  then have b': "io_ReadAll (newLimitReader (rq_Body r) (b64_EncodedLen sha256_Size + 1)) = (body, err)"
    by (simp add: b64_EncodedLen_def sha256_Size_def)
  have "length body \<le> 45" using io_ReadAll_bound [of "rq_Body r" 45] b by simp
  with assms b b' show ?thesis
    by (auto simp: hashHandler_def Let_def wf_hashes_def split: sum.splits option.splits if_splits)
qed

lemma hashHandler_accepts:
  assumes "length hash = sha256_Size" "wf_hashes h" "faithful_delivery deliver"
    and "rq_Body r = deliver (str_bytes (b64_EncodeToString hash) @ nl)" "nl = [] \<or> nl = [0x0A]"
  shows "hashHandler r h = (h\<lparr>appKeyHash := hash\<rparr>, newResponse)"
proof -
  have "io_ReadAll (newLimitReader (rq_Body r) (b64_EncodedLen sha256_Size + 1)) =
      (str_bytes (b64_EncodeToString hash) @ nl, None)"
    using assms(1,5) by (auto simp: assms(4) ReadAll_delivered [OF assms(3)])
  moreover have nonempty: "b64_EncodeToString hash \<noteq> []"
  proof
    assume "b64_EncodeToString hash = []"
    then have "b64_EncodedLen (length hash) = 0" by (metis length_b64 list.size(3))
    with assms(1) show False by (simp add: sha256_Size_def b64_EncodedLen_def)
  qed
  moreover have "strings_TrimSpace (bytes_str (str_bytes (b64_EncodeToString hash) @ nl)) =
      b64_EncodeToString hash"
    using assms(5) TrimSpace_plain [OF b64_plain [of hash]] nonempty
    by (auto simp: bytes_str_newline)
  ultimately show ?thesis
    using assms(1,2) by (simp add: hashHandler_def b64_roundtrip wf_hashes_def)
qed

text \<open>The JSON of a heartbeat survives the trip for any two ASCII strings.\<close>

interpretation hb_codec: json_codec heartbeat_Marshal heartbeat_Unmarshal
  "\<lambda>hb. ascii (hb_HashedKeys hb) \<and> ascii (hb_WorkerHostname hb)"
proof
  fix x :: heartbeatRequest
  assume a: "ascii (hb_HashedKeys x) \<and> ascii (hb_WorkerHostname x)"
  have "heartbeat_Unmarshal (heartbeat_Marshal x) = fold (\<lambda>(k, v). heartbeat_field k v)
     [(''hashed_keys'', JStr (hb_HashedKeys x)), (''worker_hostname'', JStr (hb_WorkerHostname x))]
     (\<lparr>hb_HashedKeys = [], hb_WorkerHostname = []\<rparr>, None)"
    unfolding heartbeat_Unmarshal_def heartbeat_Marshal_def heartbeat_json_def
    using a by (intro json_Unmarshal_Marshal) (simp_all add: ascii_def maxNestingDepth_def)
  then show "heartbeat_Unmarshal (heartbeat_Marshal x) = (x, None)"
    by (simp add: heartbeat_field_def same_field_def store_in_def store_string_def)
qed

lemma ReadAll_broken:
  assumes "length bs \<le> limit" "length bs \<le> 512" "bs \<noteq> []" "0 < limit - length bs" "e \<noteq> EOF"
  shows "io_ReadAll (newLimitReader [Chunk bs, Final [] e] limit) = (bs, Some e)"
proof -
  have "lr_Read \<lparr>lr_Reader = [Chunk bs, Final [] e], lr_Limit = limit\<rparr> 512 =
      ((bs, None), \<lparr>lr_Reader = [Final [] e], lr_Limit = limit - length bs\<rparr>)"
    using assms by (auto simp: lr_Read_def)
  moreover have "lr_Read \<lparr>lr_Reader = [Final [] e], lr_Limit = limit - length bs\<rparr> n =
      (([], Some e), \<lparr>lr_Reader = [Final [] e], lr_Limit = limit - length bs\<rparr>)" for n
    using assms by (auto simp: lr_Read_def)
  ultimately show ?thesis
    using assms(5) unfolding io_ReadAll_def newLimitReader_def
    by (subst read_all.simps, simp add: read_all_spare_def)
      (subst read_all.simps, simp add: read_all_spare_def)
qed

lemma length_heartbeat:
  assumes "list_all html_safe (hb_HashedKeys hb)" "list_all html_safe (hb_WorkerHostname hb)"
  shows "length (heartbeat_Marshal hb) = length (hb_HashedKeys hb) + length (hb_WorkerHostname hb) + 39"
proof -
  have "list_all html_safe ''hashed_keys''" "list_all html_safe ''worker_hostname''"
    by (simp_all add: html_safe_def)
  from this [THEN length_quote] show ?thesis
    by (simp add: heartbeat_Marshal_def json_Marshal_def heartbeat_json_def length_quote assms)
qed

lemma html_safe_ascii: "list_all html_safe s \<Longrightarrow> ascii s"
  by (auto simp: list_all_iff html_safe_def ascii_def)

text \<open>What the leader does with a well-formed heartbeat.\<close>

lemma heartbeat_handled:
  assumes "faithful_delivery deliver" "rq_Body r = deliver (heartbeat_Marshal hb)"
    and "list_all html_safe (hb_HashedKeys hb)" "list_all html_safe (hb_WorkerHostname hb)"
    and "length (heartbeat_Marshal hb) \<le> maxHeartbeatBody"
    and "getWorker port hb = Inr worker" "wm_running w"
  shows "heartbeatHandler port keys now r w =
    Returned (if hashAndB64 keys = hb_HashedKeys hb then (fst (wm_step w (Reg worker now)), [])
              else (w, [SyncAndRegister worker]), w_WriteHeader StatusOK newResponse)"
proof -
  have "io_ReadAll (newLimitReader (rq_Body r) maxHeartbeatBody) = (heartbeat_Marshal hb, None)"
    using assms(5) by (simp add: assms(2) ReadAll_delivered [OF assms(1)])
  moreover have "heartbeat_Unmarshal (heartbeat_Marshal hb) = (hb, None)"
    using assms(3,4) by (intro hb_codec.dec_enc) (simp add: html_safe_ascii)
  ultimately show ?thesis
    using assms(6,7) by (simp add: heartbeatHandler_def)
qed

lemma heartbeat_length:
  assumes "list_all html_safe host" "length host \<le> 255"
  shows "length (heartbeat_Marshal \<lparr>hb_HashedKeys = hashAndB64 keys,
           hb_WorkerHostname = u_Host (getSyncURL host port)\<rparr>) \<le> 344"
proof -
  have d: "length (show_nat n) \<le> 5" if "n < 100000" for n
    using that show_nat.simps [of n] show_nat.simps [of "n div 10"] show_nat.simps [of "n div 10 div 10"]
      show_nat.simps [of "n div 10 div 10 div 10"] show_nat.simps [of "n div 10 div 10 div 10 div 10"]
    by (auto simp: div_mult2_eq [symmetric])
  have "unat port < 65536" using unsigned_less [where ?'a = nat and w = port] by simp
  then have "length (show_nat (unat port)) \<le> 5" by (intro d) simp
  moreover have "list_all html_safe (show_nat n)" for n
    using show_nat_digits [of n] by (auto simp: list_all_iff is_digit_def html_safe_def)
  moreover have "list_all html_safe (hashAndB64 keys)"
    by (simp add: hashAndB64_def list_all_html_safe_b64)
  ultimately show ?thesis
    using assms length_hashAndB64 [of keys]
    by (simp add: length_heartbeat getSyncURL_def html_safe_def)
qed

text \<open>
  Re-synchronizing different workers one after the other, when each synchronization returns and
  concerns only the part of the world that belongs to its worker.
\<close>

lemma run_resync:
  assumes "\<And>u x. u \<in> set us \<Longrightarrow>
      syncWith create verify box client (rnd u) keys u x = Returned (x(u := fst (out u (x u))), snd (out u (x u)))"
    and "wm_running w" "wf_workers (wm_set w)" "distinct us"
  shows "\<exists>w'. run_spawned (\<lambda>u. resync create verify box client (rnd u) keys u) us (w, x) =
      Returned (w', \<lambda>u. if u \<in> set us then fst (out u (x u)) else x u)
    \<and> map_of (wm_set w') =
        (\<lambda>u. if u \<in> set us \<and> snd (out u (x u)) \<noteq> None then None else map_of (wm_set w) u)"
  using assms
proof (induction us arbitrary: w x)
  case (Cons u us)
  define x1 where "x1 = x(u := fst (out u (x u)))"
  define w1 where "w1 = (if snd (out u (x u)) = None then w else fst (wm_step w (Unreg u)))"
  have one: "resync create verify box client (rnd u) keys u (w, x) = Returned (w1, x1)"
    using Cons.prems(1) [of u x] Cons.prems(2)
    by (simp add: resync_def x1_def w1_def del: fun_upd_apply split: option.splits)
  have inv: "wm_running w1" "wf_workers (wm_set w1)"
    using Cons.prems(2,3) by (simp_all add: w1_def ws.invar_unregister)
  have reg: "map_of (wm_set w1) v = (if v = u \<and> snd (out u (x u)) \<noteq> None then None else map_of (wm_set w) v)" for v
    using Cons.prems(2,3) by (auto simp: w1_def ws.lookup_unregister)
  have x1: "x1 v = (if v = u then fst (out u (x u)) else x v)" for v by (simp add: x1_def)
  obtain w' where rest: "run_spawned (\<lambda>u. resync create verify box client (rnd u) keys u) us (w1, x1) =
      Returned (w', \<lambda>v. if v \<in> set us then fst (out v (x1 v)) else x1 v)"
    "map_of (wm_set w') = (\<lambda>v. if v \<in> set us \<and> snd (out v (x1 v)) \<noteq> None then None else map_of (wm_set w1) v)"
    using Cons.IH [OF Cons.prems(1) inv, of x1] Cons.prems(4) by auto
  show ?case
  proof (intro exI conjI)
    show "run_spawned (\<lambda>u. resync create verify box client (rnd u) keys u) (u # us) (w, x) =
        Returned (w', \<lambda>v. if v \<in> set (u # us) then fst (out v (x v)) else x v)"
      using Cons.prems(4) by (auto simp: one rest(1) x1 fun_eq_iff)
    show "map_of (wm_set w') =
        (\<lambda>v. if v \<in> set (u # us) \<and> snd (out v (x v)) \<noteq> None then None else map_of (wm_set w) v)"
      using Cons.prems(4) by (auto simp: rest(2) reg x1 fun_eq_iff)
  qed
qed simp

section \<open>Properties\<close>

text \<open>The application's state is readable on a worker only and writable on a leader only. Without key
  synchronization both endpoints answer 403, while the designation is in progress 503, and in the
  wrong role 410; a worker's answer is exactly its application keys, and no refused request changes
  anything.\<close>

theorem state_endpoints_gated:
  "getStateHandler (\<lambda>bs. (length bs, None)) st keys =
     Returned (case st of
       noSync \<Rightarrow> http_Error ErrKeySyncDisabled StatusForbidden newResponse
     | inProgress \<Rightarrow> http_Error ErrDesignationInProgress StatusServiceUnavailable newResponse
     | isLeader \<Rightarrow> http_Error ErrEndpointGone StatusGone newResponse
     | isWorker \<Rightarrow> w_Write (slice_bytes (AppKeys keys))
         (w_SetHeader ''Content-Type'' ''application/octet-stream'' newResponse))
   \<and> (st = isLeader \<or> (\<exists>w. putStateHandler st r (keys, workers) = Returned ((keys, workers, []), w)
        \<and> rs_status w = (case st of noSync \<Rightarrow> 403 | inProgress \<Rightarrow> 503 | _ \<Rightarrow> 410)))"
  by (cases st) (simp_all add: getStateHandler_def putStateHandler_def getAppKeys_def)

text \<open>C20: A leader that is sent new application state of at most 1 MiB stores exactly those bytes, keeps
  the TLS key and certificate, answers 200 and re-synchronizes its workers; a longer body is
  refused with 500 and changes nothing.\<close>

theorem put_state_exact:
  assumes "faithful_delivery deliver" "rq_Body r = deliver body" "wm_running workers"
  shows "putStateHandler isLeader r (keys, workers) =
    (if length body \<le> 1024 * 1024
     then Returned ((keys\<lparr>AppKeys := Some body\<rparr>, workers, [ForAllResync]),
                    w_WriteHeader StatusOK newResponse)
     else Returned ((keys, workers, []),
                    http_Error ErrFailedReqBody StatusInternalServerError newResponse))"
  using assms(3)
  by (simp add: putStateHandler_def assms(2) ReadAll_delivered [OF assms(1)] maxKeyMaterialLen_def
      setAppKeys_def)

theorem put_state_exact_witness:
  "putStateHandler isLeader
     \<lparr>rq_Method = ''PUT'', rq_URL = \<lparr>u_Scheme = [], u_Host = [], u_Path = pathState, u_RawQuery = []\<rparr>,
      rq_Body = bytes_reader [1, 2, 3]\<rparr> (noKeys, wm_start (newWorkerManager 60)) =
   Returned ((noKeys\<lparr>AppKeys := Some [1, 2, 3]\<rparr>, wm_start (newWorkerManager 60), [ForAllResync]),
     w_WriteHeader StatusOK newResponse)"
  by (subst put_state_exact [OF faithful_delivery_bytes_reader, where body = "[1, 2, 3]"])
    (simp_all add: wm_start_def)

text \<open>When a worker manager's event loop has ended, storing application state still takes effect but
  the request is never answered.\<close>

theorem put_state_after_stop_blocks:
  assumes "faithful_delivery deliver" "rq_Body r = deliver body" "length body \<le> 1024 * 1024"
    and "\<not> wm_running workers"
  shows "putStateHandler isLeader r (keys, workers) =
    Blocks ((keys\<lparr>AppKeys := Some body\<rparr>, workers, []), w_WriteHeader StatusOK newResponse)"
  using assms(3,4)
  by (simp add: putStateHandler_def assms(2) ReadAll_delivered [OF assms(1)] maxKeyMaterialLen_def
      setAppKeys_def)

theorem put_state_after_stop_blocks_witness:
  "putStateHandler isLeader
     \<lparr>rq_Method = ''PUT'', rq_URL = \<lparr>u_Scheme = [], u_Host = [], u_Path = pathState, u_RawQuery = []\<rparr>,
      rq_Body = bytes_reader [1]\<rparr> (noKeys, newWorkerManager 60) =
   Blocks ((noKeys\<lparr>AppKeys := Some [1]\<rparr>, newWorkerManager 60, []), w_WriteHeader StatusOK newResponse)"
  by (rule put_state_after_stop_blocks [OF faithful_delivery_bytes_reader])
    (simp_all add: newWorkerManager_def)

text \<open>A Base64-encoded hash of 32 bytes, with or without a newline and in any chunks, is registered
  as given, and the TLS certificate's hash stays.\<close>

theorem hash_registered:
  assumes "length hash = 32" "wf_hashes h" "faithful_delivery deliver"
    and "rq_Body r = deliver (str_bytes (b64_EncodeToString hash) @ nl)" "nl = [] \<or> nl = [0x0A]"
  shows "hashHandler r h = (h\<lparr>appKeyHash := hash\<rparr>, newResponse)"
  using assms by (intro hashHandler_accepts) (simp_all add: sha256_Size_def)

theorem hash_registered_witness:
  "hashHandler \<lparr>rq_Method = ''POST'',
      rq_URL = \<lparr>u_Scheme = [], u_Host = [], u_Path = pathHash, u_RawQuery = []\<rparr>,
      rq_Body = bytes_reader (str_bytes (b64_EncodeToString (replicate 32 9)) @ [0x0A])\<rparr> newAttestationHashes
   = (newAttestationHashes\<lparr>appKeyHash := replicate 32 9\<rparr>, newResponse)"
  by (rule hash_registered [OF _ wf_newAttestationHashes faithful_delivery_bytes_reader, where nl = "[0x0A]"])
    simp_all

text \<open>C18: Whatever is posted, the registered hash keeps 32 bytes, the TLS hash is untouched, and a change
  of the hash comes from a body of at most 45 bytes that is, up to surrounding white space, the
  Base64 form of the new hash.\<close>

theorem hash_change_is_valid:
  assumes "wf_hashes h"
  shows "wf_hashes (fst (hashHandler r h)) \<and> tlsKeyHash (fst (hashHandler r h)) = tlsKeyHash h
    \<and> (fst (hashHandler r h) \<noteq> h \<longrightarrow>
        (\<exists>body err. io_ReadAll (newLimitReader (rq_Body r) 45) = (body, err) \<and> length body \<le> 45
          \<and> b64_DecodeString (strings_TrimSpace (bytes_str body)) = Inr (appKeyHash (fst (hashHandler r h)))))"
  using hashHandler_wf [OF assms] hashHandler_keeps hashHandler_changes [OF assms] by blast

theorem hash_change_is_valid_witness:
  "wf_hashes (fst (hashHandler \<lparr>rq_Method = ''POST'',
      rq_URL = \<lparr>u_Scheme = [], u_Host = [], u_Path = pathHash, u_RawQuery = []\<rparr>,
      rq_Body = [Chunk [1, 2, 3]]\<rparr> newAttestationHashes))"
  using hash_change_is_valid [OF wf_newAttestationHashes] by blast

text \<open>The hash is set even when reading the body fails after the hash has arrived: the client is
  told 500, and the new hash is in force.\<close>

theorem hash_set_despite_error:
  assumes "length hash = 32" "wf_hashes h" "e \<noteq> EOF" "\<not> errors_Is e ErrTooMuchToRead"
    and "rq_Body r = [Chunk (str_bytes (b64_EncodeToString hash)), Final [] e]"
  shows "fst (hashHandler r h) = h\<lparr>appKeyHash := hash\<rparr>
    \<and> rs_status (snd (hashHandler r h)) = StatusInternalServerError"
proof -
  have "io_ReadAll (newLimitReader (rq_Body r) (b64_EncodedLen sha256_Size + 1)) =
      (str_bytes (b64_EncodeToString hash), Some e)"
    unfolding assms(5) using assms(1,3)
    by (intro ReadAll_broken) (auto simp: sha256_Size_def b64_EncodedLen_def str_bytes_def
        dest: arg_cong [where f = length])
  then show ?thesis
    using assms(1,2,4) TrimSpace_plain(1) [OF b64_plain [of hash]]
    by (simp add: hashHandler_def b64_roundtrip wf_hashes_def sha256_Size_def)
qed

theorem hash_set_despite_error_witness:
  "rs_status (snd (hashHandler \<lparr>rq_Method = ''POST'',
      rq_URL = \<lparr>u_Scheme = [], u_Host = [], u_Path = pathHash, u_RawQuery = []\<rparr>,
      rq_Body = [Chunk (str_bytes (b64_EncodeToString (replicate 32 5))), Final [] ErrUnexpectedEOF]\<rparr>
      newAttestationHashes)) = StatusInternalServerError"
  using hash_set_despite_error [of "replicate 32 5" newAttestationHashes ErrUnexpectedEOF
      "\<lparr>rq_Method = ''POST'', rq_URL = \<lparr>u_Scheme = [], u_Host = [], u_Path = pathHash, u_RawQuery = []\<rparr>,
      rq_Body = [Chunk (str_bytes (b64_EncodeToString (replicate 32 5))), Final [] ErrUnexpectedEOF]\<rparr>"]
  by (simp add: wf_newAttestationHashes)

text \<open>A heartbeat always fits the leader's limit: the hash has 44 characters, and with a host name of
  at most 255 characters and any port the request body is at most 344 bytes, below the limit of 427.\<close>

theorem heartbeat_fits:
  assumes "list_all html_safe host" "length host \<le> 255"
  shows "length (heartbeat_Marshal \<lparr>hb_HashedKeys = hashAndB64 keys,
           hb_WorkerHostname = u_Host (getSyncURL host port)\<rparr>) \<le> 344
    \<and> 344 \<le> maxHeartbeatBody"
  using heartbeat_length [OF assms] by (simp add: maxHeartbeatBody_def)

theorem heartbeat_fits_witness:
  "length (heartbeat_Marshal \<lparr>hb_HashedKeys = hashAndB64 noKeys,
     hb_WorkerHostname = u_Host (getSyncURL ''ip-10-0-0-1.ec2.internal'' 444)\<rparr>) \<le> 344"
  using heartbeat_fits [of "''ip-10-0-0-1.ec2.internal''" noKeys 444] by (simp add: html_safe_def)

end
