(* ===== verification/Caches.thy ===== *)
theory Caches
  imports Go_Json "HOL-Library.AList"
begin

text \<open>
  The small stores of the daemon: the expiring cache (src/cache.go), the certificate retriever and
  the in-memory certificate cache (src/certcache.go), and the buffer pool of the reverse proxy
  (src/bufferpool.go). The certificate cache implements the interface \<^verbatim>\<open>autocert.Cache\<close>, stated
  here as a locale. The cache is a transition system, because an item is removed by a goroutine
  that \<^verbatim>\<open>Add\<close> leaves behind.
\<close>

section \<open>The expiring cache\<close>

text \<open>
  Next to the items and their lifetime the state has the goroutines of \<^verbatim>\<open>pruneLater\<close> that still
  sleep, each with its key and the time before which it does not wake up, and the clock.
\<close>

record cache =
  ch_Items :: "(string \<times> int) list"
  ch_TTL :: int
  ch_sleeping :: "(string \<times> int) list"
  ch_now :: int

definition newCache :: "int \<Rightarrow> int \<Rightarrow> cache" where
  "newCache now ttl = \<lparr>ch_Items = [], ch_TTL = ttl, ch_sleeping = [], ch_now = now\<rparr>"

definition cache_Count :: "cache \<Rightarrow> nat" where
  "cache_Count c = length (ch_Items c)"

text \<open>\<^verbatim>\<open>Add\<close> stores the time and spawns \<^verbatim>\<open>pruneLater\<close>, which starts with its sleep.\<close>

definition cache_Add :: "string \<Rightarrow> cache \<Rightarrow> cache" where
  "cache_Add key c =
     c\<lparr>ch_Items := AList.update key (ch_now c) (ch_Items c),
       ch_sleeping := (key, ch_now c + ch_TTL c) # ch_sleeping c\<rparr>"

text \<open>What \<^verbatim>\<open>pruneLater\<close> does once it is awake.\<close>

definition cache_wake :: "string \<times> int \<Rightarrow> cache \<Rightarrow> cache" where
  "cache_wake p c =
     c\<lparr>ch_Items := AList.delete (fst p) (ch_Items c), ch_sleeping := remove1 p (ch_sleeping c)\<rparr>"

definition cache_Exists :: "string \<Rightarrow> cache \<Rightarrow> bool" where
  "cache_Exists key c = (map_of (ch_Items c) key \<noteq> None)"

text \<open>A sleeper wakes up at its time or later; in between, time passes and items are added.\<close>

inductive cache_step :: "cache \<Rightarrow> cache \<Rightarrow> bool" where
  add: "cache_step c (cache_Add key c)"
| wake: "p \<in> set (ch_sleeping c) \<Longrightarrow> snd p \<le> ch_now c \<Longrightarrow> cache_step c (cache_wake p c)"
| pass: "ch_now c \<le> t \<Longrightarrow> cache_step c (c\<lparr>ch_now := t\<rparr>)"

inductive cache_reaches :: "cache \<Rightarrow> cache \<Rightarrow> bool" where
  refl: "cache_reaches c c"
| step: "cache_reaches c d \<Longrightarrow> cache_step d e \<Longrightarrow> cache_reaches c e"

section \<open>Certificates\<close>

text \<open>A certificate is a value of \<^verbatim>\<open>crypto/tls\<close>; its type is a variable.\<close>

record 'c certRetriever =
  cr_cert :: "'c option"

definition certRetriever_set :: "'c option \<Rightarrow> 'c certRetriever \<Rightarrow> 'c certRetriever" where
  "certRetriever_set cert c = c\<lparr>cr_cert := cert\<rparr>"

definition certRetriever_get :: "'c certRetriever \<Rightarrow> 'c res" where
  "certRetriever_get c =
     (case cr_cert c of None \<Rightarrow> Inl ErrUninitializedCert | Some cert \<Rightarrow> Inr cert)"

type_synonym certCache = "(string \<times> slice) list"

definition newCertCache :: certCache where
  "newCertCache = []"

definition certCache_Get :: "string \<Rightarrow> certCache \<Rightarrow> slice res" where
  "certCache_Get key c =
     (case map_of c key of None \<Rightarrow> Inl ErrCacheMiss | Some cert \<Rightarrow> Inr cert)"

definition certCache_Put :: "string \<Rightarrow> slice \<Rightarrow> certCache \<Rightarrow> certCache \<times> go_error option" where
  "certCache_Put key data c = (AList.update key data c, None)"

definition certCache_Delete :: "string \<Rightarrow> certCache \<Rightarrow> certCache \<times> go_error option" where
  "certCache_Delete key c = (AList.delete key c, None)"

text \<open>The documented contract of \<^verbatim>\<open>autocert.Cache\<close>.\<close>

locale autocert_cache =
  fixes Get :: "string \<Rightarrow> 's \<Rightarrow> slice res"
    and Put :: "string \<Rightarrow> slice \<Rightarrow> 's \<Rightarrow> 's \<times> go_error option"
    and Delete :: "string \<Rightarrow> 's \<Rightarrow> 's \<times> go_error option"
    and empty :: 's
  assumes get_empty: "Get key empty = Inl ErrCacheMiss"
    and get_put: "Put key data s = (s', None) \<Longrightarrow> Get k s' = (if k = key then Inr data else Get k s)"
    and get_delete:
      "Delete key s = (s', None) \<Longrightarrow> Get k s' = (if k = key then Inl ErrCacheMiss else Get k s)"
    and put_ok: "snd (Put key data s) = None"
    and delete_ok: "snd (Delete key s) = None"
begin

text \<open>The operations applied in sequence.\<close>

definition run :: "(string \<times> slice option) list \<Rightarrow> 's \<Rightarrow> 's" where
  "run ops s = foldl (\<lambda>s (k, d). case d of Some v \<Rightarrow> fst (Put k v s) | None \<Rightarrow> fst (Delete k s)) s ops"

lemma get_after_put: "Get key (fst (Put key data s)) = Inr data"
  using get_put [of key data s _ key] put_ok [of key data s] by (metis prod.collapse)

lemma get_after_delete: "Get key (fst (Delete key s)) = Inl ErrCacheMiss"
  using get_delete [of key s _ key] delete_ok [of key s] by (metis prod.collapse)

lemma get_put_other: "k \<noteq> key \<Longrightarrow> Get k (fst (Put key data s)) = Get k s"
  using get_put [of key data s _ k] put_ok [of key data s] by (metis prod.collapse)

lemma get_delete_other: "k \<noteq> key \<Longrightarrow> Get k (fst (Delete key s)) = Get k s"
  using get_delete [of key s _ k] delete_ok [of key s] by (metis prod.collapse)

text \<open>A lookup returns what the last operation on its key left.\<close>

lemma get_run:
  "Get k (run ops s) =
   (case map_of (rev ops) k of None \<Rightarrow> Get k s | Some None \<Rightarrow> Inl ErrCacheMiss | Some (Some v) \<Rightarrow> Inr v)"
proof (induction ops rule: rev_induct)
  case (snoc op ops)
  obtain key d where op: "op = (key, d)" by (cases op)
  show ?case
  proof (cases "k = key")
    case True
    with op show ?thesis
      by (cases d) (simp_all add: run_def get_after_put get_after_delete)
  next
    case False
    with op snoc show ?thesis
      by (cases d) (simp_all add: run_def get_put_other get_delete_other)
  qed
qed (simp add: run_def)

end

section \<open>The buffer pool\<close>

definition bufSize :: nat where
  "bufSize = 32 * 1024"

text \<open>
  \<^verbatim>\<open>sync.Pool\<close> hands out one of the stored buffers or a new one, as it likes, and may forget
  stored buffers; its choice is an argument.
\<close>

type_synonym bufPool = "bytes list"

definition newBufPool :: bufPool where
  "newBufPool = []"

definition bufPool_Get :: "nat option \<Rightarrow> bufPool \<Rightarrow> bufPool \<times> bytes" where
  "bufPool_Get choice p =
     (case choice of
        Some i \<Rightarrow>
          (if i < length p then (take i p @ drop (Suc i) p, p ! i) else (p, replicate bufSize 0))
      | None \<Rightarrow> (p, replicate bufSize 0))"

definition bufPool_Put :: "bytes \<Rightarrow> bufPool \<Rightarrow> bufPool" where
  "bufPool_Put buf p = buf # p"

section \<open>Lemmas: the cache\<close>

definition wf_cache :: "cache \<Rightarrow> bool" where
  "wf_cache c \<longleftrightarrow>
     0 \<le> ch_TTL c \<and> distinct (map fst (ch_Items c))
     \<and> (\<forall>k t. map_of (ch_Items c) k = Some t \<longrightarrow> t \<le> ch_now c)"

text \<open>Every stored item has a sleeper that removes it at the end of its lifetime, or before.\<close>

definition covered :: "cache \<Rightarrow> bool" where
  "covered c \<longleftrightarrow>
     (\<forall>k t. map_of (ch_Items c) k = Some t \<longrightarrow> (\<exists>d. (k, d) \<in> set (ch_sleeping c) \<and> d \<le> t + ch_TTL c))"

lemma Exists_Add [simp]: "cache_Exists k (cache_Add key c) = (k = key \<or> cache_Exists k c)"
  by (simp add: cache_Exists_def cache_Add_def update_conv')

lemma Exists_wake [simp]: "cache_Exists k (cache_wake p c) = (k \<noteq> fst p \<and> cache_Exists k c)"
  by (simp add: cache_Exists_def cache_wake_def delete_conv')

lemma Count_wf: "wf_cache c \<Longrightarrow> cache_Count c = card {k. cache_Exists k c}"
  unfolding wf_cache_def cache_Count_def cache_Exists_def
  by (metis (no_types, lifting) Collect_cong distinct_card dom_def dom_map_of_conv_image_fst
      length_map list.set_map)

lemma cache_step_wf: "cache_step c d \<Longrightarrow> wf_cache c \<Longrightarrow> wf_cache d"
proof (induction rule: cache_step.induct)
  case (pass c t)
  then show ?case unfolding wf_cache_def by (auto dest!: spec)
qed (auto simp: wf_cache_def cache_Add_def cache_wake_def update_conv' delete_conv' distinct_update
      distinct_delete split: if_splits)

lemma cache_step_covered:
  assumes "cache_step c d" "covered c"
  shows "covered d"
  using assms
proof (induction rule: cache_step.induct)
  case (wake p c)
  show ?case
    unfolding covered_def
  proof (intro allI impI)
    fix k t assume "map_of (ch_Items (cache_wake p c)) k = Some t"
    then have "k \<noteq> fst p" "map_of (ch_Items c) k = Some t"
      by (auto simp: cache_wake_def delete_conv' split: if_splits)
    with wake(3) obtain d where d: "(k, d) \<in> set (ch_sleeping c)" "d \<le> t + ch_TTL c"
      by (auto simp: covered_def)
    then have "(k, d) \<in> set (ch_sleeping (cache_wake p c))"
      using \<open>k \<noteq> fst p\<close> by (auto simp: cache_wake_def intro: in_set_remove1 [THEN iffD2])
    with d(2) show "\<exists>d. (k, d) \<in> set (ch_sleeping (cache_wake p c))
        \<and> d \<le> t + ch_TTL (cache_wake p c)"
      by (auto simp: cache_wake_def)
  qed
qed (auto simp: covered_def cache_Add_def update_conv' split: if_splits)

lemma cache_reaches_covered: "cache_reaches c d \<Longrightarrow> covered c \<Longrightarrow> covered d"
  by (induction rule: cache_reaches.induct) (auto intro: cache_step_covered)

lemma cache_reaches_wf: "cache_reaches c d \<Longrightarrow> wf_cache c \<Longrightarrow> wf_cache d"
  by (induction rule: cache_reaches.induct) (auto intro: cache_step_wf)

lemma covered_newCache: "covered (newCache now ttl)"
  by (simp add: covered_def newCache_def)

lemma wf_newCache: "0 \<le> ttl \<Longrightarrow> wf_cache (newCache now ttl)"
  by (simp add: wf_cache_def newCache_def)

text \<open>No item outlives its lifetime once the goroutines that are due have run.\<close>

lemma expired_gone:
  assumes "covered c" "\<forall>p\<in>set (ch_sleeping c). ch_now c < snd p"
    and "map_of (ch_Items c) k = Some t"
  shows "ch_now c < t + ch_TTL c"
proof -
  from assms(1,3) obtain d where "(k, d) \<in> set (ch_sleeping c)" "d \<le> t + ch_TTL c"
    by (auto simp: covered_def)
  with assms(2) show ?thesis by fastforce
qed

section \<open>Lemmas: certificates and buffers\<close>

lemma certRetriever_get_set [simp]:
  "certRetriever_get (certRetriever_set (Some cert) c) = Inr cert"
  "certRetriever_get (certRetriever_set None c) = Inl ErrUninitializedCert"
  by (simp_all add: certRetriever_get_def certRetriever_set_def)

interpretation cert: autocert_cache certCache_Get certCache_Put certCache_Delete newCertCache
  by unfold_locales
    (auto simp: certCache_Get_def certCache_Put_def certCache_Delete_def newCertCache_def
      update_conv' delete_conv' split: option.splits if_splits)

definition wf_pool :: "bufPool \<Rightarrow> bool" where
  "wf_pool p = list_all (\<lambda>b. length b = bufSize) p"

lemma wf_pool_Get: "wf_pool p \<Longrightarrow> bufPool_Get choice p = (p', buf) \<Longrightarrow> wf_pool p' \<and> length buf = bufSize"
  unfolding wf_pool_def bufPool_Get_def list_all_iff
  by (auto split: option.splits if_splits) (meson in_set_takeD in_set_dropD)+

lemma wf_pool_Put: "wf_pool p \<Longrightarrow> length buf = bufSize \<Longrightarrow> wf_pool (bufPool_Put buf p)"
  by (simp add: wf_pool_def bufPool_Put_def)

section \<open>Properties\<close>

text \<open>No item outlives its lifetime: in every reachable state in which the goroutines that are due
  have run, an item that still exists was added less than the lifetime ago.\<close>

theorem cache_items_expire:
  assumes "cache_reaches (newCache t0 ttl) c"
    and "\<forall>p\<in>set (ch_sleeping c). ch_now c < snd p" "map_of (ch_Items c) k = Some t"
  shows "ch_now c < t + ch_TTL c"
  using expired_gone [OF cache_reaches_covered [OF assms(1) covered_newCache] assms(2,3)] .

theorem cache_items_expire_witness:
  "ch_now (cache_Add ''n'' (newCache 0 60)) < 0 + ch_TTL (cache_Add ''n'' (newCache 0 60))"
proof (rule cache_items_expire [where ?t0.0 = 0 and ttl = 60 and k = "''n''"])
  show "cache_reaches (newCache 0 60) (cache_Add ''n'' (newCache 0 60))"
    by (rule cache_reaches.step [OF cache_reaches.refl cache_step.add])
qed (simp_all add: cache_Add_def newCache_def)

text \<open>An item that is added again keeps its old goroutine, so it can vanish early: one can reach a
  state, one time unit after the second \<^verbatim>\<open>Add\<close>, in which the item is gone although its lifetime is
  longer than that.\<close>

theorem cache_readd_expires_early:
  assumes "2 \<le> ttl"
  shows "\<exists>c. cache_reaches (cache_Add k ((cache_Add k (newCache 0 ttl))\<lparr>ch_now := ttl - 1\<rparr>)) c
    \<and> ch_now c = ttl \<and> ch_now c < (ttl - 1) + ch_TTL c \<and> \<not> cache_Exists k c"
proof -
  let ?c1 = "cache_Add k ((cache_Add k (newCache 0 ttl))\<lparr>ch_now := ttl - 1\<rparr>)"
  let ?c2 = "?c1\<lparr>ch_now := ttl\<rparr>"
  have "cache_step ?c1 ?c2" by (rule cache_step.pass) (simp add: cache_Add_def newCache_def)
  moreover have "cache_step ?c2 (cache_wake (k, ttl) ?c2)"
    by (rule cache_step.wake) (simp_all add: cache_Add_def newCache_def)
  ultimately have "cache_reaches ?c1 (cache_wake (k, ttl) ?c2)"
    using cache_reaches.step [OF cache_reaches.step [OF cache_reaches.refl]] by blast
  moreover have "ch_now (cache_wake (k, ttl) ?c2) = ttl" "ch_TTL (cache_wake (k, ttl) ?c2) = ttl"
    "\<not> cache_Exists k (cache_wake (k, ttl) ?c2)"
    by (simp_all add: cache_wake_def cache_Add_def newCache_def cache_Exists_def delete_conv')
  ultimately show ?thesis using assms by (intro exI [where x = "cache_wake (k, ttl) ?c2"]) simp
qed

theorem cache_readd_expires_early_witness:
  "\<exists>c. cache_reaches (cache_Add ''n'' ((cache_Add ''n'' (newCache 0 60))\<lparr>ch_now := 60 - 1\<rparr>)) c
    \<and> ch_now c = 60 \<and> ch_now c < (60 - 1) + ch_TTL c \<and> \<not> cache_Exists ''n'' c"
  by (rule cache_readd_expires_early) simp

text \<open>C38: The certificate cache behaves as \<^verbatim>\<open>autocert.Cache\<close> asks: after any sequence of \<^verbatim>\<open>Put\<close> and
  \<^verbatim>\<open>Delete\<close> a \<^verbatim>\<open>Get\<close> returns the data of the last \<^verbatim>\<open>Put\<close> for its key, or a cache miss if that key
  was deleted since or never stored.\<close>

theorem cert_cache_contract:
  "certCache_Get k (foldl (\<lambda>s (k, d). case d of Some v \<Rightarrow> fst (certCache_Put k v s)
       | None \<Rightarrow> fst (certCache_Delete k s)) newCertCache ops) =
   (case map_of (rev ops) k of Some (Some v) \<Rightarrow> Inr v | _ \<Rightarrow> Inl ErrCacheMiss)"
  using cert.get_run [of k ops newCertCache]
  by (simp add: cert.run_def cert.get_empty split: option.splits)

text \<open>Every buffer that the pool hands out has the size the reverse proxy expects, whatever the
  pool chooses to reuse, as long as only such buffers are put back.\<close>

theorem pool_buffers_sized:
  assumes "list_all (\<lambda>b. length b = bufSize) puts"
    and "bufPool_Get choice (fold bufPool_Put puts newBufPool) = (p, buf)"
  shows "length buf = bufSize \<and> wf_pool p"
proof -
  have "wf_pool (fold bufPool_Put puts q)" if "wf_pool q" for q
    using assms(1) that by (induction puts arbitrary: q) (auto intro: wf_pool_Put)
  then have "wf_pool (fold bufPool_Put puts newBufPool)" by (simp add: newBufPool_def wf_pool_def)
  from wf_pool_Get [OF this assms(2)] show ?thesis by simp
qed

theorem pool_buffers_sized_witness:
  "length (replicate bufSize (1 :: byte)) = bufSize \<and> wf_pool []"
  by (rule pool_buffers_sized [where puts = "[replicate bufSize 1]" and choice = "Some 0"])
    (simp_all add: bufPool_Get_def bufPool_Put_def newBufPool_def)

end
