(* ===== verification/Metrics.thy ===== *)
theory Metrics
  imports Http "HOL-Library.Multiset"
begin

text \<open>
  The Prometheus metrics (src/metrics.go). A counter vector is the multiset of the label values it
  was incremented with: the count of an element is the value of that counter, the size of the
  multiset the sum over all of them.
\<close>

section \<open>Definitions\<close>

definition reqPath :: string where "reqPath = ''http_req_path''"
definition reqMethod :: string where "reqMethod = ''http_req_method''"
definition respStatus :: string where "respStatus = ''http_resp_status''"
definition respErr :: string where "respErr = ''http_resp_error''"

definition notAvailable :: string where
  "notAvailable = ''n/a''"

text \<open>The values of a counter's labels, in the order in which the labels were declared.\<close>

type_synonym labels = "string list"

record metrics =
  me_reqs :: "labels multiset"
  me_proxiedReqs :: "labels multiset"
  me_heartbeats :: "labels multiset"

definition newMetrics :: metrics where
  "newMetrics = \<lparr>me_reqs = {#}, me_proxiedReqs = {#}, me_heartbeats = {#}\<rparr>"

text \<open>
  What \<^verbatim>\<open>newMetrics\<close> registers, in order: namespace, name and label names of each counter. A
  registry refuses a second counter with the same namespace and name by a panic.
\<close>

definition registered :: "string \<Rightarrow> (string \<times> string \<times> string list) list" where
  "registered namespace =
     [(namespace, ''proxied_requests'', [reqPath, reqMethod, respStatus, respErr]),
      (namespace, ''requests'', [reqPath, reqMethod, respStatus, respErr]),
      (namespace, ''heartbeats'', [respErr])]"

definition goodHb :: labels where
  "goodHb = [notAvailable]"

text \<open>\<open>render\<close> is \<^verbatim>\<open>Error()\<close>.\<close>

definition badHb :: "(go_error \<Rightarrow> string) \<Rightarrow> go_error \<Rightarrow> labels" where
  "badHb render err = [render err]"

definition checkRevProxyResp :: "request \<Rightarrow> nat \<Rightarrow> metrics \<Rightarrow> metrics" where
  "checkRevProxyResp req code m =
     m\<lparr>me_proxiedReqs := add_mset
         [u_Path (rq_URL req), rq_Method req, show_nat code, notAvailable] (me_proxiedReqs m)\<rparr>"

definition checkRevProxyErr ::
    "(go_error \<Rightarrow> string) \<Rightarrow> request \<Rightarrow> go_error \<Rightarrow> metrics \<times> response \<Rightarrow> metrics \<times> response" where
  "checkRevProxyErr render r err mw =
     ((fst mw)\<lparr>me_proxiedReqs := add_mset
         [u_Path (rq_URL r), rq_Method r, notAvailable, render err] (me_proxiedReqs (fst mw))\<rparr>,
      w_WriteHeader StatusBadGateway (snd mw))"

text \<open>
  The middleware runs the handler with a wrapped writer and counts the request with the status
  that the wrapper reports, once the handler returns; the wrapper is not part of the repository, its
  \<^verbatim>\<open>Status\<close> is an argument.
\<close>

definition middleware ::
    "(response \<Rightarrow> nat) \<Rightarrow> (request \<Rightarrow> metrics \<times> 's \<Rightarrow> ((metrics \<times> 's) \<times> response) outcome)
     \<Rightarrow> request \<Rightarrow> metrics \<times> 's \<Rightarrow> ((metrics \<times> 's) \<times> response) outcome" where
  "middleware ww_Status h r ms =
     (case h r ms of
        Returned ((m, s), w) \<Rightarrow>
          Returned ((m\<lparr>me_reqs := add_mset
                [u_Path (rq_URL r), rq_Method r, show_nat (ww_Status w), notAvailable] (me_reqs m)\<rparr>, s), w)
      | out \<Rightarrow> out)"

text \<open>
  The documented behaviour of the wrapper: the status that was sent, or 0 if none was.
\<close>

definition reports_status :: "(response \<Rightarrow> nat) \<Rightarrow> bool" where
  "reports_status ww_Status \<longleftrightarrow> (\<forall>w. ww_Status w = (case rs_code w of None \<Rightarrow> 0 | Some c \<Rightarrow> c))"

text \<open>
  The reverse proxy with the two hooks installed: the backend answers with a status and a body, or
  cannot be reached.
\<close>

definition revProxy ::
    "(go_error \<Rightarrow> string) \<Rightarrow> (request \<Rightarrow> (nat \<times> bytes) res) \<Rightarrow> request \<Rightarrow> metrics \<times> 's
     \<Rightarrow> (metrics \<times> 's) \<times> response" where
  "revProxy render backend r ms =
     (case backend r of
        Inr (code, body) \<Rightarrow>
          ((checkRevProxyResp r code (fst ms), snd ms), w_Write body (w_WriteHeader code newResponse))
      | Inl err \<Rightarrow>
          (let (m, w) = checkRevProxyErr render r err (fst ms, newResponse) in ((m, snd ms), w)))"

section \<open>Lemmas\<close>

lemma WriteHeader_new [simp]: "rs_code (w_WriteHeader c newResponse) = Some c"
  by (simp add: go_defs)

lemma Write_WriteHeader_new [simp]: "rs_code (w_Write bs (w_WriteHeader c newResponse)) = Some c"
  by (simp add: go_defs)

lemma middleware_Returned:
  "h r ms = Returned ((m, s), w) \<Longrightarrow> middleware st h r ms = Returned
     ((m\<lparr>me_reqs := add_mset [u_Path (rq_URL r), rq_Method r, show_nat (st w), notAvailable] (me_reqs m)\<rparr>, s), w)"
  by (simp add: middleware_def)

lemma middleware_cases:
  "middleware st h r ms = Returned ((m', s), w) \<Longrightarrow>
   \<exists>m. h r ms = Returned ((m, s), w)
     \<and> m' = m\<lparr>me_reqs := add_mset [u_Path (rq_URL r), rq_Method r, show_nat (st w), notAvailable] (me_reqs m)\<rparr>"
  by (auto simp: middleware_def split: outcome.splits)

lemma middleware_other: "(\<nexists>x. h r ms = Returned x) \<Longrightarrow> middleware st h r ms = h r ms"
  by (auto simp: middleware_def split: outcome.splits)

lemma revProxy_reqs [simp]: "me_reqs (fst (fst (revProxy render backend r ms))) = me_reqs (fst ms)"
  by (auto simp: revProxy_def checkRevProxyResp_def checkRevProxyErr_def split: sum.splits)

text \<open>Every recorded observation has a value for each label its counter was declared with.\<close>

definition wf_metrics :: "metrics \<Rightarrow> bool" where
  "wf_metrics m \<longleftrightarrow>
     (\<forall>(ns, name, names)\<in>set (registered []).
        \<forall>vals\<in>#(if name = ''requests'' then me_reqs m else if name = ''proxied_requests'' then me_proxiedReqs m
                else me_heartbeats m). length vals = length names)"

lemma wf_metrics_eq:
  "wf_metrics m \<longleftrightarrow> (\<forall>v\<in>#me_reqs m. length v = 4) \<and> (\<forall>v\<in>#me_proxiedReqs m. length v = 4)
     \<and> (\<forall>v\<in>#me_heartbeats m. length v = 1)"
  by (auto simp: wf_metrics_def registered_def)

section \<open>Properties\<close>

text \<open>The three counters have different names, so that their registration cannot fail, and every
  observation that the code records has exactly one value for each label of its counter, which the
  library requires.\<close>

theorem metrics_labels_match:
  "distinct (map (\<lambda>(ns, name, names). (ns, name)) (registered namespace))
    \<and> wf_metrics newMetrics
    \<and> (wf_metrics m \<longrightarrow> wf_metrics (checkRevProxyResp r code m) \<and> wf_metrics (fst (checkRevProxyErr render r err (m, w)))
        \<and> wf_metrics (fst (fst (reached (middleware st (\<lambda>r ms. Returned (revProxy render backend r ms)) r (m, s)))))
        \<and> (\<forall>ls\<in>{goodHb, badHb render err}. wf_metrics (m\<lparr>me_heartbeats := add_mset ls (me_heartbeats m)\<rparr>)))"
proof -
  have 1: "distinct (map (\<lambda>(ns, name, names). (ns, name)) (registered namespace))" by (simp add: registered_def)
  have 2: "wf_metrics newMetrics" by (simp add: wf_metrics_eq newMetrics_def)
  show ?thesis
    by (simp add: 1 2) (auto simp: wf_metrics_eq checkRevProxyResp_def checkRevProxyErr_def middleware_def revProxy_def
        goodHb_def badHb_def split: sum.splits prod.splits)
qed

theorem metrics_labels_match_witness:
  "wf_metrics (checkRevProxyResp \<lparr>rq_Method = ''GET'', rq_URL = \<lparr>u_Scheme = [], u_Host = [], u_Path = ''/x'',
     u_RawQuery = []\<rparr>, rq_Body = []\<rparr> 200 newMetrics)"
  using metrics_labels_match [where m = newMetrics] by metis

text \<open>The middleware only observes: it passes the handler's outcome, response and state on unchanged,
  counts exactly one request if the handler returned, and none if it did not.\<close>

theorem middleware_observes:
  "map_outcome (\<lambda>((m, s), w). (s, w)) (middleware st h r ms) = map_outcome (\<lambda>((m, s), w). (s, w)) (h r ms)
   \<and> size (me_reqs (fst (fst (reached (middleware st h r ms))))) =
       size (me_reqs (fst (fst (reached (h r ms))))) + (case h r ms of Returned x \<Rightarrow> 1 | _ \<Rightarrow> 0)"
  by (cases "h r ms") (auto simp: middleware_def)

text \<open>A backend that cannot be reached gives the client status 502, one proxied request with the
  error and no status, and one request with status 502.\<close>

theorem unreachable_backend_counted:
  assumes "reports_status ww_Status" "backend r = Inl err"
  shows "\<exists>m' w. middleware ww_Status (\<lambda>r ms. Returned (revProxy render backend r ms)) r (m, s) = Returned ((m', s), w)
    \<and> rs_status w = StatusBadGateway
    \<and> me_proxiedReqs m' =
        add_mset [u_Path (rq_URL r), rq_Method r, notAvailable, render err] (me_proxiedReqs m)
    \<and> me_reqs m' =
        add_mset [u_Path (rq_URL r), rq_Method r, show_nat 502, notAvailable] (me_reqs m)"
  using assms by (simp add: middleware_def revProxy_def checkRevProxyErr_def reports_status_def)

theorem unreachable_backend_counted_witness:
  "\<exists>m' w. middleware (\<lambda>w. case rs_code w of None \<Rightarrow> 0 | Some c \<Rightarrow> c)
       (\<lambda>r ms. Returned (revProxy (\<lambda>_. ''refused'') (\<lambda>_. Inl (ErrExt ''refused'')) r ms))
       \<lparr>rq_Method = ''GET'', rq_URL = \<lparr>u_Scheme = [], u_Host = [], u_Path = ''/x'', u_RawQuery = []\<rparr>, rq_Body = []\<rparr>
       (newMetrics, ()) = Returned ((m', ()), w) \<and> rs_status w = StatusBadGateway"
  using unreachable_backend_counted [of "\<lambda>w. case rs_code w of None \<Rightarrow> 0 | Some c \<Rightarrow> c"
      "\<lambda>_. Inl (ErrExt ''refused'')" "\<lparr>rq_Method = ''GET'', rq_URL = \<lparr>u_Scheme = [], u_Host = [],
        u_Path = ''/x'', u_RawQuery = []\<rparr>, rq_Body = []\<rparr>" "ErrExt ''refused''" "\<lambda>_. ''refused''" newMetrics "()"]
  by (auto simp: reports_status_def)

text \<open>A handler that answers without writing anything is counted with status 0 although the client
  sees 200.\<close>

theorem silent_success_counted_as_0:
  assumes "reports_status ww_Status" "h r ms = Returned (ms', newResponse)"
  shows "\<exists>m' s w. middleware ww_Status h r ms = Returned ((m', s), w) \<and> rs_status w = StatusOK
    \<and> [u_Path (rq_URL r), rq_Method r, show_nat 0, notAvailable] \<in># me_reqs m'"
  using assms by (cases ms') (simp add: middleware_def reports_status_def)

theorem silent_success_counted_as_0_witness:
  "\<exists>m' s w. middleware (\<lambda>w. case rs_code w of None \<Rightarrow> 0 | Some c \<Rightarrow> c) (\<lambda>r ms. Returned (ms, newResponse))
     \<lparr>rq_Method = ''POST'', rq_URL = \<lparr>u_Scheme = [], u_Host = [], u_Path = [], u_RawQuery = []\<rparr>, rq_Body = []\<rparr>
     (newMetrics, ()) = Returned ((m', s), w) \<and> rs_status w = StatusOK"
  using silent_success_counted_as_0 [of "\<lambda>w. case rs_code w of None \<Rightarrow> 0 | Some c \<Rightarrow> c"
      "\<lambda>r ms. Returned (ms, newResponse)" "\<lparr>rq_Method = ''POST'', rq_URL = \<lparr>u_Scheme = [], u_Host = [], u_Path = [],
        u_RawQuery = []\<rparr>, rq_Body = []\<rparr>" "(newMetrics, ())" "(newMetrics, ())"]
  by (auto simp: reports_status_def)

end
