(* ===== verification/Framing.thy ===== *)
theory Framing
  imports Readers Go_Text
begin

text \<open>
  The two goroutines of src/proxy.go that carry Ethernet frames between the TAP device and the
  host: \<^verbatim>\<open>rx\<close> puts a little-endian length in front of every frame it reads from the device,
  \<^verbatim>\<open>tx\<close> takes the stream from the host apart again. Writers are arguments that act on the state of
  the world. Both loops end only by sending an error to their channel, which is their result here.
\<close>

section \<open>Definitions\<close>

definition frameLen :: nat where
  "frameLen = 0xffff"

definition frameSizeLen :: nat where
  "frameSizeLen = 2"

text \<open>A \<^verbatim>\<open>Write\<close> returns how many bytes it took, and an error or none.\<close>

type_synonym 'w writer = "bytes \<Rightarrow> 'w \<Rightarrow> 'w \<times> nat \<times> go_error option"

definition show_int :: "int \<Rightarrow> string" where
  "show_int i = (if i < 0 then CHR ''-'' # show_nat (nat (- i)) else show_nat (nat i))"

definition wrote_error :: "int \<Rightarrow> int \<Rightarrow> go_error" where
  "wrote_error m n = ErrNew (''wrote '' @ show_int m @ '' instead of '' @ show_int n @ '' bytes to host'')"

function rx :: "'w writer \<Rightarrow> reader \<Rightarrow> 'w \<Rightarrow> 'w \<times> go_error" where
  "rx write tap x =
     (case rd_Read tap frameLen of
        ((payload, Some e), tap') \<Rightarrow>
          (x, ErrWrap ''failed to read payload from enclave application'' e)
      | ((payload, None), tap') \<Rightarrow>
          (let n = length payload in
           case write (le_PutUint16 (word_of_nat n) @ payload) x of
             (x', m, Some e) \<Rightarrow> (x', ErrWrap ''failed to write payload to host'' e)
           | (x', m, None) \<Rightarrow>
               (if int m - int frameSizeLen \<noteq> int n
                then (x', wrote_error (int m - int frameSizeLen) (int n))
                else rx write tap' x')))"
  by pat_completeness auto
termination
  by (relation "measure (\<lambda>(write, tap, x). rd_size tap)")
    (auto intro: rd_Read_size [OF sym] simp: frameLen_def)

lemma read_full_size:
  "read_full r n acc = ((bs, None), r') \<Longrightarrow> length acc < n \<Longrightarrow> rd_size r' < rd_size r"
proof (induction r n acc rule: read_full.induct)
  case (1 r n acc)
  obtain cs err r1 where rd: "rd_Read r (n - length acc) = ((cs, err), r1)" by (metis prod.exhaust)
  show ?case
  proof (cases err)
    case None
    with 1(3) rd have lt: "rd_size r1 < rd_size r" by (auto intro: rd_Read_size [of r "n - length acc" cs])
    have eq: "read_full r1 n (acc @ cs) = ((bs, None), r')"
      using 1(2,3) rd None by (simp add: read_full.simps [of r])
    show ?thesis
    proof (cases "length (acc @ cs) < n")
      case True
      with 1(1) [OF _ rd [symmetric] refl None eq] 1(3) lt show ?thesis by simp
    next
      case False
      with eq lt show ?thesis by (simp add: read_full.simps)
    qed
  next
    case (Some e)
    with 1(2,3) rd have "r' = r1" "n \<le> length (acc @ cs)"
      by (auto simp: read_full.simps [of r] split: if_splits)
    with rd Some 1(3) show ?thesis
      by (cases r rule: rd_size.cases) (auto split: if_splits)
  qed
qed

lemma io_ReadFull_size: "io_ReadFull r n = ((bs, None), r') \<Longrightarrow> 0 < n \<Longrightarrow> rd_size r' < rd_size r"
  using read_full_size [of r n "[]"] by (simp add: io_ReadFull_def)

lemma io_ReadFull_size_le: "io_ReadFull r n = ((bs, None), r') \<Longrightarrow> rd_size r' \<le> rd_size r"
  using io_ReadFull_size [of r n bs r']
  by (cases "n = 0") (auto simp: io_ReadFull_def read_full.simps [of r 0])

lemma two_reads_size:
  assumes "io_ReadFull r 2 = ((hdr, None), r1)" "io_ReadFull r1 n = ((bs, None), r2)"
  shows "rd_size r2 < rd_size r"
  using io_ReadFull_size [OF assms(1)] io_ReadFull_size_le [OF assms(2)] by simp

function tx :: "'w writer \<Rightarrow> reader \<Rightarrow> 'w \<Rightarrow> 'w \<times> go_error" where
  "tx write conn x =
     (case io_ReadFull conn frameSizeLen of
        ((hdr, Some e), c1) \<Rightarrow> (x, ErrWrap ''failed to read length from host'' e)
      | ((hdr, None), c1) \<Rightarrow>
          (if length hdr \<noteq> frameSizeLen then
             (x, ErrNew (''received unexpected length '' @ show_nat (length hdr)))
           else
             (let size = unat (le_Uint16 hdr) in
              case io_ReadFull c1 size of
                ((payload, Some e), c2) \<Rightarrow> (x, ErrWrap ''failed to read payload from host'' e)
              | ((payload, None), c2) \<Rightarrow>
                  (let n = length payload in
                   if n = 0 \<or> n \<noteq> size then
                     (x, ErrNew (''expected payload of size '' @ show_nat size @ '' but got '' @ show_nat n))
                   else
                     (case write payload x of
                        (x', m, Some e) \<Rightarrow>
                          (x', ErrWrap ''failed to write payload to enclave application'' e)
                      | (x', m, None) \<Rightarrow>
                          (if m \<noteq> n then (x', wrote_error (int m) (int n))
                           else tx write c2 x'))))))"
  by pat_completeness auto
termination
  by (relation "measure (\<lambda>(write, conn, x). rd_size conn)")
    (auto simp: frameSizeLen_def intro: two_reads_size [OF sym sym])

declare rx.simps [simp del] tx.simps [simp del]

text \<open>One frame on the wire.\<close>

definition frame :: "bytes \<Rightarrow> bytes" where
  "frame p = le_PutUint16 (word_of_nat (length p)) @ p"

text \<open>A device or connection that takes everything, with what each \<^verbatim>\<open>Write\<close> was given.\<close>

definition sink :: "bytes list writer" where
  "sink p ws = (ws @ [p], length p, None)"

text \<open>The frames a TAP device accepts and hands out: at least one byte, at most \<^verbatim>\<open>frameLen\<close>.\<close>

definition wf_frame :: "bytes \<Rightarrow> bool" where
  "wf_frame p \<longleftrightarrow> p \<noteq> [] \<and> length p \<le> frameLen"

section \<open>Lemmas\<close>

lemma length_frame [simp]: "length (frame p) = 2 + length p"
  by (simp add: frame_def)

lemma frame_size: "length p \<le> frameLen \<Longrightarrow> unat (le_Uint16 (take 2 (frame p))) = length p"
  using le_roundtrip [of "word_of_nat (length p)" "[]"]
  by (simp add: frame_def frameLen_def unat_of_nat)

text \<open>\<^verbatim>\<open>io.ReadFull\<close> gives the next bytes of the stream, however it is cut into chunks.\<close>

lemma read_full_exact:
  assumes "n \<le> length acc + length (rd_data r)" "length acc \<le> n"
  shows "\<exists>r'. read_full r n acc = ((acc @ take (n - length acc) (rd_data r), None), r')
    \<and> rd_data r' = drop (n - length acc) (rd_data r) \<and> rd_end r' = rd_end r"
  using assms
proof (induction r n acc rule: read_full.induct)
  case (1 r n acc)
  show ?case
  proof (cases "length acc = n")
    case True
    then show ?thesis by (simp add: read_full.simps [of r])
  next
    case False
    obtain cs err r1 where rd: "rd_Read r (n - length acc) = ((cs, err), r1)" by (metis prod.exhaust)
    have len: "length cs \<le> n - length acc" using rd_Read_length [OF rd] .
    show ?thesis
    proof (cases err)
      case None
      have d: "rd_data r = cs @ rd_data r1" "rd_end r1 = rd_end r"
        using rd_Read_data rd None by auto
      have "\<not> n \<le> length acc" using False 1(3) by simp
      from 1(1) [OF this rd [symmetric] refl None] obtain r' where
        "read_full r1 n (acc @ cs) = (((acc @ cs) @ take (n - length (acc @ cs)) (rd_data r1), None), r')"
        "rd_data r' = drop (n - length (acc @ cs)) (rd_data r1)" "rd_end r' = rd_end r1"
        using d 1(2,3) len False by (auto simp: le_diff_conv2 add.commute)
      with rd None False d 1(3) len show ?thesis by (auto simp: read_full.simps [of r])
    next
      case (Some e)
      have d: "rd_data r = cs" "rd_end r = e" using rd_Read_last rd Some by auto
      then have "length cs = n - length acc" using 1(2) len by simp
      moreover have "rd_data r1 = [] \<and> rd_end r1 = e"
        using rd Some by (cases r rule: rd_size.cases) (auto split: if_splits)
      ultimately show ?thesis using rd Some False d 1(3) by (auto simp: read_full.simps [of r])
    qed
  qed
qed

lemma io_ReadFull_exact:
  "n \<le> length (rd_data r) \<Longrightarrow>
   \<exists>r'. io_ReadFull r n = ((take n (rd_data r), None), r') \<and> rd_data r' = drop n (rd_data r)
     \<and> rd_end r' = rd_end r"
  using read_full_exact [of n "[]" r] by (simp add: io_ReadFull_def)

lemma read_full_short:
  assumes "length (rd_data r) < n - length acc" "length acc < n"
  shows "\<exists>r'. read_full r n acc = ((acc @ rd_data r, Some
      (if acc @ rd_data r \<noteq> [] \<and> rd_end r = EOF then ErrUnexpectedEOF else rd_end r)), r')"
  using assms
proof (induction r n acc rule: read_full.induct)
  case (1 r n acc)
  obtain cs err r1 where rd: "rd_Read r (n - length acc) = ((cs, err), r1)" by (metis prod.exhaust)
  show ?case
  proof (cases err)
    case None
    have d: "rd_data r = cs @ rd_data r1" "rd_end r1 = rd_end r" using rd_Read_data rd None by auto
    have "\<not> n \<le> length acc" using 1(3) by simp
    from 1(1) [OF this rd [symmetric] refl None] d 1(2,3) rd None show ?thesis
      by (auto simp: read_full.simps [of r])
  next
    case (Some e)
    have "rd_data r = cs" "rd_end r = e" using rd_Read_last rd Some by auto
    with rd Some 1(2,3) show ?thesis by (auto simp: read_full.simps [of r])
  qed
qed

text \<open>Sending: the stream that \<^verbatim>\<open>rx\<close> produces.\<close>

lemma rx_frames:
  assumes "list_all (\<lambda>p. length p \<le> frameLen) ps"
  shows "rx sink (map Chunk ps @ [Final [] e]) ws =
    (ws @ map frame ps, ErrWrap ''failed to read payload from enclave application'' e)"
  using assms
proof (induction ps arbitrary: ws)
  case Nil
  show ?case by (simp add: rx.simps)
next
  case (Cons p ps)
  then show ?case
    by (simp add: rx.simps [of _ "Chunk p # _"] sink_def Let_def frame_def frameSizeLen_def)
qed

text \<open>Receiving: any stream of whole frames is taken apart at the right places.\<close>

lemma tx_frames:
  assumes "list_all wf_frame ps" "rd_data conn = concat (map frame ps)"
  shows "tx sink conn ws = (ws @ ps, ErrWrap ''failed to read length from host'' (rd_end conn))"
  using assms
proof (induction ps arbitrary: conn ws)
  case Nil
  then obtain c' where "io_ReadFull conn frameSizeLen = (([], Some (rd_end conn)), c')"
    using read_full_short [of conn 2 "[]"] by (auto simp: io_ReadFull_def frameSizeLen_def)
  then show ?case by (simp add: tx.simps)
next
  case (Cons p ps)
  have p: "p \<noteq> []" "length p \<le> frameLen" using Cons.prems(1) by (auto simp: wf_frame_def)
  have data: "rd_data conn = frame p @ concat (map frame ps)" using Cons.prems(2) by simp
  from io_ReadFull_exact [of 2 conn] obtain c1 where
    c1: "io_ReadFull conn 2 = ((take 2 (frame p), None), c1)"
      "rd_data c1 = p @ concat (map frame ps)" "rd_end c1 = rd_end conn"
    by (auto simp: data frame_def)
  from io_ReadFull_exact [of "length p" c1] obtain c2 where
    c2: "io_ReadFull c1 (length p) = ((p, None), c2)"
      "rd_data c2 = concat (map frame ps)" "rd_end c2 = rd_end conn"
    by (auto simp: c1)
  have "tx sink c2 (ws @ [p]) = ((ws @ [p]) @ ps, ErrWrap ''failed to read length from host'' (rd_end c2))"
    using Cons.prems(1) c2(2) by (intro Cons.IH) auto
  then show ?case
    using c1(1) c2 p frame_size [OF p(2)]
    by (simp add: tx.simps [of _ conn] frameSizeLen_def sink_def [of p ws] Let_def)
qed

text \<open>
  The slice expressions of \<^verbatim>\<open>tx\<close> stay inside the buffer: a length field has 16 bits.
\<close>

lemma tx_buffer_bound: "unat (le_Uint16 hdr) + frameSizeLen \<le> frameSizeLen + frameLen"
  using unat_le_Uint16 [of hdr] by (simp add: frameLen_def frameSizeLen_def)

text \<open>Everything \<^verbatim>\<open>tx\<close> delivers was sent as a frame, also on a stream that is cut off.\<close>

lemma tx_empty_frame:
  assumes "rd_data conn = 0 # 0 # rest"
  shows "tx write conn x = (x, ErrNew ''expected payload of size 0 but got 0'')"
proof -
  from io_ReadFull_exact [of 2 conn] obtain c1 where
    "io_ReadFull conn 2 = (([0, 0], None), c1)" by (auto simp: assms)
  moreover have "io_ReadFull c1 0 = (([], None), c1)" by (simp add: io_ReadFull_def read_full.simps)
  moreover have "le_Uint16 [0, 0] = 0" by simp
  ultimately show ?thesis
    by (simp add: tx.simps [of _ conn] frameSizeLen_def Let_def show_nat.simps char_of_eq_iff
        take_bit_eq_mod)
qed

section \<open>Properties\<close>

text \<open>C14: Frames survive the tunnel: what \<^verbatim>\<open>rx\<close> writes to the connection for a sequence of frames
  read from the TAP device, cut into chunks in any way by the transport, makes \<^verbatim>\<open>tx\<close> on the other
  side write exactly the same frames in the same order to its device; both then report the end of
  their input.\<close>

theorem tunnel_roundtrip:
  assumes "list_all wf_frame ps"
    and "rd_data conn = concat (fst (rx sink (map Chunk ps @ [Final [] e]) []))"
  shows "tx sink conn [] = (ps, ErrWrap ''failed to read length from host'' (rd_end conn))"
proof -
  have "list_all (\<lambda>p. length p \<le> frameLen) ps" using assms(1) by (auto simp: list_all_iff wf_frame_def)
  then have "rd_data conn = concat (map frame ps)" using assms(2) by (simp add: rx_frames)
  from tx_frames [OF assms(1) this, of "[]"] show ?thesis by simp
qed

theorem tunnel_roundtrip_witness:
  "tx sink [Chunk [2, 0, 10], Chunk [11, 1], Chunk [0, 12]] [] =
     ([[10, 11], [12]], ErrWrap ''failed to read length from host'' EOF)"
proof -
  have le: "le_PutUint16 2 = [2, 0]" "le_PutUint16 1 = [1, 0]" by (simp_all add: le_PutUint16_def)
  have "concat (fst (rx sink (map Chunk [[10, 11], [12]] @ [Final [] EOF]) [])) = [2, 0, 10, 11, 1, 0, 12]"
    by (subst rx_frames) (simp_all add: frame_def frameLen_def le)
  then show ?thesis
    by (subst tunnel_roundtrip [where ps = "[[10, 11], [12]]" and e = EOF])
      (simp_all add: wf_frame_def frameLen_def)
qed

text \<open>An empty frame ends \<^verbatim>\<open>tx\<close> with an error before anything is written, whatever follows on
  the connection.\<close>

theorem empty_frame_is_fatal:
  assumes "rd_data conn = 0 # 0 # rest"
  shows "tx write conn x = (x, ErrNew ''expected payload of size 0 but got 0'')"
  using assms by (rule tx_empty_frame)

theorem empty_frame_is_fatal_witness:
  "tx sink [Chunk [0], Chunk [0, 1, 0, 9]] [] = ([], ErrNew ''expected payload of size 0 but got 0'')"
  by (rule empty_frame_is_fatal [where rest = "[1, 0, 9]"]) simp

end
