(* ===== verification/Sys.thy ===== *)
theory Sys
  imports Framing
begin

text \<open>
  The code that sets up the machine: interfaces, resolver and entropy (src/system_linux.go), the
  file descriptor limit (src/system.go), and the networking environment with its retry loop
  (src/proxy.go). Calls into the kernel and into third-party packages are operations of an
  environment, which decides from the history of operations so far whether the next one fails; the
  history is the state. So a theorem can speak about every order of failures, and about what was
  done and undone on the way out.
\<close>

section \<open>Constants\<close>

definition defaultFdCur :: nat where "defaultFdCur = 65536"
definition defaultFdMax :: nat where "defaultFdMax = 65536"
definition defaultGw :: string where "defaultGw = ''192.168.127.1''"
definition addrLo :: string where "addrLo = ''127.0.0.1/8''"
definition addrTap :: string where "addrTap = ''192.168.127.2/24''"
definition mac :: string where "mac = ''ba:aa:ad:c0:ff:ee''"
definition ifaceLo :: string where "ifaceLo = ''lo''"
definition ifaceTap :: string where "ifaceTap = ''tap0''"
definition entropySeedSize :: nat where "entropySeedSize = 2048"
definition parentCID :: nat where "parentCID = 3"

lemmas sys_constants = defaultFdCur_def defaultFdMax_def defaultGw_def addrLo_def addrTap_def
  mac_def ifaceLo_def ifaceTap_def entropySeedSize_def parentCID_def

section \<open>Addresses\<close>

text \<open>
  The parts of \<^verbatim>\<open>net.ParseIP\<close>, \<^verbatim>\<open>net.ParseCIDR\<close> and \<^verbatim>\<open>net.ParseMAC\<close> for the textual forms of
  the constants: dotted IPv4 addresses without leading zeros, and six pairs of digits with colons.
\<close>

definition parse_octet :: "string \<Rightarrow> byte option" where
  "parse_octet s =
     (if s = [] \<or> length s > 3 \<or> \<not> list_all (\<lambda>c. 48 \<le> (of_char c :: nat) \<and> (of_char c :: nat) \<le> 57) s
         \<or> (length s > 1 \<and> hd s = CHR ''0'')
      then None
      else (let n = foldl (\<lambda>n c. n * 10 + (of_char c - 48)) (0 :: nat) s in
            if n > 255 then None else Some (word_of_nat n)))"

fun sequence :: "'a option list \<Rightarrow> 'a list option" where
  "sequence [] = Some []"
| "sequence (None # xs) = None"
| "sequence (Some x # xs) = map_option ((#) x) (sequence xs)"

definition net_ParseIP :: "string \<Rightarrow> bytes option" where
  "net_ParseIP s =
     (let parts = strings_Split (CHR ''.'') s in
      if length parts \<noteq> 4 then None else sequence (map parse_octet parts))"

text \<open>The mask of a prefix length, byte by byte.\<close>

fun mask_bytes :: "nat \<Rightarrow> nat \<Rightarrow> bytes" where
  "mask_bytes 0 ones = []"
| "mask_bytes (Suc k) ones =
     (if ones \<ge> 8 then 255 # mask_bytes k (ones - 8)
      else word_of_nat (256 - 2 ^ (8 - ones)) # mask_bytes k 0)"

record ipnet =
  in_IP :: bytes
  in_Mask :: bytes

definition net_ParseCIDR :: "string \<Rightarrow> (bytes \<times> ipnet) res" where
  "net_ParseCIDR s =
     (case strings_Split (CHR ''/'') s of
        [a, m] \<Rightarrow>
          (case (net_ParseIP a, parse_octet m) of
             (Some ip, Some n) \<Rightarrow>
               (if unat n > 32 then Inl (ErrNew ''invalid CIDR address'')
                else (let mask = mask_bytes 4 (unat n) in
                      Inr (ip, \<lparr>in_IP = map2 (and) ip mask, in_Mask = mask\<rparr>)))
           | _ \<Rightarrow> Inl (ErrNew ''invalid CIDR address''))
      | _ \<Rightarrow> Inl (ErrNew ''invalid CIDR address''))"

definition net_contains :: "ipnet \<Rightarrow> bytes \<Rightarrow> bool" where
  "net_contains n ip = (map2 (and) ip (in_Mask n) = in_IP n)"

definition net_ParseMAC :: "string \<Rightarrow> bytes res" where
  "net_ParseMAC s =
     (let parts = strings_Split (CHR '':'') s in
      if length parts \<noteq> 6 \<or> list_ex (\<lambda>p. length p \<noteq> 2) parts then Inl (ErrAddr ''invalid MAC address'')
      else (case hex_DecodeString (concat parts) of
              Inl e \<Rightarrow> Inl (ErrAddr ''invalid MAC address'')
            | Inr bs \<Rightarrow> Inr bs))"

section \<open>The environment\<close>

datatype sys_op =
    NewLinkFrom string
  | SetLinkIp string bytes ipnet
  | SetLinkMTU nat
  | SetLinkMacAddress string
  | SetLinkUp string
  | SetLinkDefaultGw bytes
  | MkdirAll string
  | WriteFile string bytes
  | Dial string
  | NewRequest
  | SendRequest
  | NewTap string
  | LinkByName string
  | LinkSetHardwareAddr bytes
  | LinkSetUp
  | StartForwarding
  | CloseTap
  | CloseConn
  | Getrlimit
  | Setrlimit nat nat

type_synonym history = "sys_op list"
type_synonym os = "history \<Rightarrow> sys_op \<Rightarrow> go_error option"

definition sys :: "os \<Rightarrow> sys_op \<Rightarrow> history \<Rightarrow> history \<times> go_error option" where
  "sys os op h = (h @ [op], os h op)"

text \<open>Operations in sequence up to the first failure, whose error is reported through a wrapper.\<close>

fun steps :: "os \<Rightarrow> (sys_op \<times> (go_error \<Rightarrow> go_error)) list \<Rightarrow> history \<Rightarrow> history \<times> go_error option" where
  "steps os [] h = (h, None)"
| "steps os ((op, wrap) # ops) h =
     (case sys os op h of
        (h', Some e) \<Rightarrow> (h', Some (wrap e))
      | (h', None) \<Rightarrow> steps os ops h')"

section \<open>Interfaces and resolver\<close>

definition configureLoIface :: "os \<Rightarrow> history \<Rightarrow> history \<times> go_error option" where
  "configureLoIface os h =
     (case sys os (NewLinkFrom ifaceLo) h of
        (h1, Some e) \<Rightarrow> (h1, Some e)
      | (h1, None) \<Rightarrow>
          (case net_ParseCIDR addrLo of
             Inl e \<Rightarrow> (h1, Some e)
           | Inr (addr, network) \<Rightarrow>
               steps os [(SetLinkIp ifaceLo addr network, id), (SetLinkUp ifaceLo, id)] h1))"

definition configureTapIface :: "os \<Rightarrow> history \<Rightarrow> history \<times> go_error option" where
  "configureTapIface os h =
     (case sys os (NewLinkFrom ifaceTap) h of
        (h1, Some e) \<Rightarrow> (h1, Some (ErrWrap ''failed to retrieve link'' e))
      | (h1, None) \<Rightarrow>
          (case net_ParseCIDR addrTap of
             Inl e \<Rightarrow> (h1, Some (ErrWrap ''failed to parse CIDR'' e))
           | Inr (addr, network) \<Rightarrow>
               steps os
                 [(SetLinkIp ifaceTap addr network, ErrWrap ''failed to set link address''),
                  (SetLinkMTU 1500, ErrWrap ''failed to set link MTU''),
                  (SetLinkMacAddress mac, ErrWrap ''failed to set MAC address''),
                  (SetLinkUp ifaceTap, ErrWrap ''failed to bring up link''),
                  (SetLinkDefaultGw (case net_ParseIP defaultGw of None \<Rightarrow> [] | Some gw \<Rightarrow> gw),
                   ErrWrap ''failed to set default gateway'')] h1))"

definition writeResolvconf :: "os \<Rightarrow> history \<Rightarrow> history \<times> go_error option" where
  "writeResolvconf os h =
     (let dir = ''/run/resolvconf/''; file = dir @ ''resolv.conf'' in
      steps os
        [(MkdirAll dir, ErrWrap ''failed to create directories''),
         (WriteFile file (str_bytes (''nameserver '' @ defaultGw @ [CHR 0x0A])),
          ErrWrap ''failed to write file'')] h)"

definition linkUp :: "os \<Rightarrow> history \<Rightarrow> history \<times> go_error option" where
  "linkUp os h =
     (case sys os (LinkByName ifaceTap) h of
        (h1, Some e) \<Rightarrow> (h1, Some e)
      | (h1, None) \<Rightarrow>
          (if mac = [] then steps os [(LinkSetUp, id)] h1
           else
             (case net_ParseMAC mac of
                Inl e \<Rightarrow> (h1, Some e)
              | Inr hw \<Rightarrow> steps os [(LinkSetHardwareAddr hw, id), (LinkSetUp, id)] h1)))"

section \<open>Networking\<close>

definition endpoint :: "nat \<Rightarrow> string" where
  "endpoint port = ''vsock://'' @ show_nat parentCID @ '':'' @ show_nat port @ ''/connect''"

text \<open>
  \<^verbatim>\<open>setupNetworking\<close>. Deferred calls run on every way out, the last one registered first. What
  the \<^verbatim>\<open>select\<close> at the end receives, an error of a forwarding goroutine or the request to stop, is
  the result of the environment for \<open>StartForwarding\<close>.
\<close>

definition deferred :: "os \<Rightarrow> sys_op list \<Rightarrow> history \<times> go_error option \<Rightarrow> history \<times> go_error option" where
  "deferred os ops r = (fst r @ ops, snd r)"

definition wrapped ::
    "(go_error \<Rightarrow> go_error) \<Rightarrow> history \<times> go_error option \<Rightarrow> history \<times> go_error option" where
  "wrapped wrap r = (fst r, map_option wrap (snd r))"

fun andThen ::
    "history \<times> go_error option \<Rightarrow> (history \<Rightarrow> history \<times> go_error option) \<Rightarrow> history \<times> go_error option" where
  "andThen (h, Some e) f = (h, Some e)"
| "andThen (h, None) f = f h"

definition setupNetworking :: "os \<Rightarrow> nat \<Rightarrow> history \<Rightarrow> history \<times> go_error option" where
  "setupNetworking os hostProxyPort h =
     andThen (wrapped (ErrWrap ''failed to connect to host'') (sys os (Dial (endpoint hostProxyPort)) h))
       (\<lambda>h1. deferred os [CloseConn]
          (andThen (steps os
               [(NewRequest, ErrWrap ''failed to create POST request''),
                (SendRequest, ErrWrap ''failed to send POST request to host''),
                (NewTap ifaceTap, ErrWrap ''failed to create tap device'')] h1)
             (\<lambda>h2. deferred os [CloseTap]
                (andThen (wrapped (ErrWrap ''failed to configure tap interface'') (configureTapIface os h2))
                  (\<lambda>h3. andThen (wrapped (ErrWrap ''failed to create resolv.conf'') (writeResolvconf os h3))
                    (\<lambda>h4. andThen (wrapped (ErrWrap ''failed to set MAC address'') (linkUp os h4))
                      (\<lambda>h5. sys os StartForwarding h5)))))))"

text \<open>
  \<^verbatim>\<open>runNetworking\<close> tries until \<^verbatim>\<open>setupNetworking\<close> returns without an error; the number of
  attempts is bounded by the fuel, and running out of it is \<open>None\<close>.
\<close>

fun runNetworking :: "nat \<Rightarrow> os \<Rightarrow> nat \<Rightarrow> history \<Rightarrow> history option" where
  "runNetworking 0 os port h = None"
| "runNetworking (Suc fuel) os port h =
     (case setupNetworking os port h of
        (h', None) \<Rightarrow> Some h'
      | (h', Some e) \<Rightarrow> runNetworking fuel os port h')"

section \<open>The file descriptor limit\<close>

definition setFdLimit :: "os \<Rightarrow> nat \<Rightarrow> nat \<Rightarrow> history \<Rightarrow> history \<times> go_error option" where
  "setFdLimit os cur hard h =
     steps os
       [(Getrlimit, id),
        (Setrlimit (if cur = 0 then defaultFdCur else cur) (if hard = 0 then defaultFdMax else hard), id),
        (Getrlimit, id)] h"

section \<open>Seeding the entropy pool\<close>

text \<open>
  The loop of \<^verbatim>\<open>maybeSeedEntropy\<close>: the hypervisor's answers come one per iteration, each a
  failure, an answer without the random part, or random bytes; a write to the device takes all
  bytes or fails. \<^verbatim>\<open>elog.Fatal\<close> ends the process.
\<close>

datatype nsm_random = SendFailed go_error | NoRandomPart | Random bytes

record entropy_env =
  ee_inEnclave :: bool
  ee_OpenSession :: "go_error option"
  ee_OpenFile :: "go_error option"
  ee_Send :: "nat \<Rightarrow> nsm_random"
  ee_Write :: "nat \<Rightarrow> go_error option"

function seed_loop :: "entropy_env \<Rightarrow> nat \<Rightarrow> bytes \<Rightarrow> bytes outcome" where
  "seed_loop env i pool =
     (if length pool < entropySeedSize then
        (case ee_Send env i of
           SendFailed e \<Rightarrow> Exits pool
         | NoRandomPart \<Rightarrow> Exits pool
         | Random rnd \<Rightarrow>
             (if length rnd = 0 then Exits pool
              else
                (case ee_Write env i of
                   Some e \<Rightarrow> Exits pool
                 | None \<Rightarrow> seed_loop env (Suc i) (pool @ rnd))))
      else Returned pool)"
  by pat_completeness auto
termination
  by (relation "measure (\<lambda>(env, i, pool). entropySeedSize - length pool)")
    (auto intro!: diff_less_mono2)

declare seed_loop.simps [simp del]

definition maybeSeedEntropy :: "entropy_env \<Rightarrow> bytes outcome" where
  "maybeSeedEntropy env =
     (if \<not> ee_inEnclave env then Returned []
      else
        (case ee_OpenSession env of
           Some e \<Rightarrow> Exits []
         | None \<Rightarrow>
             (case ee_OpenFile env of
                Some e \<Rightarrow> Exits []
              | None \<Rightarrow> seed_loop env 0 [])))"

section \<open>Lemmas: addresses\<close>

lemma parse_constants:
  "net_ParseCIDR addrTap =
     Inr ([192, 168, 127, 2], \<lparr>in_IP = [192, 168, 127, 0], in_Mask = [255, 255, 255, 0]\<rparr>)"
  "net_ParseCIDR addrLo = Inr ([127, 0, 0, 1], \<lparr>in_IP = [127, 0, 0, 0], in_Mask = [255, 0, 0, 0]\<rparr>)"
  "net_ParseIP defaultGw = Some [192, 168, 127, 1]"
  "net_ParseMAC mac = Inr [0xba, 0xaa, 0xad, 0xc0, 0xff, 0xee]"
  by code_simp+

section \<open>Lemmas: what is opened is closed\<close>

text \<open>How many connections and TAP devices are open after a stretch of the history.\<close>

fun track :: "os \<Rightarrow> history \<Rightarrow> history \<Rightarrow> int \<times> int \<Rightarrow> int \<times> int" where
  "track os p [] n = n"
| "track os p (op # ops) n =
     track os (p @ [op]) ops
       (case op of
          Dial u \<Rightarrow> (if os p op = None then (fst n + 1, snd n) else n)
        | NewTap i \<Rightarrow> (if os p op = None then (fst n, snd n + 1) else n)
        | CloseConn \<Rightarrow> (fst n - 1, snd n)
        | CloseTap \<Rightarrow> (fst n, snd n - 1)
        | _ \<Rightarrow> n)"

lemma track_append: "track os p (xs @ ys) n = track os (p @ xs) ys (track os p xs n)"
  by (induction xs arbitrary: p n) simp_all

text \<open>A step that leaves what is open as it is.\<close>

definition neutral :: "os \<Rightarrow> history \<Rightarrow> history \<times> go_error option \<Rightarrow> bool" where
  "neutral os h r \<longleftrightarrow> (\<exists>new. fst r = h @ new \<and> (\<forall>n. track os h new n = n))"

definition plain_op :: "sys_op \<Rightarrow> bool" where
  "plain_op op =
     (case op of Dial u \<Rightarrow> False | NewTap i \<Rightarrow> False | CloseConn \<Rightarrow> False | CloseTap \<Rightarrow> False | _ \<Rightarrow> True)"

lemma neutral_refl [simp]: "neutral os h (h, e)"
  by (simp add: neutral_def)

lemma neutral_sys: "plain_op op \<Longrightarrow> neutral os h (sys os op h)"
  by (auto simp: neutral_def sys_def plain_op_def split: sys_op.splits)

lemma neutral_andThen:
  assumes "neutral os h r" "\<And>h'. neutral os h' (f h')"
  shows "neutral os h (andThen r f)"
proof (cases r)
  case (Pair h' err)
  with assms(1) obtain new where new: "h' = h @ new" "\<forall>n. track os h new n = n"
    by (auto simp: neutral_def)
  show ?thesis
  proof (cases err)
    case None
    from assms(2) [of h'] obtain new' where "fst (f h') = h' @ new'" "\<forall>n. track os h' new' n = n"
      by (auto simp: neutral_def)
    with new Pair None show ?thesis
      by (auto simp: neutral_def track_append intro!: exI [where x = "new @ new'"])
  next
    case (Some e)
    with assms(1) Pair show ?thesis by (simp add: neutral_def)
  qed
qed

lemma neutral_wrapped [simp]: "neutral os h (wrapped f r) = neutral os h r"
  by (simp add: neutral_def wrapped_def)

lemma case_sys:
  "(case sys os op h of (h1, Some e) \<Rightarrow> (h1, Some (f e)) | (h1, None) \<Rightarrow> g h1) =
   andThen (wrapped f (sys os op h)) g"
  by (simp add: sys_def wrapped_def split: option.splits)

lemmas case_sys_id = case_sys [where f = "\<lambda>e. e"]

lemma steps_Cons: "steps os ((op, wrap) # ops) h = andThen (wrapped wrap (sys os op h)) (steps os ops)"
  by (simp add: case_sys)

lemma neutral_steps: "list_all (\<lambda>(op, wrap). plain_op op) ops \<Longrightarrow> neutral os h (steps os ops h)"
proof (induction ops arbitrary: h)
  case (Cons a ops)
  obtain op wrap where a: "a = (op, wrap)" by (cases a)
  show ?case
    unfolding a steps_Cons using Cons a by (intro neutral_andThen) (auto simp: neutral_sys)
qed simp

lemma steps_append: "steps os (xs @ ys) h = andThen (steps os xs h) (steps os ys)"
proof (induction xs arbitrary: h)
  case (Cons a xs)
  then show ?case by (cases a) (simp add: sys_def split: option.splits)
qed simp

lemmas iface_defs = configureLoIface_def configureTapIface_def writeResolvconf_def linkUp_def

lemma neutral_ifaces:
  "neutral os h (configureLoIface os h)" "neutral os h (configureTapIface os h)"
  "neutral os h (writeResolvconf os h)" "neutral os h (linkUp os h)"
  unfolding iface_defs case_sys case_sys_id Let_def
  by (auto intro!: neutral_andThen neutral_sys neutral_steps simp: plain_op_def parse_constants
      simp del: steps.simps)

text \<open>Opening something and closing it at the end is neutral, if what happens in between is.\<close>

lemma neutral_bracket:
  assumes op: "op = Dial u \<and> cl = CloseConn \<or> op = NewTap i \<and> cl = CloseTap"
    and body: "\<And>h'. neutral os h' (f h')"
  shows "neutral os h (andThen (wrapped w (sys os op h)) (\<lambda>h1. deferred os [cl] (f h1)))"
proof (cases "os h op")
  case None
  from body [of "h @ [op]"] obtain new where
    "fst (f (h @ [op])) = (h @ [op]) @ new" "\<forall>n. track os (h @ [op]) new n = n"
    by (auto simp: neutral_def)
  with op None show ?thesis
    by (auto simp: neutral_def sys_def wrapped_def deferred_def track_append
        intro!: exI [where x = "op # new @ [cl]"])
next
  case (Some e)
  with op show ?thesis
    by (auto simp: neutral_def sys_def wrapped_def intro!: exI [where x = "[op]"])
qed

lemma steps_snoc:
  "steps os (xs @ [(op, w)]) h = andThen (steps os xs h) (\<lambda>h1. wrapped w (sys os op h1))"
proof -
  have "steps os [(op, w)] = (\<lambda>h1. wrapped w (sys os op h1))"
    by (rule ext) (simp add: sys_def wrapped_def split: option.splits)
  then show ?thesis by (simp add: steps_append)
qed

lemma andThen_assoc: "andThen (andThen r f) g = andThen r (\<lambda>h. andThen (f h) g)"
  by (cases r; cases "snd r") auto

lemma setupNetworking_neutral: "neutral os h (setupNetworking os port h)"
proof -
  let ?pre = "[(NewRequest, ErrWrap ''failed to create POST request''),
    (SendRequest, ErrWrap ''failed to send POST request to host'')]"
  have split: "steps os [(NewRequest, ErrWrap ''failed to create POST request''),
      (SendRequest, ErrWrap ''failed to send POST request to host''),
      (NewTap ifaceTap, ErrWrap ''failed to create tap device'')] h1 =
    andThen (steps os ?pre h1)
      (\<lambda>h2. wrapped (ErrWrap ''failed to create tap device'') (sys os (NewTap ifaceTap) h2))" for h1
    using steps_snoc [of os ?pre] by simp
  show ?thesis
    unfolding setupNetworking_def split andThen_assoc
    by (intro neutral_bracket disjI1 conjI refl neutral_andThen neutral_steps
        neutral_bracket [where op = "NewTap ifaceTap" and cl = CloseTap] disjI2)
      (simp_all add: plain_op_def neutral_ifaces neutral_sys)
qed

text \<open>So is any number of attempts.\<close>

lemma neutral_trans:
  assumes "neutral os h (h1, e1)" "neutral os h1 (h2, e2)"
  shows "neutral os h (h2, e2)"
  using neutral_andThen [of os h "(h1, None)" "\<lambda>h'. if h' = h1 then (h2, e2) else (h', None)"] assms
  by (simp add: neutral_def)

lemma runNetworking_neutral: "runNetworking fuel os port h = Some h' \<Longrightarrow> neutral os h (h', None)"
proof (induction fuel os port h rule: runNetworking.induct)
  case (2 fuel os port h)
  obtain h1 e where s: "setupNetworking os port h = (h1, e)" by (metis prod.exhaust)
  then have n: "neutral os h (h1, e)" using setupNetworking_neutral [of os h port] by simp
  show ?case
  proof (cases e)
    case None
    with n s 2(2) show ?thesis by (simp add: neutral_def)
  next
    case (Some err)
    have "neutral os h1 (h', None)" using 2(1) [OF s [symmetric] Some] 2(2) s Some by simp
    with n show ?thesis by (rule neutral_trans)
  qed
qed simp

text \<open>A success is never reported before the forwarding was started, and asked to stop.\<close>

lemma andThen_None: "andThen r f = (h', None) \<longleftrightarrow> (\<exists>h1. r = (h1, None) \<and> f h1 = (h', None))"
  by (cases r; cases "snd r") auto

lemma wrapped_None [simp]: "wrapped f r = (h', None) \<longleftrightarrow> r = (h', None)"
  by (cases r) (auto simp: wrapped_def)

lemma deferred_None: "deferred os ops r = (h', None) \<longleftrightarrow> (\<exists>h1. r = (h1, None) \<and> h' = h1 @ ops)"
  by (cases r) (auto simp: deferred_def)

lemma steps_None:
  "steps os ops h = (h', None) \<Longrightarrow> h' = h @ map fst ops"
proof (induction ops arbitrary: h)
  case (Cons a ops)
  obtain op wrap where a: "a = (op, wrap)" by (cases a)
  with Cons.prems have "steps os ops (h @ [op]) = (h', None)"
    by (simp add: sys_def split: option.splits)
  from Cons.IH [OF this] a show ?case by simp
qed simp

lemma sys_None [simp]: "sys os op h = (h', None) \<longleftrightarrow> h' = h @ [op] \<and> os h op = None"
  by (auto simp: sys_def)

lemma configureTapIface_None:
  assumes "configureTapIface os h = (h', None)"
  shows "h' = h @ [NewLinkFrom ifaceTap,
    SetLinkIp ifaceTap [192, 168, 127, 2] \<lparr>in_IP = [192, 168, 127, 0], in_Mask = [255, 255, 255, 0]\<rparr>,
    SetLinkMTU 1500, SetLinkMacAddress mac, SetLinkUp ifaceTap, SetLinkDefaultGw [192, 168, 127, 1]]"
  using assms unfolding configureTapIface_def case_sys parse_constants
  by (auto simp: andThen_None dest!: steps_None simp del: steps.simps)

lemma writeResolvconf_None:
  "writeResolvconf os h = (h', None) \<Longrightarrow>
   h' = h @ [MkdirAll ''/run/resolvconf/'', WriteFile ''/run/resolvconf/resolv.conf''
     (str_bytes (''nameserver '' @ defaultGw @ [CHR 0x0A]))]"
  unfolding writeResolvconf_def Let_def by (auto dest!: steps_None simp del: steps.simps)

lemma mac_nonempty: "mac \<noteq> []"
  by (simp add: mac_def)

lemma linkUp_None:
  assumes "linkUp os h = (h', None)"
  shows "h' = h @ [LinkByName ifaceTap, LinkSetHardwareAddr [0xba, 0xaa, 0xad, 0xc0, 0xff, 0xee], LinkSetUp]"
  using assms mac_nonempty unfolding linkUp_def case_sys_id parse_constants
  by (auto simp: andThen_None dest!: steps_None simp del: steps.simps)

lemma setupNetworking_None:
  assumes "setupNetworking os port h = (h', None)"
  shows "\<exists>mid. h' = h @ mid @ [StartForwarding, CloseTap, CloseConn]
    \<and> mid = [Dial (endpoint port), NewRequest, SendRequest, NewTap ifaceTap, NewLinkFrom ifaceTap,
        SetLinkIp ifaceTap [192, 168, 127, 2] \<lparr>in_IP = [192, 168, 127, 0], in_Mask = [255, 255, 255, 0]\<rparr>,
        SetLinkMTU 1500, SetLinkMacAddress mac, SetLinkUp ifaceTap, SetLinkDefaultGw [192, 168, 127, 1],
        MkdirAll ''/run/resolvconf/'', WriteFile ''/run/resolvconf/resolv.conf''
          (str_bytes (''nameserver '' @ defaultGw @ [CHR 0x0A])),
        LinkByName ifaceTap, LinkSetHardwareAddr [0xba, 0xaa, 0xad, 0xc0, 0xff, 0xee], LinkSetUp]
    \<and> os (h @ mid) StartForwarding = None"
  using assms unfolding setupNetworking_def andThen_None deferred_None wrapped_None
  by (auto dest!: configureTapIface_None writeResolvconf_None linkUp_None steps_None
      simp del: steps.simps)

text \<open>Retrying: it returns as soon as an attempt succeeds, and never otherwise.\<close>

fun attempt :: "os \<Rightarrow> nat \<Rightarrow> history \<Rightarrow> nat \<Rightarrow> history" where
  "attempt os port h 0 = h"
| "attempt os port h (Suc k) = fst (setupNetworking os port (attempt os port h k))"

lemma attempt_shift: "attempt os port (fst (setupNetworking os port h)) k = attempt os port h (Suc k)"
  by (induction k) simp_all

lemma find_map: "find P (map f xs) = map_option f (find (\<lambda>x. P (f x)) xs)"
  by (induction xs) simp_all

lemma runNetworking_first:
  "runNetworking fuel os port h =
   map_option (\<lambda>k. attempt os port h (Suc k))
     (find (\<lambda>k. snd (setupNetworking os port (attempt os port h k)) = None) [0..<fuel])"
proof (induction fuel arbitrary: h)
  case (Suc fuel)
  obtain h1 e where s: "setupNetworking os port h = (h1, e)" by (metis prod.exhaust)
  have upt: "[0..<Suc fuel] = 0 # map Suc [0..<fuel]" by (simp add: upt_conv_Cons map_Suc_upt del: upt_Suc)
  have h1: "attempt os port h1 k = attempt os port h (Suc k)" for k
    using attempt_shift [of os port h k] s by simp
  show ?case
    using s Suc [of h1] h1 [of 0, symmetric]
    by (cases e) (simp_all add: upt find_map h1 option.map_comp comp_def del: upt_Suc attempt.simps(2))
qed simp

section \<open>Lemmas: entropy\<close>

text \<open>What the hypervisor delivered in the first iterations.\<close>

definition answers :: "entropy_env \<Rightarrow> nat \<Rightarrow> bytes" where
  "answers env k = concat (map (\<lambda>i. case ee_Send env i of Random r \<Rightarrow> r | _ \<Rightarrow> []) [0..<k])"

lemma answers_Suc: "ee_Send env i = Random r \<Longrightarrow> answers env (Suc i) = answers env i @ r"
  by (simp add: answers_def)

lemma seed_loop_answers:
  "seed_loop env i pool = Returned out \<Longrightarrow> pool = answers env i \<Longrightarrow>
   entropySeedSize \<le> length out \<and>
   (\<exists>k\<ge>i. out = answers env k \<and> (\<forall>j. i \<le> j \<and> j < k \<longrightarrow> length (answers env j) < entropySeedSize))"
proof (induction env i pool rule: seed_loop.induct)
  case (1 env i pool)
  show ?case
  proof (cases "length pool < entropySeedSize")
    case True
    with 1(2) obtain rnd where r: "ee_Send env i = Random rnd" "length rnd \<noteq> 0" "ee_Write env i = None"
      "seed_loop env (Suc i) (pool @ rnd) = Returned out"
      by (auto simp: seed_loop.simps [of env i] split: nsm_random.splits if_splits option.splits)
    have "pool @ rnd = answers env (Suc i)" using 1(3) answers_Suc [OF r(1)] by simp
    from 1(1) [OF True r(1,2,3,4) this] obtain k where k: "entropySeedSize \<le> length out" "Suc i \<le> k"
      "out = answers env k" "\<forall>j. Suc i \<le> j \<and> j < k \<longrightarrow> length (answers env j) < entropySeedSize"
      by blast
    have "length (answers env j) < entropySeedSize" if "i \<le> j" "j < k" for j
      using that k(4) True 1(3) by (cases "j = i") auto
    with k show ?thesis by (auto intro!: exI [where x = k])
  next
    case False
    with 1(2,3) show ?thesis by (auto simp: seed_loop.simps [of env i])
  qed
qed

lemma seed_loop_returns:
  "\<forall>i. ee_Write env i = None \<Longrightarrow> \<forall>i. \<exists>r. ee_Send env i = Random r \<and> r \<noteq> [] \<Longrightarrow>
   \<exists>out. seed_loop env i pool = Returned out"
proof (induction env i pool rule: seed_loop.induct)
  case (1 env i pool)
  then obtain r where r: "ee_Send env i = Random r" "r \<noteq> []" by blast
  with 1 show ?case by (cases "length pool < entropySeedSize") (auto simp: seed_loop.simps [of env i])
qed

section \<open>Properties\<close>

text \<open>C25: Setting up the network never leaks: whichever operation fails, and however often it is retried,
  every connection to the host that was opened and every TAP device that was created has been
  closed when \<^verbatim>\<open>setupNetworking\<close> or \<^verbatim>\<open>runNetworking\<close> returns.\<close>

theorem networking_leaks_nothing:
  assumes "setupNetworking os port h = (h', err) \<or> runNetworking fuel os port h = Some h'"
  shows "\<exists>new. h' = h @ new \<and> track os h new (0, 0) = (0, 0)"
  using assms
proof
  assume "setupNetworking os port h = (h', err)"
  then show ?thesis using setupNetworking_neutral [of os h port] unfolding neutral_def by force
next
  assume "runNetworking fuel os port h = Some h'"
  from runNetworking_neutral [OF this] show ?thesis unfolding neutral_def by force
qed

theorem networking_leaks_nothing_witness:
  "\<exists>new. fst (setupNetworking (\<lambda>h op. if op = SendRequest then Some EOF else None) 1024 []) = [] @ new
     \<and> track (\<lambda>h op. if op = SendRequest then Some EOF else None) [] new (0, 0) = (0, 0)"
  by (rule networking_leaks_nothing [where port = 1024 and fuel = 0 and err = "snd (setupNetworking
      (\<lambda>h op. if op = SendRequest then Some EOF else None) 1024 [])"]) simp

text \<open>C26: When \<^verbatim>\<open>setupNetworking\<close> returns without an error, it ran all steps in one order, the
  connection to the host first, then the TAP device and its configuration, with the addresses of the configuration parsed as intended, forwarded traffic last, and then
  closed the device and the connection in that order.\<close>

theorem networking_order:
  assumes "setupNetworking os port h = (h', None)"
  shows "h' = h @
    [Dial (endpoint port), NewRequest, SendRequest, NewTap ifaceTap, NewLinkFrom ifaceTap,
     SetLinkIp ifaceTap [192, 168, 127, 2] \<lparr>in_IP = [192, 168, 127, 0], in_Mask = [255, 255, 255, 0]\<rparr>,
     SetLinkMTU 1500, SetLinkMacAddress mac, SetLinkUp ifaceTap, SetLinkDefaultGw [192, 168, 127, 1],
     MkdirAll ''/run/resolvconf/'', WriteFile ''/run/resolvconf/resolv.conf''
       (str_bytes (''nameserver '' @ defaultGw @ [CHR 0x0A])),
     LinkByName ifaceTap, LinkSetHardwareAddr [0xba, 0xaa, 0xad, 0xc0, 0xff, 0xee], LinkSetUp,
     StartForwarding, CloseTap, CloseConn]"
  using setupNetworking_None [OF assms] by auto

theorem networking_order_witness:
  "fst (setupNetworking (\<lambda>h op. None) 1024 []) \<noteq> [] \<and>
   last (fst (setupNetworking (\<lambda>h op. None) 1024 [])) = CloseConn"
proof -
  have "snd (setupNetworking (\<lambda>h op. None) 1024 []) = None" by code_simp
  then have "setupNetworking (\<lambda>h op. None) 1024 [] = (fst (setupNetworking (\<lambda>h op. None) 1024 []), None)"
    by (metis prod.collapse)
  from networking_order [OF this] show ?thesis by simp
qed

text \<open>C27: The retry loop stops at the first success: with fuel for \<open>fuel\<close> attempts it returns if and
  only if one of them reports no error, each attempt starting from the system as the failed ones
  before it left it, and it returns right after the first attempt that does, with the operations up to
  and including that attempt and no further one. If every attempt fails it returns for no amount of fuel.\<close>

theorem retry_until_success:
  "runNetworking fuel os port h =
     map_option (\<lambda>k. fst (setupNetworking os port (attempt os port h k)))
       (find (\<lambda>k. snd (setupNetworking os port (attempt os port h k)) = None) [0..<fuel])
   \<and> (runNetworking fuel os port h \<noteq> None \<longleftrightarrow>
        (\<exists>k<fuel. snd (setupNetworking os port (attempt os port h k)) = None))"
  unfolding runNetworking_first by (auto simp: find_None_iff)

text \<open>The default gateway that is configured lies in the network of the TAP device, the device's own
  address too, and the MAC address is a locally administered unicast address.\<close>

theorem addresses_consistent:
  "\<exists>ip net gw hw. net_ParseCIDR addrTap = Inr (ip, net) \<and> net_ParseIP defaultGw = Some gw
     \<and> net_ParseMAC mac = Inr hw \<and> net_contains net gw \<and> net_contains net ip \<and> gw \<noteq> ip
     \<and> and (hd hw) 3 = 2"
  unfolding parse_constants by (simp add: net_contains_def)

text \<open>Inside an enclave, \<^verbatim>\<open>maybeSeedEntropy\<close> returns only after at least 2048 bytes went to the
  entropy device; they are the answers of the hypervisor in order, without gap, and no request is
  made once the amount is reached.\<close>

theorem entropy_seeded:
  assumes "ee_inEnclave env" "maybeSeedEntropy env = Returned pool"
  shows "2048 \<le> length pool \<and> (\<exists>k. pool = answers env k \<and> (\<forall>j<k. length (answers env j) < 2048))"
proof -
  have "seed_loop env 0 [] = Returned pool"
    using assms by (auto simp: maybeSeedEntropy_def split: option.splits)
  from seed_loop_answers [OF this] show ?thesis by (auto simp: answers_def entropySeedSize_def)
qed

theorem entropy_seeded_witness:
  "let env = \<lparr>ee_inEnclave = True, ee_OpenSession = None, ee_OpenFile = None,
              ee_Send = (\<lambda>i. Random (replicate 256 1)), ee_Write = (\<lambda>i. None)\<rparr> in
   \<exists>pool. maybeSeedEntropy env = Returned pool \<and> 2048 \<le> length pool"
proof -
  let ?env = "\<lparr>ee_inEnclave = True, ee_OpenSession = None, ee_OpenFile = None,
    ee_Send = (\<lambda>i. Random (replicate 256 1)), ee_Write = (\<lambda>i. None)\<rparr>"
  obtain pool where "seed_loop ?env 0 [] = Returned pool"
    using seed_loop_returns [of ?env 0 "[]"] by auto
  then have p: "maybeSeedEntropy ?env = Returned pool" by (simp add: maybeSeedEntropy_def)
  with entropy_seeded [of ?env pool] show ?thesis by (auto simp: Let_def)
qed

text \<open>Seeding ends: if the hypervisor keeps delivering bytes and writing succeeds, the loop returns,
  however small the deliveries are.\<close>

theorem entropy_terminates:
  assumes "\<forall>i. ee_Write env i = None" "\<forall>i. \<exists>r. ee_Send env i = Random r \<and> r \<noteq> []"
    and "ee_OpenSession env = None" "ee_OpenFile env = None"
  shows "\<exists>pool. maybeSeedEntropy env = Returned pool"
  using seed_loop_returns [OF assms(1,2)] assms(3,4) by (auto simp: maybeSeedEntropy_def)

theorem entropy_terminates_witness:
  "\<exists>pool. maybeSeedEntropy \<lparr>ee_inEnclave = True, ee_OpenSession = None, ee_OpenFile = None,
     ee_Send = (\<lambda>i. Random [7]), ee_Write = (\<lambda>i. None)\<rparr> = Returned pool"
  by (rule entropy_terminates) simp_all

end
