(* ===== verification/Enclave.thy ===== *)
theory Enclave
  imports Handlers Caches Metrics Sys
begin

text \<open>
  The enclave itself (src/enclave.go) with the helpers of src/util.go it uses: construction, the
  certificate and its fingerprint, the Web servers, leader designation, the set-up of leader and
  worker, heartbeats, start and stop. Cryptography, the metadata service, listeners and peers are
  arguments; what a \<^verbatim>\<open>select\<close> receives is a list of events.
\<close>

section \<open>State\<close>

datatype attester_kind = NitroAttester | DummyAttester

text \<open>Where a server gets its certificate from; \<open>None\<close> is a \<^verbatim>\<open>nil\<close> TLS configuration.\<close>

datatype tls_config = GetCertificate | AcmeManager

datatype web_server = PromSrv | IntSrv | ExtPrivSrv | ExtPubSrv

text \<open>A listener: a TCP address, or a port of the VSOCK interface.\<close>

datatype listener = Tcp string | Vsock nat

text \<open>
  The servers are represented by their routes and TLS configuration, the worker's end of key
  synchronization by the state of its handler, and the goroutines of the heartbeat by the worker URLs
  they were started with.
  The type of certificates is a variable.
\<close>

record 'c enclave =
  en_attester :: attester_kind
  en_cfg :: Config
  en_syncState :: syncState
  en_routes :: "server \<Rightarrow> route list"
  en_pubTLS :: "tls_config option"
  en_privTLS :: "tls_config option"
  en_addr :: "web_server \<Rightarrow> string"
  en_useLogger :: bool
  en_useMetrics :: bool
  en_keepAlives :: bool
  en_proxyHooks :: bool
  en_hashes :: AttestationHashes
  en_metrics :: metrics
  en_workers :: workerManager
  en_keys :: enclaveKeys
  en_sync :: workerSync
  en_httpsCert :: "'c certRetriever"
  en_readyClosed :: bool
  en_stopClosed :: bool
  en_networking :: bool
  en_heartbeatLoops :: "url list"

definition port_addr :: "string \<Rightarrow> 16 word \<Rightarrow> string" where
  "port_addr host port = host @ '':'' @ show_nat (unat port)"

definition second :: int where "second = 1000000000"
definition minute :: int where "minute = 60 * second"

definition getSyncState :: "'c enclave \<Rightarrow> syncState" where
  "getSyncState e = en_syncState e"

definition setSyncState :: "syncState \<Rightarrow> 'c enclave \<Rightarrow> 'c enclave" where
  "setSyncState st e = e\<lparr>en_syncState := st\<rparr>"

definition NewEnclave :: "Config \<Rightarrow> 'c enclave res" where
  "NewEnclave cfg =
     (case Validate cfg of
        Some err \<Rightarrow> Inl (ErrWrap ''failed to create enclave'' err)
      | None \<Rightarrow>
          (let e = \<lparr>en_attester = NitroAttester, en_cfg = cfg, en_syncState = noSync,
                    en_routes = initial_routes cfg, en_pubTLS = None, en_privTLS = None,
                    en_addr = (\<lambda>srv. case srv of
                        ExtPubSrv \<Rightarrow> []
                      | ExtPrivSrv \<Rightarrow> port_addr [] (ExtPrivPort cfg)
                      | IntSrv \<Rightarrow> port_addr ''127.0.0.1'' (IntPort cfg)
                      | PromSrv \<Rightarrow> port_addr [] (PrometheusPort cfg)),
                    en_useLogger = False, en_useMetrics = False, en_keepAlives = True,
                    en_proxyHooks = False, en_hashes = newAttestationHashes,
                    en_metrics = newMetrics, en_workers = newWorkerManager minute,
                    en_keys = noKeys, en_sync = asWorker, en_httpsCert = \<lparr>cr_cert = None\<rparr>,
                    en_readyClosed = False, en_stopClosed = False, en_networking = False,
                    en_heartbeatLoops = []\<rparr>;
               e1 = (if Debug cfg then e\<lparr>en_attester := DummyAttester, en_useLogger := True\<rparr> else e);
               e2 = (if PrometheusPort cfg > 0 then e1\<lparr>en_useMetrics := True\<rparr> else e1);
               e3 = (if DisableKeepAlives cfg then e2\<lparr>en_keepAlives := False\<rparr> else e2);
               e4 = (if isScalingEnabled cfg then setSyncState inProgress e3 else e3) in
           Inr (if AppWebSrv cfg \<noteq> None \<and> PrometheusPort cfg > 0
                then e4\<lparr>en_proxyHooks := True\<rparr> else e4)))"

section \<open>Certificates\<close>

definition certificateOrg :: string where
  "certificateOrg = ''AWS Nitro enclave application''"

definition certificateValidity :: int where
  "certificateValidity = 60 * minute * 24 * 356"

record cert_template =
  ct_SerialNumber :: nat
  ct_Organization :: string
  ct_DNSNames :: "string list"
  ct_NotBefore :: int
  ct_NotAfter :: int
  ct_KeyUsage :: "string list"
  ct_ExtKeyUsage :: "string list"
  ct_BasicConstraintsValid :: bool

text \<open>The functions of \<^verbatim>\<open>crypto\<close> that \<^verbatim>\<open>createCertificate\<close> calls; a private key is a type variable.\<close>

record 'k crypto =
  cy_GenerateKey :: "'k res"
  cy_RandInt :: "nat \<Rightarrow> nat res"
  cy_CreateCertificate :: "cert_template \<Rightarrow> 'k \<Rightarrow> bytes res"
  cy_MarshalPKCS8 :: "'k \<Rightarrow> bytes res"
  cy_EncodeToMemory :: "string \<Rightarrow> bytes \<Rightarrow> slice"

definition createCertificate ::
    "'k crypto \<Rightarrow> int \<Rightarrow> int \<Rightarrow> string \<Rightarrow> (bytes \<times> bytes) res" where
  "createCertificate cy now now' fqdn =
     (case cy_GenerateKey cy of
        Inl e \<Rightarrow> Inl e
      | Inr privateKey \<Rightarrow>
          (case cy_RandInt cy (2 ^ 128) of
             Inl e \<Rightarrow> Inl e
           | Inr serialNumber \<Rightarrow>
               (case cy_CreateCertificate cy
                       \<lparr>ct_SerialNumber = serialNumber, ct_Organization = certificateOrg,
                        ct_DNSNames = [fqdn], ct_NotBefore = now,
                        ct_NotAfter = now' + certificateValidity,
                        ct_KeyUsage = [''DigitalSignature''], ct_ExtKeyUsage = [''ServerAuth''],
                        ct_BasicConstraintsValid = True\<rparr> privateKey of
                  Inl e \<Rightarrow> Inl e
                | Inr derBytes \<Rightarrow>
                    (case cy_EncodeToMemory cy ''CERTIFICATE'' derBytes of
                       None \<Rightarrow> Inl (ErrNew ''error encoding cert as PEM'')
                     | Some pemCert \<Rightarrow>
                         (case cy_MarshalPKCS8 cy privateKey of
                            Inl e \<Rightarrow> Inl e
                          | Inr privBytes \<Rightarrow>
                              (case cy_EncodeToMemory cy ''PRIVATE KEY'' privBytes of
                                 None \<Rightarrow> Inl (ErrNew ''error encoding key as PEM'')
                               | Some pemKey \<Rightarrow> Inr (pemCert, pemKey)))))))"

text \<open>
  What successive calls of \<^verbatim>\<open>pem.Decode\<close> find in the raw data is the list of its blocks, each with
  its type and contents; \<^verbatim>\<open>x509.ParseCertificate\<close> is the argument \<open>parse\<close>.
\<close>

record x509_cert =
  xc_IsCA :: bool
  xc_Raw :: bytes

record 'c pki =
  pk_pem_blocks :: "bytes \<Rightarrow> (string \<times> bytes) list"
  pk_ParseCertificate :: "bytes \<Rightarrow> x509_cert res"
  pk_X509KeyPair :: "bytes \<Rightarrow> bytes \<Rightarrow> 'c res"

definition noPemError :: go_error where
  "noPemError = ErrNew ''pem.Decode failed because it didn't find PEM data in the input we provided''"

fun fingerprint_loop ::
    "(bytes \<Rightarrow> x509_cert res) \<Rightarrow> (string \<times> bytes) list \<Rightarrow> AttestationHashes
     \<Rightarrow> AttestationHashes \<times> go_error option" where
  "fingerprint_loop parse [] hashes = (hashes, Some noPemError)"
| "fingerprint_loop parse ((kind, contents) # blocks) hashes =
     (if kind = ''CERTIFICATE'' then
        (case parse contents of
           Inl e \<Rightarrow> (hashes, Some e)
         | Inr cert \<Rightarrow>
             (if \<not> xc_IsCA cert then (hashes\<lparr>tlsKeyHash := sha256_Sum256 (xc_Raw cert)\<rparr>, None)
              else fingerprint_loop parse blocks hashes))
      else fingerprint_loop parse blocks hashes)"

definition setCertFingerprint ::
    "'c pki \<Rightarrow> bytes \<Rightarrow> 'c enclave \<Rightarrow> 'c enclave \<times> go_error option" where
  "setCertFingerprint pki rawData e =
     (if MockCertFp (en_cfg e) \<noteq> [] then
        (case hex_DecodeString (MockCertFp (en_cfg e)) of
           Inl err \<Rightarrow> (e, Some (ErrNew ''failed to decode mock certificate fingerprint hex''))
         | Inr hash \<Rightarrow>
             (e\<lparr>en_hashes := (en_hashes e)
                 \<lparr>tlsKeyHash := go_copy (tlsKeyHash (en_hashes e)) hash\<rparr>\<rparr>, None))
      else
        (case fingerprint_loop (pk_ParseCertificate pki) (pk_pem_blocks pki rawData) (en_hashes e) of
           (h, err) \<Rightarrow> (e\<lparr>en_hashes := h\<rparr>, err)))"

definition genSelfSignedCert ::
    "'c pki \<Rightarrow> (bytes \<times> bytes) res \<Rightarrow> 'c enclave \<Rightarrow> 'c enclave \<times> go_error option" where
  "genSelfSignedCert pki created e =
     (case created of
        Inl err \<Rightarrow> (e, Some err)
      | Inr (cert, key) \<Rightarrow>
          (case setCertFingerprint pki cert e of
             (e1, Some err) \<Rightarrow> (e1, Some err)
           | (e1, None) \<Rightarrow>
               (let e2 = e1\<lparr>en_keys := setNitridingKeys (Some key) (Some cert) (en_keys e1)\<rparr> in
                case pk_X509KeyPair pki cert key of
                  Inl err \<Rightarrow> (e2, Some err)
                | Inr tlsCert \<Rightarrow>
                    (e2\<lparr>en_httpsCert := certRetriever_set (Some tlsCert) (en_httpsCert e2),
                        en_pubTLS := Some GetCertificate, en_privTLS := Some GetCertificate\<rparr>, None))))"

definition setupAcme :: "'c enclave \<Rightarrow> 'c enclave \<times> go_error option" where
  "setupAcme e = (e\<lparr>en_pubTLS := Some AcmeManager\<rparr>, None)"

text \<open>
  The goroutine that \<^verbatim>\<open>setupAcme\<close> leaves behind polls the cache; the results of the polls come
  as a list, and running out of them is to wait on.
\<close>

fun acme_poll :: "'c pki \<Rightarrow> slice res list \<Rightarrow> 'c enclave \<Rightarrow> 'c enclave outcome" where
  "acme_poll pki [] e = Blocks e"
| "acme_poll pki (Inl err # polls) e = acme_poll pki polls e"
| "acme_poll pki (Inr rawData # polls) e =
     (case setCertFingerprint pki (slice_bytes rawData) e of
        (e1, None) \<Rightarrow> Returned e1
      | (e1, Some err) \<Rightarrow> Exits e1)"

section \<open>Web servers\<close>

text \<open>
  The servers that \<^verbatim>\<open>startWebServers\<close> launches, in order: whether the goroutine waits for the
  application first, and whether it serves TLS, with which configuration.
\<close>

definition getExtListener :: "Config \<Rightarrow> listener" where
  "getExtListener cfg =
     (if UseVsockForExtPort cfg then Vsock (unat (ExtPubPort cfg)) else Tcp (port_addr [] (ExtPubPort cfg)))"

record launch =
  la_server :: web_server
  la_listener :: listener
  la_waits :: bool
  la_tls :: "tls_config option option"

definition startWebServers :: "'c enclave \<Rightarrow> launch list" where
  "startWebServers e =
     (if PrometheusPort (en_cfg e) > 0
      then [\<lparr>la_server = PromSrv, la_listener = Tcp (en_addr e PromSrv), la_waits = False, la_tls = None\<rparr>]
      else [])
     @ [\<lparr>la_server = IntSrv, la_listener = Tcp (en_addr e IntSrv), la_waits = False, la_tls = None\<rparr>,
        \<lparr>la_server = ExtPrivSrv, la_listener = Tcp (en_addr e ExtPrivSrv), la_waits = False,
         la_tls = Some (en_privTLS e)\<rparr>,
        \<lparr>la_server = ExtPubSrv, la_listener = getExtListener (en_cfg e),
         la_waits = WaitForApp (en_cfg e), la_tls = Some (en_pubTLS e)\<rparr>]"

text \<open>
  A TLS server that is given no certificate files needs a configuration that provides one;
  otherwise it fails at once, which ends the process.
\<close>

definition can_serve :: "launch \<Rightarrow> bool" where
  "can_serve l = (la_tls l \<noteq> Some None)"

definition is_listening :: "'c enclave \<Rightarrow> launch \<Rightarrow> bool" where
  "is_listening e l = (can_serve l \<and> (la_waits l \<longrightarrow> en_readyClosed e))"

section \<open>Hostname\<close>

text \<open>
  The metadata service: a token and a hostname, each read through a limit. The client is an
  argument that answers a request with a body or an error.
\<close>

definition metadataSvcToken :: string where
  "metadataSvcToken = ''http://169.254.169.254/latest/api/token''"

definition metadataSvcInfo :: string where
  "metadataSvcInfo = ''http://169.254.169.254/latest/meta-data/local-hostname''"

definition maxTokenLen :: nat where "maxTokenLen = 100"
definition maxHostnameLen :: nat where "maxHostnameLen = 255"

record md_request =
  md_Method :: string
  md_URL :: string
  md_Header :: "string \<times> string"

type_synonym md_client = "md_request \<Rightarrow> reader res"

definition getLocalEC2Hostname :: "md_client \<Rightarrow> string res" where
  "getLocalEC2Hostname client_Do =
     (case client_Do \<lparr>md_Method = ''PUT'', md_URL = metadataSvcToken,
              md_Header = (''X-aws-ec2-metadata-token-ttl-seconds'', ''10'')\<rparr> of
        Inl e \<Rightarrow> Inl e
      | Inr tokenBody \<Rightarrow>
          (case io_ReadAll (newLimitReader tokenBody maxTokenLen) of
             (_, Some e) \<Rightarrow> Inl e
           | (token, None) \<Rightarrow>
               (case client_Do \<lparr>md_Method = ''GET'', md_URL = metadataSvcInfo,
                        md_Header = (''X-aws-ec2-metadata-token'', bytes_str token)\<rparr> of
                  Inl e \<Rightarrow> Inl e
                | Inr hostBody \<Rightarrow>
                    (case io_ReadAll (newLimitReader hostBody maxHostnameLen) of
                       (_, Some e) \<Rightarrow> Inl e
                     | (host, None) \<Rightarrow> Inr (bytes_str host)))))"

text \<open>\<^verbatim>\<open>getLocalAddr\<close>: the local address that dialing a public one gives, without its port.\<close>

definition getLocalAddr :: "string res \<Rightarrow> string outcome" where
  "getLocalAddr dialed =
     (case dialed of
        Inl e \<Rightarrow> Exits []
      | Inr addr \<Rightarrow>
          (case net_SplitHostPort addr of
             Inl e \<Rightarrow> Exits []
           | Inr (host, _) \<Rightarrow> Returned host))"

text \<open>
  The loop of \<^verbatim>\<open>getHostnameOrDie\<close>: attempts left, the results of the attempts, the number of the
  next one, and what the previous one left in the variables. The metadata service may answer
  each attempt differently.
\<close>

fun hostname_loop :: "nat \<Rightarrow> (nat \<Rightarrow> string res) \<Rightarrow> nat \<Rightarrow> string res \<Rightarrow> string outcome" where
  "hostname_loop 0 getHostname i res = (case res of Inl e \<Rightarrow> Exits [] | Inr h \<Rightarrow> Returned h)"
| "hostname_loop (Suc k) getHostname i res =
     (case getHostname i of
        Inr h \<Rightarrow> Returned h
      | Inl e \<Rightarrow> hostname_loop k getHostname (Suc i) (Inl e))"

definition getHostnameOrDie :: "bool \<Rightarrow> string res \<Rightarrow> (nat \<Rightarrow> md_client) \<Rightarrow> string outcome" where
  "getHostnameOrDie inEnclave dialed client =
     (if \<not> inEnclave then getLocalAddr dialed
      else hostname_loop 5 (\<lambda>i. getLocalEC2Hostname (client i)) 0 (Inr []))"

section \<open>Leader and worker set-up\<close>

definition setupLeader :: "'c enclave \<Rightarrow> 'c enclave" where
  "setupLeader e =
     e\<lparr>en_workers := wm_start (en_workers e),
       en_routes := (en_routes e)(ExtPriv :=
         set_route (Some ''POST'') pathHeartbeat HeartbeatHandler (en_routes e ExtPriv))\<rparr>"

text \<open>
  The installer that \<^verbatim>\<open>finishSync\<close> calls. Finding out the hostname may end the process; then the
  heartbeat is not started.
\<close>

definition setupWorkerPostSync ::
    "'c pki \<Rightarrow> string outcome \<Rightarrow> enclaveKeys \<Rightarrow> 'c enclave \<Rightarrow> ('c enclave \<times> go_error option) outcome" where
  "setupWorkerPostSync pki hostname keys e =
     (let e1 = e\<lparr>en_keys := keys_set keys (en_keys e)\<rparr> in
      case pk_X509KeyPair pki (slice_bytes (NitridingCert keys)) (slice_bytes (NitridingKey keys)) of
        Inl err \<Rightarrow> Returned (e1, Some err)
      | Inr cert \<Rightarrow>
          (let e2 = e1\<lparr>en_httpsCert := certRetriever_set (Some cert) (en_httpsCert e1)\<rparr> in
           case hostname of
             Returned h \<Rightarrow>
               Returned (e2\<lparr>en_heartbeatLoops :=
                 getSyncURL h (ExtPrivPort (en_cfg e2)) # en_heartbeatLoops e2\<rparr>, None)
           | Blocks h \<Rightarrow> Blocks (e2, None)
           | Panics h \<Rightarrow> Panics (e2, None)
           | Exits h \<Rightarrow> Exits (e2, None)))"

text \<open>\<^verbatim>\<open>makeLeaderRequest\<close>: what it sends to which of its two channels.\<close>

datatype leader_reply = ToErrChan go_error | ToAreWeLeader bool

definition makeLeaderRequest :: "(url \<Rightarrow> nat res) \<Rightarrow> url \<Rightarrow> nonce \<Rightarrow> leader_reply" where
  "makeLeaderRequest get leader ourNonce =
     (case get (leader\<lparr>u_RawQuery := nonce_query ourNonce\<rparr>) of
        Inl e \<Rightarrow> ToErrChan e
      | Inr status \<Rightarrow>
          (if status = StatusGone then ToAreWeLeader False
           else ToErrChan (ErrNew (''leader designation endpoint returned '' @ show_nat status))))"

text \<open>What the \<^verbatim>\<open>select\<close> of \<^verbatim>\<open>weAreLeader\<close> receives, round by round.\<close>

datatype leader_event = OnStop | OnErr | OnReply bool | OnSignal | OnTimeout

fun leader_loop :: "leader_event list \<Rightarrow> 'c enclave \<Rightarrow> ('c enclave \<times> bool) outcome" where
  "leader_loop [] e = Blocks (e, False)"
| "leader_loop (OnStop # evs) e = Returned (e, False)"
| "leader_loop (OnErr # evs) e = leader_loop evs e"
| "leader_loop (OnReply b # evs) e = Returned (e, b)"
| "leader_loop (OnSignal # evs) e = Returned (setupLeader e, True)"
| "leader_loop (OnTimeout # evs) e = Exits (e, False)"

definition set_leader_route :: "handler \<Rightarrow> 'c enclave \<Rightarrow> 'c enclave" where
  "set_leader_route h e =
     e\<lparr>en_routes := (en_routes e)(ExtPriv := set_route (Some ''GET'') pathLeader h (en_routes e ExtPriv))\<rparr>"

text \<open>
  \<^verbatim>\<open>weAreLeader\<close>: the deferred calls, last one first, reset the route and set the state. They do
  not run when the process ends.
\<close>

definition weAreLeader :: "nonce res \<Rightarrow> leader_event list \<Rightarrow> 'c enclave \<Rightarrow> ('c enclave \<times> bool) outcome" where
  "weAreLeader ourNonce evs e =
     (case ourNonce of
        Inl err \<Rightarrow> Exits (e, False)
      | Inr n \<Rightarrow>
          (case leader_loop evs (set_leader_route LeaderHandler e) of
             Returned (e1, result) \<Rightarrow>
               (let e2 = set_leader_route Gone e1 in
                Returned (if result then setSyncState isLeader e2 else setSyncState isWorker e2, result))
           | out \<Rightarrow> out))"

section \<open>Registration and heartbeats\<close>

text \<open>
  \<^verbatim>\<open>registerWith\<close>: what its \<^verbatim>\<open>select\<close> receives, the result of an attempt standing for the leader's
  answer to it. The requests that the attempts made are part of the result.
\<close>

datatype reg_event = RegAnswer "nat res" | RegTimeout | RegRetry

definition register_request :: "url \<Rightarrow> url \<Rightarrow> url \<times> bytes" where
  "register_request leader worker =
     (leader, heartbeat_Marshal \<lparr>hb_HashedKeys = [], hb_WorkerHostname = u_Host worker\<rparr>)"

definition register_result :: "nat res \<Rightarrow> go_error option" where
  "register_result resp =
     (case resp of
        Inl e \<Rightarrow> Some e
      | Inr status \<Rightarrow>
          (if status \<noteq> StatusOK then Some (ErrNew (''leader returned HTTP code '' @ show_nat status))
           else None))"

fun register_loop ::
    "(url \<times> bytes) \<Rightarrow> reg_event list \<Rightarrow> (url \<times> bytes) list
     \<Rightarrow> ((url \<times> bytes) list \<times> go_error option) outcome" where
  "register_loop req [] made = Blocks (made, None)"
| "register_loop req (RegAnswer resp # evs) made =
     (case register_result resp of
        None \<Rightarrow> Returned (made, None)
      | Some e \<Rightarrow> register_loop req evs made)"
| "register_loop req (RegTimeout # evs) made =
     Returned (made, Some (ErrNew ''timed out syncing with leader''))"
| "register_loop req (RegRetry # evs) made = register_loop req evs (made @ [req])"

definition registerWith ::
    "url \<Rightarrow> url \<Rightarrow> reg_event list \<Rightarrow> ((url \<times> bytes) list \<times> go_error option) outcome" where
  "registerWith leader worker evs =
     register_loop (register_request leader worker) evs [register_request leader worker]"

datatype hb_event = HbStop | HbTick

text \<open>
  One beat: hash the keys, post them to the leader, count the result. The leader is an argument
  that acts on the state of the world.
\<close>

definition beat ::
    "(go_error \<Rightarrow> string) \<Rightarrow> (url \<Rightarrow> bytes \<Rightarrow> 'w \<Rightarrow> 'w \<times> nat res) \<Rightarrow> url
     \<Rightarrow> 'c enclave \<times> 'w \<Rightarrow> 'c enclave \<times> 'w" where
  "beat render post worker ex =
     (let (e, x) = ex;
          body = heartbeat_Marshal \<lparr>hb_HashedKeys = hashAndB64 (en_keys e), hb_WorkerHostname = u_Host worker\<rparr>;
          (x', resp) = post (getLeader (en_cfg e) pathHeartbeat) body x;
          ls = (case resp of
                  Inl err \<Rightarrow> badHb render err
                | Inr status \<Rightarrow>
                    (if status \<noteq> StatusOK then badHb render (ErrNew (''got status code '' @ show_nat status))
                     else goodHb)) in
      (e\<lparr>en_metrics := (en_metrics e)\<lparr>me_heartbeats := add_mset ls (me_heartbeats (en_metrics e))\<rparr>\<rparr>, x'))"

fun workerHeartbeat ::
    "(go_error \<Rightarrow> string) \<Rightarrow> (url \<Rightarrow> bytes \<Rightarrow> 'w \<Rightarrow> 'w \<times> nat res) \<Rightarrow> url \<Rightarrow> hb_event list
     \<Rightarrow> 'c enclave \<times> 'w \<Rightarrow> ('c enclave \<times> 'w) outcome" where
  "workerHeartbeat render post worker [] ex = Blocks ex"
| "workerHeartbeat render post worker (HbStop # evs) ex = Returned ex"
| "workerHeartbeat render post worker (HbTick # evs) ex =
     workerHeartbeat render post worker evs (beat render post worker ex)"

section \<open>Start and stop\<close>

text \<open>
  Everything outside the enclave that \<^verbatim>\<open>Start\<close> depends on, and how far it came: the enclave, the
  operations on the system, the servers launched and the registrations sent.
\<close>

record ('c, 'k) start_env =
  se_inEnclave :: bool
  se_os :: os
  se_pki :: "'c pki"
  se_crypto :: "'k crypto"
  se_notBefore :: int
  se_now :: int
  se_rand :: rand
  se_leaderEvents :: "leader_event list"
  se_dialed :: "string res"
  se_metadata :: "nat \<Rightarrow> md_client"
  se_regEvents :: "reg_event list"

record 'c started =
  sd_enclave :: "'c enclave"
  sd_history :: history
  sd_servers :: "launch list"
  sd_requests :: "(url \<times> bytes) list"

definition errPrefix :: string where
  "errPrefix = ''failed to start Nitro Enclave''"

text \<open>The last part of \<^verbatim>\<open>Start\<close>, for a worker.\<close>

definition start_worker ::
    "('c, 'k) start_env \<Rightarrow> 'c started \<Rightarrow> ('c started \<times> go_error option) outcome" where
  "start_worker env st =
     (let cfg = en_cfg (sd_enclave st);
          leader = getLeader cfg pathHeartbeat in
      case getHostnameOrDie (se_inEnclave env) (se_dialed env) (se_metadata env) of
        Returned host \<Rightarrow>
          (case registerWith leader (getSyncURL host (ExtPrivPort cfg)) (se_regEvents env) of
             Returned (reqs, None) \<Rightarrow> Returned (st\<lparr>sd_requests := reqs\<rparr>, None)
           | Returned (reqs, Some err) \<Rightarrow> Exits (st\<lparr>sd_requests := reqs\<rparr>, None)
           | Blocks (reqs, _) \<Rightarrow> Blocks (st\<lparr>sd_requests := reqs\<rparr>, None)
           | Panics (reqs, _) \<Rightarrow> Panics (st\<lparr>sd_requests := reqs\<rparr>, None)
           | Exits (reqs, _) \<Rightarrow> Exits (st\<lparr>sd_requests := reqs\<rparr>, None))
      | Blocks host \<Rightarrow> Blocks (st, None)
      | Panics host \<Rightarrow> Panics (st, None)
      | Exits host \<Rightarrow> Exits (st, None))"

text \<open>The part of \<^verbatim>\<open>Start\<close> after the servers are launched.\<close>

definition start_role ::
    "('c, 'k) start_env \<Rightarrow> 'c started \<Rightarrow> ('c started \<times> go_error option) outcome" where
  "start_role env st =
     (if \<not> isScalingEnabled (en_cfg (sd_enclave st)) then Returned (st, None)
      else
        (case weAreLeader (newNonce (se_rand env)) (se_leaderEvents env) (sd_enclave st) of
           Returned (e, leader) \<Rightarrow>
             (if leader then Returned (st\<lparr>sd_enclave := e\<rparr>, None)
              else start_worker env (st\<lparr>sd_enclave := e\<rparr>))
         | Blocks (e, _) \<Rightarrow> Blocks (st\<lparr>sd_enclave := e\<rparr>, None)
         | Panics (e, _) \<Rightarrow> Panics (st\<lparr>sd_enclave := e\<rparr>, None)
         | Exits (e, _) \<Rightarrow> Exits (st\<lparr>sd_enclave := e\<rparr>, None)))"

definition Start ::
    "('c, 'k) start_env \<Rightarrow> 'c enclave \<times> history \<Rightarrow> ('c started \<times> go_error option) outcome" where
  "Start env eh =
     (let (e, h) = eh;
          (h1, loErr) =
            (if se_inEnclave env then
               configureLoIface (se_os env)
                 (fst (setFdLimit (se_os env) (unat (FdCur (en_cfg e))) (unat (FdMax (en_cfg e))) h))
             else (h, None));
          st = \<lparr>sd_enclave = e, sd_history = h1, sd_servers = [], sd_requests = []\<rparr> in
      case loErr of
        Some err \<Rightarrow> Returned (st, Some (ErrWrap errPrefix err))
      | None \<Rightarrow>
          (let e0 = e\<lparr>en_networking := True\<rparr> in
           case (if UseACME (en_cfg e0) then setupAcme e0
                 else genSelfSignedCert (se_pki env)
                   (createCertificate (se_crypto env) (se_notBefore env) (se_now env) (FQDN (en_cfg e0))) e0) of
             (e1, Some err) \<Rightarrow>
               Returned (st\<lparr>sd_enclave := e1\<rparr>, Some (ErrWrap (errPrefix @ '': failed to create certificate'') err))
           | (e1, None) \<Rightarrow>
               start_role env (st\<lparr>sd_enclave := e1, sd_servers := startWebServers e1\<rparr>)))"

text \<open>
  \<^verbatim>\<open>Stop\<close> closes the channel, which panics if it is closed already, and shuts the servers down in
  turn up to the first error.
\<close>

fun shutdown :: "(web_server \<Rightarrow> go_error option) \<Rightarrow> web_server list \<Rightarrow> web_server list \<times> go_error option" where
  "shutdown res [] = ([], None)"
| "shutdown res (s # ss) =
     (case res s of
        Some err \<Rightarrow> ([s], Some err)
      | None \<Rightarrow> (case shutdown res ss of (done, err) \<Rightarrow> (s # done, err)))"

definition Stop ::
    "(web_server \<Rightarrow> go_error option) \<Rightarrow> 'c enclave \<Rightarrow> ('c enclave \<times> web_server list \<times> go_error option) outcome" where
  "Stop res e =
     (if en_stopClosed e then Panics (e, [], None)
      else Returned (e\<lparr>en_stopClosed := True\<rparr>, shutdown res [IntSrv, ExtPubSrv, ExtPrivSrv, PromSrv]))"

section \<open>Lemmas: certificates\<close>

lemma fingerprint_loop_keeps_app: "appKeyHash (fst (fingerprint_loop parse blocks h)) = appKeyHash h"
  by (induction parse blocks h rule: fingerprint_loop.induct) (auto split: sum.splits)

lemma fingerprint_loop_error:
  "snd (fingerprint_loop parse blocks h) \<noteq> None \<Longrightarrow> fst (fingerprint_loop parse blocks h) = h"
  by (induction parse blocks h rule: fingerprint_loop.induct) (auto split: sum.splits if_splits)

lemma fingerprint_loop_wf: "wf_hashes h \<Longrightarrow> wf_hashes (fst (fingerprint_loop parse blocks h))"
  by (induction parse blocks h rule: fingerprint_loop.induct)
    (auto simp: wf_hashes_def sha256_Size_def split: sum.splits)

text \<open>The certificates among the blocks; the loop looks for the first that is not a CA's.\<close>

definition certs_of :: "(bytes \<Rightarrow> x509_cert res) \<Rightarrow> (string \<times> bytes) list \<Rightarrow> x509_cert list" where
  "certs_of parse blocks = map (\<lambda>b. projr (parse (snd b))) (filter (\<lambda>b. fst b = ''CERTIFICATE'') blocks)"

lemma fingerprint_loop_spec:
  assumes "\<forall>b\<in>set blocks. fst b = ''CERTIFICATE'' \<longrightarrow> is_ok (parse (snd b))"
  shows "fingerprint_loop parse blocks h =
    (case find (\<lambda>c. \<not> xc_IsCA c) (certs_of parse blocks) of
       None \<Rightarrow> (h, Some noPemError)
     | Some c \<Rightarrow> (h\<lparr>tlsKeyHash := sha256_Sum256 (xc_Raw c)\<rparr>, None))"
  using assms
proof (induction parse blocks h rule: fingerprint_loop.induct)
  case (2 parse kind contents blocks h)
  then show ?case
    by (cases "kind = ''CERTIFICATE''"; cases "parse contents") (auto simp: certs_of_def)
qed (simp add: certs_of_def)

lemma setCertFingerprint_wf:
  assumes "wf_hashes (en_hashes e)"
  shows "wf_hashes (en_hashes (fst (setCertFingerprint pki raw e)))"
  using fingerprint_loop_wf [OF assms, of "pk_ParseCertificate pki" "pk_pem_blocks pki raw"] assms
  by (auto simp: setCertFingerprint_def wf_hashes_def split: sum.splits prod.splits)

section \<open>Lemmas: roles\<close>

lemma weAreLeader_cases:
  assumes "weAreLeader n evs e = Returned (e', result)"
  shows "en_syncState e' = (if result then isLeader else isWorker)
    \<and> (Some ''GET'', pathLeader, Gone) \<in> set (en_routes e' ExtPriv)
    \<and> (Some ''GET'', pathLeader, LeaderHandler) \<notin> set (en_routes e' ExtPriv)
    \<and> (OnSignal \<in> set evs \<longrightarrow> \<not> (\<exists>b. OnReply b \<in> set evs) \<longrightarrow> OnStop \<notin> set evs \<longrightarrow> result)
    \<and> (result \<longrightarrow> OnSignal \<in> set evs \<or> OnReply True \<in> set evs)"
proof -
  obtain nn e1 where l: "n = Inr nn" "leader_loop evs (set_leader_route LeaderHandler e) = Returned (e1, result)"
    and e': "e' = setSyncState (if result then isLeader else isWorker) (set_leader_route Gone e1)"
    using assms by (auto simp: weAreLeader_def Let_def split: sum.splits outcome.splits)
  have ev: "(OnSignal \<in> set evs \<longrightarrow> \<not> (\<exists>b. OnReply b \<in> set evs) \<longrightarrow> OnStop \<notin> set evs \<longrightarrow> result)
    \<and> (result \<longrightarrow> OnSignal \<in> set evs \<or> OnReply True \<in> set evs)"
    using l(2) by (induction evs "set_leader_route LeaderHandler e" rule: leader_loop.induct) auto
  have r: "en_routes e' ExtPriv = set_route (Some ''GET'') pathLeader Gone (en_routes e1 ExtPriv)"
    by (simp add: e' setSyncState_def set_leader_route_def)
  show ?thesis using ev unfolding r by (auto simp: e' setSyncState_def set_route_def)
qed

lemma hostname_loop_result:
  "hostname_loop k f i (Inl e) =
   (case find (\<lambda>j. is_ok (f j)) [i..<i + k] of
      None \<Rightarrow> Exits []
    | Some j \<Rightarrow> Returned (projr (f j)))"
proof (induction k arbitrary: i e)
  case (Suc k)
  have "[i..<i + Suc k] = i # [Suc i..<Suc i + k]" by (simp add: upt_rec)
  with Suc [of "Suc i"] show ?case by (cases "f i") simp_all
qed simp

section \<open>Lemmas: start\<close>

text \<open>What the certificate, designation and the set-up of a leader leave as it is.\<close>

definition same_setting :: "'c enclave \<Rightarrow> 'c enclave \<Rightarrow> bool" where
  "same_setting e e' \<longleftrightarrow> en_cfg e' = en_cfg e \<and> en_addr e' = en_addr e \<and> en_networking e' = en_networking e"

lemma same_setting_servers:
  "same_setting e e' \<Longrightarrow> en_pubTLS e' = en_pubTLS e \<Longrightarrow> en_privTLS e' = en_privTLS e \<Longrightarrow>
   startWebServers e' = startWebServers e"
  by (simp add: startWebServers_def same_setting_def)

lemma setCertFingerprint_setting:
  "setCertFingerprint pki raw e = (e', err) \<Longrightarrow> same_setting e e' \<and> en_syncState e' = en_syncState e"
  by (auto simp: setCertFingerprint_def same_setting_def split: if_splits sum.splits prod.splits)

lemma certificate_setting:
  assumes "(if UseACME (en_cfg e) then setupAcme e else genSelfSignedCert pki created e) = (e', None)"
  shows "same_setting e e' \<and> en_syncState e' = en_syncState e"
proof (cases "UseACME (en_cfg e)")
  case True
  with assms show ?thesis by (auto simp: setupAcme_def same_setting_def)
next
  case False
  with assms obtain cert key e1 where e1: "setCertFingerprint pki cert e = (e1, None)"
    and "same_setting e1 e' \<and> en_syncState e' = en_syncState e1"
    by (auto simp: genSelfSignedCert_def Let_def same_setting_def split: sum.splits prod.splits option.splits)
  with setCertFingerprint_setting [OF e1] show ?thesis by (simp add: same_setting_def)
qed

lemma leader_loop_setting:
  "leader_loop evs e = Returned (e', result) \<Longrightarrow>
   same_setting e e' \<and> en_pubTLS e' = en_pubTLS e \<and> en_privTLS e' = en_privTLS e"
  by (induction evs e rule: leader_loop.induct) (auto simp: same_setting_def setupLeader_def)

lemma weAreLeader_setting:
  assumes "weAreLeader n evs e = Returned (e', result)"
  shows "same_setting e e' \<and> en_pubTLS e' = en_pubTLS e \<and> en_privTLS e' = en_privTLS e
    \<and> en_syncState e' = (if result then isLeader else isWorker)"
  using assms leader_loop_setting [of evs "set_leader_route LeaderHandler e"]
  by (auto simp: weAreLeader_def Let_def set_leader_route_def setSyncState_def same_setting_def
      split: sum.splits outcome.splits)

lemma register_loop_requests:
  "register_loop req evs made = Returned (made', err) \<Longrightarrow> set made = {req} \<Longrightarrow> set made' = {req}"
  by (induction req evs made rule: register_loop.induct) (auto split: option.splits)

lemma start_worker_cases:
  assumes "start_worker env st = Returned (st', err)"
  obtains host reqs where "err = None" "st' = st\<lparr>sd_requests := reqs\<rparr>"
    "getHostnameOrDie (se_inEnclave env) (se_dialed env) (se_metadata env) = Returned host"
    "set reqs = {register_request (getLeader (en_cfg (sd_enclave st)) pathHeartbeat)
      (getSyncURL host (ExtPrivPort (en_cfg (sd_enclave st))))}"
  using assms
  by (auto simp: start_worker_def registerWith_def Let_def dest: register_loop_requests
      split: outcome.splits prod.splits option.splits)

text \<open>What a new enclave's role is settled to, with its servers launched before.\<close>

lemma start_role_cases:
  assumes "start_role env st = Returned (st', None)" "sd_requests st = []"
    and "sd_servers st = startWebServers (sd_enclave st)" "en_cfg (sd_enclave st) = cfg"
  shows "en_cfg (sd_enclave st') = cfg \<and> en_networking (sd_enclave st') = en_networking (sd_enclave st)
    \<and> sd_servers st' = startWebServers (sd_enclave st')
    \<and> (if FQDNLeader cfg = [] then getSyncState (sd_enclave st') = getSyncState (sd_enclave st) \<and> sd_requests st' = []
       else getSyncState (sd_enclave st') = isLeader \<and> sd_requests st' = []
         \<or> getSyncState (sd_enclave st') = isWorker
           \<and> (\<exists>host. getHostnameOrDie (se_inEnclave env) (se_dialed env) (se_metadata env) = Returned host
               \<and> set (sd_requests st') =
                   {register_request (getLeader cfg pathHeartbeat) (getSyncURL host (ExtPrivPort cfg))}))"
proof (cases "FQDNLeader cfg = []")
  case True
  with assms show ?thesis by (auto simp: start_role_def isScalingEnabled_def)
next
  case False
  with assms(1,4) obtain e leader where
    w: "weAreLeader (newNonce (se_rand env)) (se_leaderEvents env) (sd_enclave st) = Returned (e, leader)"
    and st: "(if leader then Returned (st\<lparr>sd_enclave := e\<rparr>, None) else start_worker env (st\<lparr>sd_enclave := e\<rparr>))
      = Returned (st', None)"
    by (auto simp: start_role_def isScalingEnabled_def split: outcome.splits prod.splits)
  have e: "en_cfg e = cfg" "en_networking e = en_networking (sd_enclave st)"
    "startWebServers e = startWebServers (sd_enclave st)"
    "en_syncState e = (if leader then isLeader else isWorker)"
    using weAreLeader_setting [OF w] same_setting_servers [of "sd_enclave st" e] assms(4)
    by (auto simp: same_setting_def)
  from st show ?thesis
    by (cases leader) (auto simp: assms(2,3) e False getSyncState_def elim!: start_worker_cases)
qed

section \<open>A concrete enclave\<close>

text \<open>The configuration of \<^verbatim>\<open>nitriding -fqdn a\<close> and the enclave made from it.\<close>

definition plain_config :: Config where
  "plain_config =
     \<lparr>FQDN = ''a'', FQDNLeader = [], ExtPubPort = 443, ExtPrivPort = 444, IntPort = 8080,
      UseVsockForExtPort = False, DisableKeepAlives = False, HostProxyPort = 1024, PrometheusPort = 0,
      PrometheusNamespace = [], UseProfiling = False, UseACME = False, Debug = False, FdCur = 0, FdMax = 0,
      AppURL = None, AppWebSrv = None, WaitForApp = False, MockCertFp = []\<rparr>"

definition plain_enclave :: "'c enclave" where
  "plain_enclave = projr (NewEnclave plain_config)"

lemma plain_enclave: "NewEnclave plain_config = Inr plain_enclave"
  by (simp add: plain_enclave_def NewEnclave_def plain_config_def Validate_def isScalingEnabled_def)

lemma plain_enclave_cfg [simp]: "en_cfg plain_enclave = plain_config"
  by (simp add: plain_enclave_def NewEnclave_def plain_config_def Validate_def isScalingEnabled_def)

lemma plain_enclave_hashes [simp]: "en_hashes plain_enclave = newAttestationHashes"
  by (simp add: plain_enclave_def NewEnclave_def plain_config_def Validate_def isScalingEnabled_def)

lemma plain_config_mock [simp]: "MockCertFp plain_config = []"
  by (simp add: plain_config_def)

section \<open>Properties\<close>

text \<open>A new enclave exists exactly for a valid configuration. It starts without keys and certificate,
  with zero hashes and a worker manager that does not run yet; it is in the state of designation
  exactly if scaling is enabled, and uses the dummy attester exactly in debug mode.\<close>

theorem new_enclave_initial:
  "case NewEnclave cfg of
     Inl err \<Rightarrow> (\<exists>e. Validate cfg = Some e \<and> err = ErrWrap ''failed to create enclave'' e)
   | Inr e \<Rightarrow> Validate cfg = None \<and> en_keys e = noKeys \<and> en_hashes e = newAttestationHashes
       \<and> certRetriever_get (en_httpsCert e) = Inl ErrUninitializedCert
       \<and> \<not> wm_running (en_workers e) \<and> \<not> en_stopClosed e
       \<and> getSyncState e = (if FQDNLeader cfg = [] then noSync else inProgress)
       \<and> en_attester e = (if Debug cfg then DummyAttester else NitroAttester)"
  by (auto simp: NewEnclave_def Let_def newWorkerManager_def setSyncState_def getSyncState_def
      isScalingEnabled_def certRetriever_get_def split: option.splits)

text \<open>C34: If every certificate in the PEM data parses and no mock fingerprint is configured, the TLS hash
  becomes the SHA-256 digest of the first certificate that is not a CA's; if there is none, an
  error is returned and no hash changes. The application's hash never changes.\<close>

theorem fingerprint_of_leaf:
  assumes "MockCertFp (en_cfg e) = []"
    and "\<forall>b\<in>set (pk_pem_blocks pki raw). fst b = ''CERTIFICATE'' \<longrightarrow> is_ok (pk_ParseCertificate pki (snd b))"
  shows "setCertFingerprint pki raw e =
    (case find (\<lambda>c. \<not> xc_IsCA c) (certs_of (pk_ParseCertificate pki) (pk_pem_blocks pki raw)) of
       None \<Rightarrow> (e, Some noPemError)
     | Some c \<Rightarrow> (e\<lparr>en_hashes := (en_hashes e)\<lparr>tlsKeyHash := sha256_Sum256 (xc_Raw c)\<rparr>\<rparr>, None))"
  using assms(1)
  by (simp add: setCertFingerprint_def fingerprint_loop_spec [OF assms(2)] split: option.splits)

theorem fingerprint_of_leaf_witness:
  "tlsKeyHash (en_hashes (fst (setCertFingerprint
     \<lparr>pk_pem_blocks = (\<lambda>_. [(''PRIVATE KEY'', [0]), (''CERTIFICATE'', [1]), (''CERTIFICATE'', [2])]),
      pk_ParseCertificate = (\<lambda>b. Inr \<lparr>xc_IsCA = (b = [1]), xc_Raw = b\<rparr>),
      pk_X509KeyPair = (\<lambda>_ _. Inr ())\<rparr> [] plain_enclave))) = sha256_Sum256 [2]"
  by (subst fingerprint_of_leaf) (simp_all add: certs_of_def)

text \<open>C35: With a self-signed certificate everything that serves or vouches for it agrees: the keys hold the
  certificate and its key, the TLS servers hand out the certificate made from them, all servers can
  serve, and only the public one may wait for the application.\<close>

theorem self_signed_serves:
  assumes "genSelfSignedCert pki (Inr (cert, key)) e = (e', None)"
  shows "NitridingCert (en_keys e') = Some cert \<and> NitridingKey (en_keys e') = Some key
    \<and> certRetriever_get (en_httpsCert e') = pk_X509KeyPair pki cert key
    \<and> (\<forall>l\<in>set (startWebServers e'). can_serve l)
    \<and> (\<forall>l\<in>set (startWebServers e'). la_waits l \<longrightarrow> la_server l = ExtPubSrv)"
proof -
  obtain e1 tls where "setCertFingerprint pki cert e = (e1, None)" "pk_X509KeyPair pki cert key = Inr tls"
    "e' = e1\<lparr>en_keys := setNitridingKeys (Some key) (Some cert) (en_keys e1),
        en_httpsCert := certRetriever_set (Some tls) (en_httpsCert e1),
        en_pubTLS := Some GetCertificate, en_privTLS := Some GetCertificate\<rparr>"
    using assms by (auto simp: genSelfSignedCert_def Let_def split: prod.splits option.splits sum.splits)
  then show ?thesis by (simp add: startWebServers_def can_serve_def setNitridingKeys_def)
qed

theorem self_signed_serves_witness:
  "\<exists>e'. genSelfSignedCert
      \<lparr>pk_pem_blocks = (\<lambda>_. [(''CERTIFICATE'', [2])]),
       pk_ParseCertificate = (\<lambda>b. Inr \<lparr>xc_IsCA = False, xc_Raw = b\<rparr>),
       pk_X509KeyPair = (\<lambda>_ _. Inr ())\<rparr> (Inr ([2], [3])) plain_enclave = (e', None)
    \<and> NitridingKey (en_keys e') = Some [3]"
proof -
  let ?pki = "\<lparr>pk_pem_blocks = (\<lambda>_. [(''CERTIFICATE'', [2])]),
    pk_ParseCertificate = (\<lambda>b. Inr \<lparr>xc_IsCA = False, xc_Raw = b\<rparr>), pk_X509KeyPair = (\<lambda>_ _. Inr ())\<rparr>"
  have "snd (genSelfSignedCert ?pki (Inr ([2], [3])) plain_enclave) = None"
    by (simp add: genSelfSignedCert_def setCertFingerprint_def)
  then obtain e' where "genSelfSignedCert ?pki (Inr ([2], [3])) plain_enclave = (e', None)"
    by (metis prod.collapse)
  with self_signed_serves [OF this] show ?thesis by blast
qed

text \<open>C36: With a certificate from Let's Encrypt the private server of a fresh enclave is started without
  any certificate, which it cannot serve with.\<close>

theorem acme_private_server_fails:
  assumes "NewEnclave cfg = Inr e" "setupAcme e = (e', err)"
  shows "err = None \<and> (\<exists>l\<in>set (startWebServers e'). la_server l = ExtPrivSrv \<and> \<not> can_serve l)"
proof -
  have "en_privTLS e = None"
    using assms(1) by (auto simp: NewEnclave_def Let_def setSyncState_def split: option.splits if_splits)
  with assms(2) show ?thesis by (auto simp: setupAcme_def startWebServers_def can_serve_def)
qed

theorem acme_private_server_fails_witness:
  "\<exists>l\<in>set (startWebServers (fst (setupAcme (plain_enclave :: unit enclave)))).
     la_server l = ExtPrivSrv \<and> \<not> can_serve l"
  by (rule conjunct2 [OF acme_private_server_fails [OF plain_enclave surjective_pairing]])

text \<open>C37: Installing the leader's keys replaces all key material and the served certificate and starts one
  more heartbeat loop, but leaves the hashes for attestation documents as they are, so that the TLS
  hash is still that of the certificate the worker no longer serves.\<close>

theorem post_sync_keeps_old_fingerprint:
  assumes "setupWorkerPostSync pki (Returned host) keys e = Returned (e', None)"
  shows "en_keys e' = keys
    \<and> certRetriever_get (en_httpsCert e') =
        pk_X509KeyPair pki (slice_bytes (NitridingCert keys)) (slice_bytes (NitridingKey keys))
    \<and> en_heartbeatLoops e' = getSyncURL host (ExtPrivPort (en_cfg e)) # en_heartbeatLoops e
    \<and> en_hashes e' = en_hashes e"
  using assms by (auto simp: setupWorkerPostSync_def Let_def split: sum.splits outcome.splits)

theorem post_sync_keeps_old_fingerprint_witness:
  "\<exists>e' :: bytes enclave. setupWorkerPostSync
      \<lparr>pk_pem_blocks = (\<lambda>_. []), pk_ParseCertificate = (\<lambda>b. Inl EOF), pk_X509KeyPair = (\<lambda>c k. Inr c)\<rparr>
      (Returned ''host'') \<lparr>NitridingKey = Some [1], NitridingCert = Some [2], AppKeys = None\<rparr> plain_enclave = Returned (e', None)
    \<and> certRetriever_get (en_httpsCert e') = Inr [2] \<and> en_hashes e' = newAttestationHashes"
proof -
  let ?pki = "\<lparr>pk_pem_blocks = (\<lambda>_. []), pk_ParseCertificate = (\<lambda>b. Inl EOF), pk_X509KeyPair = (\<lambda>c k. Inr c)\<rparr>"
  let ?keys = "\<lparr>NitridingKey = Some [1], NitridingCert = Some [2], AppKeys = None\<rparr>"
  obtain e' where "setupWorkerPostSync ?pki (Returned ''host'') ?keys (plain_enclave :: bytes enclave) = Returned (e', None)"
    by (simp add: setupWorkerPostSync_def)
  with post_sync_keeps_old_fingerprint [OF this] show ?thesis by (auto simp: slice_bytes_def)
qed

text \<open>Leader designation always leaves a clean state behind: whenever it returns, the enclave is leader
  or worker and no longer in progress, its designation endpoint answers 410, and it is leader only
  if it received its own nonce.\<close>

theorem designation_outcome:
  assumes "weAreLeader n evs e = Returned (e', result)" "OnReply True \<notin> set evs"
  shows "getSyncState e' = (if result then isLeader else isWorker)
    \<and> (Some ''GET'', pathLeader, Gone) \<in> set (en_routes e' ExtPriv)
    \<and> (Some ''GET'', pathLeader, LeaderHandler) \<notin> set (en_routes e' ExtPriv)
    \<and> (result \<longrightarrow> OnSignal \<in> set evs)"
  using weAreLeader_cases [OF assms(1)] assms(2) by (simp add: getSyncState_def)

theorem designation_outcome_witness:
  "\<exists>e' :: unit enclave. weAreLeader (Inr zero_nonce) [OnErr, OnErr, OnReply False] plain_enclave = Returned (e', False)
     \<and> getSyncState e' = isWorker"
proof -
  obtain e' :: "unit enclave" where
    "weAreLeader (Inr zero_nonce) [OnErr, OnErr, OnReply False] plain_enclave = Returned (e', False)"
    by (simp add: weAreLeader_def)
  with designation_outcome [OF this] show ?thesis by auto
qed

text \<open>C19: A start that succeeds leaves nothing undecided: all servers are launched and networking runs; the
  role is settled, none without scaling and otherwise leader or worker; and a worker has sent the
  leader's heartbeat endpoint nothing but its own registration, at least once, while nobody else
  sent anything.\<close>

theorem start_settles_role:
  assumes "NewEnclave cfg = Inr e" "Start env (e, h) = Returned (st, None)"
  shows "en_cfg (sd_enclave st) = cfg \<and> en_networking (sd_enclave st)
    \<and> sd_servers st = startWebServers (sd_enclave st)
    \<and> (case getSyncState (sd_enclave st) of
         noSync \<Rightarrow> FQDNLeader cfg = [] \<and> sd_requests st = []
       | inProgress \<Rightarrow> False
       | isLeader \<Rightarrow> FQDNLeader cfg \<noteq> [] \<and> sd_requests st = []
       | isWorker \<Rightarrow> FQDNLeader cfg \<noteq> []
           \<and> (\<exists>host. getHostnameOrDie (se_inEnclave env) (se_dialed env) (se_metadata env) = Returned host
               \<and> set (sd_requests st) =
                   {register_request (getLeader cfg pathHeartbeat) (getSyncURL host (ExtPrivPort cfg))}))"
proof -
  have e: "en_cfg e = cfg" "en_syncState e = (if FQDNLeader cfg = [] then noSync else inProgress)"
    using assms(1)
    by (auto simp: NewEnclave_def Let_def setSyncState_def isScalingEnabled_def split: option.splits if_splits)
  let ?e0 = "e\<lparr>en_networking := True\<rparr>"
  let ?created = "createCertificate (se_crypto env) (se_notBefore env) (se_now env) (FQDN (en_cfg ?e0))"
  obtain e1 h1 where
    c: "(if UseACME (en_cfg ?e0) then setupAcme ?e0 else genSelfSignedCert (se_pki env) ?created ?e0) = (e1, None)"
    and role: "start_role env \<lparr>sd_enclave = e1, sd_history = h1, sd_servers = startWebServers e1, sd_requests = []\<rparr>
      = Returned (st, None)"
    using assms(2) by (auto simp: Start_def Let_def split: prod.splits option.splits if_splits)
  have e1: "en_cfg e1 = cfg" "en_networking e1" "en_syncState e1 = en_syncState e"
    using certificate_setting [OF c] e(1) by (simp_all add: same_setting_def)
  show ?thesis
    using start_role_cases [OF role] e1 e(2)
    by (cases "FQDNLeader cfg = []") (auto simp: getSyncState_def)
qed

theorem start_settles_role_witness:
  "let cfg = plain_config\<lparr>FQDNLeader := ''l''\<rparr> in
   \<exists>e st. NewEnclave cfg = Inr e \<and> Start
      \<lparr>se_inEnclave = False, se_os = (\<lambda>_ _. None),
       se_pki = \<lparr>pk_pem_blocks = (\<lambda>_. [(''CERTIFICATE'', [2])]),
         pk_ParseCertificate = (\<lambda>b. Inr \<lparr>xc_IsCA = False, xc_Raw = b\<rparr>), pk_X509KeyPair = (\<lambda>_ _. Inr ())\<rparr>,
       se_crypto = \<lparr>cy_GenerateKey = Inr (), cy_RandInt = (\<lambda>_. Inr 1), cy_CreateCertificate = (\<lambda>_ _. Inr [2]),
         cy_MarshalPKCS8 = (\<lambda>_. Inr [3]), cy_EncodeToMemory = (\<lambda>_ b. Some b)\<rparr>,
       se_notBefore = 0, se_now = 0, se_rand = (\<lambda>n. (replicate n 1, None)), se_leaderEvents = [OnErr, OnReply False],
       se_dialed = Inr ''10.0.0.1:1234'', se_metadata = (\<lambda>_ _. Inl EOF),
       se_regEvents = [RegAnswer (Inr 500), RegRetry, RegAnswer (Inr 200)]\<rparr>
      (e, []) = Returned (st, None)
    \<and> getSyncState (sd_enclave st) = isWorker \<and> length (sd_servers st) = 3
    \<and> set (sd_requests st) = {register_request (getLeader cfg pathHeartbeat) (getSyncURL ''10.0.0.1'' 444)}"
proof -
  let ?env = "\<lparr>se_inEnclave = False, se_os = (\<lambda>_ _. None),
       se_pki = \<lparr>pk_pem_blocks = (\<lambda>_. [(''CERTIFICATE'', [2])]),
         pk_ParseCertificate = (\<lambda>b. Inr \<lparr>xc_IsCA = False, xc_Raw = b\<rparr>), pk_X509KeyPair = (\<lambda>_ _. Inr ())\<rparr>,
       se_crypto = \<lparr>cy_GenerateKey = Inr (), cy_RandInt = (\<lambda>_. Inr 1), cy_CreateCertificate = (\<lambda>_ _. Inr [2]),
         cy_MarshalPKCS8 = (\<lambda>_. Inr [3]), cy_EncodeToMemory = (\<lambda>_ b. Some b)\<rparr>,
       se_notBefore = 0, se_now = 0, se_rand = (\<lambda>n. (replicate n 1, None)), se_leaderEvents = [OnErr, OnReply False],
       se_dialed = Inr ''10.0.0.1:1234'', se_metadata = (\<lambda>_ _. Inl EOF),
       se_regEvents = [RegAnswer (Inr 500), RegRetry, RegAnswer (Inr 200)]\<rparr> :: (unit, unit) start_env"
  let ?cfg = "plain_config\<lparr>FQDNLeader := ''l''\<rparr>"
  have cfg: "UseACME ?cfg = False" "FQDNLeader ?cfg \<noteq> []" "PrometheusPort ?cfg = 0" "ExtPrivPort ?cfg = 444" "MockCertFp ?cfg = []"
    by (simp_all add: plain_config_def)
  obtain e :: "unit enclave" where e: "NewEnclave ?cfg = Inr e" "en_cfg e = ?cfg"
    by (simp add: NewEnclave_def plain_config_def Validate_def isScalingEnabled_def setSyncState_def)
  have "net_SplitHostPort (''10.0.0.1'' @ CHR '':'' # ''1234'') = Inr (''10.0.0.1'', ''1234'')"
    by (rule SplitHostPort_simple) simp_all
  then have host: "getHostnameOrDie False (Inr ''10.0.0.1:1234'') c = Returned ''10.0.0.1''" for c
    by (simp add: getHostnameOrDie_def getLocalAddr_def)
  have nonce: "newNonce (\<lambda>n. (replicate n 1, None)) = Inr (replicate 20 1)" by (simp add: newNonce_def nonceLen_def)
  obtain st where st: "Start ?env (e, []) = Returned (st, None)"
    and worker: "getSyncState (sd_enclave st) = isWorker"
    using cfg
    by (simp add: Start_def start_role_def start_worker_def Let_def e(2) isScalingEnabled_def createCertificate_def
        genSelfSignedCert_def setCertFingerprint_def weAreLeader_def nonce set_leader_route_def setSyncState_def host
        registerWith_def register_result_def getSyncState_def split: prod.splits)
  show ?thesis
    using start_settles_role [OF e(1) st] worker cfg host e(1) st unfolding Let_def
    by (intro exI [where x = e] exI [where x = st]) (auto simp: startWebServers_def)
qed

text \<open>The hostname is looked up at most five times: the first success is returned, and only if all
  five attempts fail does the process end.\<close>

theorem hostname_five_attempts:
  "getHostnameOrDie True dialed client =
   (case find (\<lambda>j. is_ok (getLocalEC2Hostname (client j))) [0..<5] of
      None \<Rightarrow> Exits []
    | Some j \<Rightarrow> Returned (projr (getLocalEC2Hostname (client j))))"
proof -
  have five: "[0..<5] = 0 # [1..<1 + 4 :: nat]" by (simp add: upt_rec)
  show ?thesis unfolding five getHostnameOrDie_def
    by (cases "getLocalEC2Hostname (client 0)") (simp_all add: numeral_eq_Suc hostname_loop_result)
qed

end
