(* ===== verification/Election.thy ===== *)
theory Election
  imports Enclave
begin

text \<open>
  Leader designation between enclaves (src/enclave.go \<^verbatim>\<open>weAreLeader\<close>, src/handlers.go
  \<^verbatim>\<open>getLeaderHandler\<close>, src/util.go \<^verbatim>\<open>makeLeaderRequest\<close>). Any number of enclaves run the same
  code; the leader's domain name resolves to one of them. Steps interleave freely: an enclave
  boots, sends its nonce to the designation endpoint, reacts to the answer, picks up the signal of
  its own handler, times out, or is stopped, and anybody else may send requests to any enclave. Which
  requests others send to whom is a parameter of the steps.
\<close>

section \<open>Enclaves and their endpoints\<close>

text \<open>
  \<open>Designating c\<close> is inside \<^verbatim>\<open>weAreLeader\<close> with the buffered channel of that name;
  \<open>Leader\<close> and \<open>Worker\<close> have left it, and their endpoint says \<^verbatim>\<open>410 Gone\<close>. So does the endpoint of
  \<open>Abandoned\<close>, whose designation ended because the enclave was stopped: the code makes it a worker
  like one that was told so, although nobody told it. Until its server is shut down it answers; after
  that the requests of others fail, which changes nothing.
\<close>

datatype node = Starting | Designating "unit chan1" | Leader | Worker | Abandoned | Dead

type_synonym cluster = "nat \<Rightarrow> node"

definition leader_request :: "nonce \<Rightarrow> request" where
  "leader_request n =
     \<lparr>rq_Method = ''GET'',
      rq_URL = \<lparr>u_Scheme = ''https'', u_Host = [], u_Path = pathLeader, u_RawQuery = nonce_query n\<rparr>,
      rq_Body = []\<rparr>"

text \<open>The designation endpoint of an enclave with the given nonce, and the status it answers.\<close>

definition respond :: "nonce \<Rightarrow> request \<Rightarrow> node \<Rightarrow> node \<times> nat res" where
  "respond ourNonce r s =
     (case s of
        Starting \<Rightarrow> (s, Inl (ErrExt ''unreachable''))
      | Dead \<Rightarrow> (s, Inl (ErrExt ''unreachable''))
      | Designating c \<Rightarrow>
          (case getLeaderHandler ourNonce r c of
             Returned (c', w) \<Rightarrow> (Designating c', Inr (rs_status w))
           | out \<Rightarrow> (Designating (fst (reached out)), Inl (ErrExt ''timeout'')))
      | Leader \<Rightarrow> (s, Inr (rs_status (w_WriteHeader StatusGone newResponse)))
      | Worker \<Rightarrow> (s, Inr (rs_status (w_WriteHeader StatusGone newResponse)))
      | Abandoned \<Rightarrow> (s, Inr (rs_status (w_WriteHeader StatusGone newResponse))))"

text \<open>The requests that others send, with their receivers, are the set \<open>Rs\<close>.\<close>

inductive election_step :: "(nat \<times> request) set \<Rightarrow> (nat \<Rightarrow> nonce) \<Rightarrow> nat \<Rightarrow> cluster \<Rightarrow> cluster \<Rightarrow> bool"
  for Rs :: "(nat \<times> request) set" and ns :: "nat \<Rightarrow> nonce" and L :: nat where
  boot: "s i = Starting \<Longrightarrow> election_step Rs ns L s (s(i := Designating None))"
| ask: "s i = Designating c \<Longrightarrow> respond (ns L) (leader_request (ns i)) (s L) = (n, reply) \<Longrightarrow>
    makeLeaderRequest (\<lambda>_. reply) u (ns i) = ToErrChan e \<Longrightarrow> election_step Rs ns L s (s(L := n))"
| told: "s i = Designating c \<Longrightarrow> respond (ns L) (leader_request (ns i)) (s L) = (n, reply) \<Longrightarrow>
    makeLeaderRequest (\<lambda>_. reply) u (ns i) = ToAreWeLeader b \<Longrightarrow>
    election_step Rs ns L s (s(L := n, i := (if b then Leader else Worker)))"
| foreign: "(i, r) \<in> Rs \<Longrightarrow> respond (ns i) r (s i) = (n, reply) \<Longrightarrow>
    election_step Rs ns L s (s(i := n))"
| elected: "s i = Designating (Some ()) \<Longrightarrow> election_step Rs ns L s (s(i := Leader))"
| timeout: "s i = Designating c \<Longrightarrow> election_step Rs ns L s (s(i := Dead))"
| stopped: "s i = Designating c \<Longrightarrow> election_step Rs ns L s (s(i := Abandoned))"

inductive election :: "(nat \<times> request) set \<Rightarrow> (nat \<Rightarrow> nonce) \<Rightarrow> nat \<Rightarrow> cluster \<Rightarrow> cluster \<Rightarrow> bool"
  for Rs :: "(nat \<times> request) set" and ns :: "nat \<Rightarrow> nonce" and L :: nat where
  refl: "election Rs ns L s s"
| step: "election Rs ns L s t \<Longrightarrow> election_step Rs ns L t u \<Longrightarrow> election Rs ns L s u"

section \<open>Lemmas\<close>

lemma leader_request_nonce: "wf_nonce n \<Longrightarrow> getNonceFromReq (leader_request n) = Inr n"
  by (rule getNonceFromReq_query) (simp_all add: leader_request_def)

lemma getLeaderHandler_foreign:
  "getNonceFromReq r \<noteq> Inr n \<Longrightarrow> \<exists>w. getLeaderHandler n r c = Returned (c, w) \<and> rs_status w \<noteq> StatusGone"
  by (auto simp: getLeaderHandler_def split: sum.splits)

lemma getLeaderHandler_own:
  "getNonceFromReq r = Inr n \<Longrightarrow>
   \<exists>w. getLeaderHandler n r c = Returned (Some (), w) \<and> rs_status w = StatusOK"
  by (cases c) (auto simp: getLeaderHandler_def)

lemma respond_foreign: "getNonceFromReq r \<noteq> Inr n \<Longrightarrow> fst (respond n r s) = s"
proof (cases s)
  case (Designating c)
  assume "getNonceFromReq r \<noteq> Inr n"
  then obtain w where "getLeaderHandler n r c = Returned (c, w)" using getLeaderHandler_foreign by blast
  with Designating show ?thesis by (simp add: respond_def)
qed (simp_all add: respond_def)

lemma respond_gone:
  assumes "respond n r s = (s', Inr StatusGone)"
  shows "s' = s \<and> s \<in> {Leader, Worker, Abandoned}"
proof (cases s)
  case (Designating c)
  with assms getLeaderHandler_foreign [of r n c] getLeaderHandler_own [of r n c] show ?thesis
    by (cases "getNonceFromReq r = Inr n") (auto simp: respond_def)
qed (use assms in \<open>auto simp: respond_def\<close>)

lemma told_reply:
  "makeLeaderRequest (\<lambda>_. reply) u n = ToAreWeLeader b \<Longrightarrow> reply = Inr StatusGone \<and> \<not> b"
  by (auto simp: makeLeaderRequest_def split: sum.splits if_splits)

definition election_inv :: "nat \<Rightarrow> cluster \<Rightarrow> bool" where
  "election_inv L s \<longleftrightarrow>
     (\<forall>i. s i = Leader \<longrightarrow> i = L) \<and> (\<forall>i. s i = Designating (Some ()) \<longrightarrow> i = L)
     \<and> (\<forall>i. s i = Worker \<longrightarrow> s L \<in> {Leader, Abandoned})"

text \<open>What others are assumed not to know: the nonce of an enclave, except of the one behind the leader's name.\<close>

definition no_nonce_leaks :: "(nat \<times> request) set \<Rightarrow> (nat \<Rightarrow> nonce) \<Rightarrow> nat \<Rightarrow> bool" where
  "no_nonce_leaks Rs ns L \<longleftrightarrow> (\<forall>i r. (i, r) \<in> Rs \<longrightarrow> getNonceFromReq r = Inr (ns i) \<longrightarrow> i = L)"

text \<open>Changing an enclave that is not yet decided.\<close>

lemma election_inv_upd:
  assumes "election_inv L s" "s i = Starting \<or> s i = Designating c"
    and "n \<in> {Leader, Designating (Some ())} \<Longrightarrow> i = L" "n = Worker \<Longrightarrow> s L \<in> {Leader, Abandoned}"
  shows "election_inv L (s(i := n))"
proof -
  have und: "s i \<notin> {Leader, Abandoned}" using assms(2) by auto
  have old: "s j = Worker \<Longrightarrow> s L \<in> {Leader, Abandoned}" for j using assms(1) unfolding election_inv_def by blast
  have "(s(i := n)) L \<in> {Leader, Abandoned}" if "(s(i := n)) j = Worker" for j
  proof -
    have "s L \<in> {Leader, Abandoned}" using that old assms(4) by (cases "j = i") auto
    with und show ?thesis by (cases "i = L") auto
  qed
  moreover have "j = L" if "(s(i := n)) j \<in> {Leader, Designating (Some ())}" for j
    using that assms(1,3) unfolding election_inv_def by (cases "j = i") auto
  ultimately show ?thesis unfolding election_inv_def by blast
qed

lemma respond_shape:
  "respond n r s = (s', reply) \<Longrightarrow> s' = s \<or> (\<exists>c c'. s = Designating c \<and> s' = Designating c')"
  by (auto simp: respond_def split: node.splits outcome.splits prod.splits)

lemma election_step_inv:
  assumes "election_step Rs ns L s t" "election_inv L s" "no_nonce_leaks Rs ns L"
  shows "election_inv L t"
  using assms(1,2)
proof (induction rule: election_step.induct)
  case (ask s i c n reply u e)
  from respond_shape [OF ask(2)] show ?case
  proof
    assume "\<exists>d d'. s L = Designating d \<and> n = Designating d'"
    then obtain d where "s L = Designating d" "n \<noteq> Worker" by blast
    with ask(4) show ?thesis by (intro election_inv_upd [where c = d]) simp_all
  qed (use ask(4) in simp)
next
  case (told s i c n reply u b)
  from told_reply [OF told(3)] told(2) respond_gone have g: "n = s L" "s L \<in> {Leader, Worker, Abandoned}" "\<not> b"
    by blast+
  then have "s L \<in> {Leader, Abandoned}" using told(4) unfolding election_inv_def by blast
  moreover have "s(L := n, i := (if b then Leader else Worker)) = s(i := Worker)" using g by simp
  moreover have "election_inv L (s(i := Worker))" if "s L \<in> {Leader, Abandoned}"
    using told(1,4) that by (intro election_inv_upd [where c = c]) simp_all
  ultimately show ?case by metis
next
  case (foreign i r s n reply)
  show ?case
  proof (cases "getNonceFromReq r = Inr (ns i)")
    case True
    with foreign(1) assms(3) have "i = L" unfolding no_nonce_leaks_def by blast
    from respond_shape [OF foreign(2)] show ?thesis
    proof
      assume "\<exists>d d'. s i = Designating d \<and> n = Designating d'"
      then obtain d where "s i = Designating d" "n \<noteq> Worker" by blast
      with foreign(3) \<open>i = L\<close> show ?thesis by (intro election_inv_upd [where c = d]) simp_all
    qed (use foreign(3) in simp)
  next
    case False
    then have "n = s i" using respond_foreign foreign(2) by (metis fst_conv)
    with foreign(3) show ?thesis by simp
  qed
next
  case (elected s i)
  then have "i = L" unfolding election_inv_def by blast
  with elected show ?case by (intro election_inv_upd [where c = "Some ()"]) simp_all
qed (auto intro!: election_inv_upd)

lemma election_trans: "election Rs ns L t u \<Longrightarrow> election Rs ns L s t \<Longrightarrow> election Rs ns L s u"
  by (induction rule: election.induct) (auto intro: election.step)

lemma election_inv_reach:
  "election Rs ns L s t \<Longrightarrow> election_inv L s \<Longrightarrow> no_nonce_leaks Rs ns L \<Longrightarrow> election_inv L t"
  by (induction rule: election.induct) (auto intro: election_step_inv)

lemma election_inv_init: "election_inv L (\<lambda>_. Starting)"
  by (simp add: election_inv_def)

text \<open>The leader's own request is what elects it.\<close>

lemma leader_elects_itself:
  assumes "s L = Designating c" "wf_nonce (ns L)"
  shows "election Rs ns L s (s(L := Leader))"
proof -
  obtain w where w: "getLeaderHandler (ns L) (leader_request (ns L)) c = Returned (Some (), w)"
    "rs_status w = StatusOK"
    using getLeaderHandler_own [OF leader_request_nonce [OF assms(2)]] by blast
  then have r: "respond (ns L) (leader_request (ns L)) (s L) = (Designating (Some ()), Inr StatusOK)"
    by (simp add: respond_def assms(1))
  moreover have "\<exists>e. makeLeaderRequest (\<lambda>_. Inr StatusOK) u (ns L) = ToErrChan e" for u
    by (simp add: makeLeaderRequest_def)
  ultimately have "election_step Rs ns L s (s(L := Designating (Some ())))"
    using election_step.ask [of s L c ns L] assms(1) by blast
  moreover have "election_step Rs ns L (s(L := Designating (Some ()))) ((s(L := Designating (Some ())))(L := Leader))"
    by (rule election_step.elected) simp
  ultimately show ?thesis
    using election.refl [of Rs ns L s] by (metis election.step fun_upd_upd)
qed

text \<open>Once there is a leader, every other enclave learns that it is a worker.\<close>

lemma others_become_workers:
  assumes "s L = Leader" "s i = Designating c"
  shows "election Rs ns L s (s(i := Worker))"
proof -
  have "makeLeaderRequest (\<lambda>_. Inr StatusGone) u (ns i) = ToAreWeLeader False" for u
    by (simp add: makeLeaderRequest_def)
  moreover have "respond (ns L) (leader_request (ns i)) (s L) = (Leader, Inr StatusGone)"
    by (simp add: respond_def assms(1))
  ultimately have "election_step Rs ns L s (s(L := Leader, i := (if False then Leader else Worker)))"
    using election_step.told assms(2) by blast
  moreover have "s(L := Leader) = s" using assms(1) by auto
  ultimately show ?thesis using election.refl [of Rs ns L s] by (auto intro: election.step)
qed

section \<open>Properties\<close>

text \<open>C8: There is at most one leader: starting from enclaves that have not booted, and whatever others send
  to whom in whatever order, as long as nobody sends an enclave its own nonce except to the enclave
  behind the leader's domain name, only that enclave ever becomes the leader; and an enclave is told
  to be a worker only when that leader exists or its designation was cut short by a stop.\<close>

theorem unique_leader:
  assumes "election Rs ns L (\<lambda>_. Starting) s" "no_nonce_leaks Rs ns L"
  shows "(s i = Leader \<longrightarrow> i = L) \<and> (s i = Worker \<longrightarrow> s L \<in> {Leader, Abandoned})"
  using election_inv_reach [OF assms(1) election_inv_init assms(2)] unfolding election_inv_def by blast

theorem unique_leader_witness:
  "let Rs = {(3, leader_request (replicate 20 3)), (4, leader_request (replicate 20 3))};
       ns = (\<lambda>i. replicate 20 (of_nat i)) in
   election Rs ns 3 (\<lambda>_. Starting) ((\<lambda>_. Starting)(3 := Leader, 4 := Worker))
   \<and> ((\<lambda>_. Starting)(3 := Leader, 4 := Worker)) (3 :: nat) \<in> {Leader, Abandoned}"
proof -
  let ?Rs = "{(3 :: nat, leader_request (replicate 20 3)), (4, leader_request (replicate 20 3))}"
  let ?ns = "\<lambda>i :: nat. replicate 20 (of_nat i) :: nonce" and ?s0 = "\<lambda>_ :: nat. Starting"
  have "getNonceFromReq (leader_request (replicate 20 3)) = Inr (replicate 20 3)"
    by (rule leader_request_nonce) (simp add: wf_nonce_def nonceLen_def)
  then have safe: "no_nonce_leaks ?Rs ?ns 3" by (auto simp: no_nonce_leaks_def)
  let ?s1 = "?s0(4 := Designating None)" and ?s2 = "?s0(4 := Designating None, 3 := Designating None)"
  have "election_step ?Rs ?ns 3 ?s0 ?s1" "election_step ?Rs ?ns 3 ?s1 ?s2" by (rule election_step.boot, simp)+
  from election.step [OF election.step [OF election.refl this(1)] this(2)]
  have b: "election ?Rs ?ns 3 ?s0 ?s2" .
  have l: "election ?Rs ?ns 3 ?s2 (?s2(3 := Leader))"
    by (rule leader_elects_itself [where c = None]) (simp_all add: wf_nonce_def nonceLen_def)
  have "election ?Rs ?ns 3 (?s2(3 := Leader)) (?s2(3 := Leader, 4 := Worker))"
    by (rule others_become_workers [where c = None]) simp_all
  moreover have "?s2(3 := Leader, 4 := Worker) = ?s0(3 := Leader, 4 := Worker)" by (simp add: fun_eq_iff)
  ultimately have reach: "election ?Rs ?ns 3 ?s0 (?s0(3 := Leader, 4 := Worker))"
    using election_trans [OF election_trans [OF _ l] b] by metis
  show ?thesis
    using reach unique_leader [OF reach safe, THEN conjunct2, THEN mp, OF fun_upd_same] by (simp add: Let_def)
qed

text \<open>C28: Designation makes progress: the enclave behind the leader's domain name can elect itself by its
  own request, and every other enclave that is still undecided can then become a worker.\<close>

theorem election_progress:
  assumes "s L = Designating c" "s i = Designating d" "i \<noteq> L" "wf_nonce (ns L)"
  shows "election Rs ns L s (s(L := Leader, i := Worker))"
proof -
  have "election Rs ns L s (s(L := Leader))" using assms(1,4) by (rule leader_elects_itself)
  moreover have "election Rs ns L (s(L := Leader)) ((s(L := Leader))(i := Worker))"
    using assms(2,3) by (intro others_become_workers) auto
  ultimately show ?thesis by (blast intro: election_trans)
qed

theorem election_progress_witness:
  "election UNIV (\<lambda>i. zero_nonce) 0 (\<lambda>_. Designating None) ((\<lambda>_. Designating None)(0 := Leader, 1 := Worker))"
  by (rule election_progress) (simp_all add: wf_nonce_def)

end
