(* ===== verification/Rendezvous.thy ===== *)
theory Rendezvous
  imports Workers
begin

text \<open>
  The channel protocol of \<^verbatim>\<open>workerManager.length\<close> (src/workers.go): a caller sends 0 over the
  unbuffered channel \<^verbatim>\<open>len\<close> and then receives from the same channel; the event loop receives, then
  sends the size of the worker set. The step relation has the loop and any number of callers, one
  rule per pair of goroutines that can meet on the channel.
\<close>

section \<open>The protocol\<close>

datatype caller = Idle | Calling | Waiting | Answered nat

text \<open>The loop selects, or has taken a request and is about to send the size.\<close>

datatype loop = Selecting | Replying nat

record len_state =
  ls_loop :: loop
  ls_size :: nat
  ls_callers :: "nat \<Rightarrow> caller"

definition len_init :: "nat \<Rightarrow> len_state" where
  "len_init n = \<lparr>ls_loop = Selecting, ls_size = n, ls_callers = (\<lambda>_. Idle)\<rparr>"

inductive len_step :: "len_state \<Rightarrow> len_state \<Rightarrow> bool" where
  call: "ls_callers s i = Idle \<Longrightarrow>
    len_step s (s\<lparr>ls_callers := (ls_callers s)(i := Calling)\<rparr>)"
| request: "ls_loop s = Selecting \<Longrightarrow> ls_callers s i = Calling \<Longrightarrow>
    len_step s (s\<lparr>ls_loop := Replying (ls_size s), ls_callers := (ls_callers s)(i := Waiting)\<rparr>)"
| reply: "ls_loop s = Replying n \<Longrightarrow> ls_callers s i = Waiting \<Longrightarrow>
    len_step s (s\<lparr>ls_loop := Selecting, ls_callers := (ls_callers s)(i := Answered n)\<rparr>)"
| cross: "ls_callers s i = Calling \<Longrightarrow> ls_callers s j = Waiting \<Longrightarrow>
    len_step s (s\<lparr>ls_callers := (ls_callers s)(i := Waiting, j := Answered 0)\<rparr>)"
| update: "ls_loop s = Selecting \<Longrightarrow> len_step s (s\<lparr>ls_size := n\<rparr>)"

inductive len_reaches :: "len_state \<Rightarrow> len_state \<Rightarrow> bool" where
  refl: "len_reaches s s"
| step: "len_reaches s t \<Longrightarrow> len_step t u \<Longrightarrow> len_reaches s u"

section \<open>Invariants\<close>

text \<open>
  While the loop is about to send, exactly one caller waits and the size has not changed; while it
  selects, nobody waits.
\<close>

definition len_inv :: "len_state \<Rightarrow> bool" where
  "len_inv s =
     (case ls_loop s of
        Selecting \<Rightarrow> (\<forall>i. ls_callers s i \<noteq> Waiting)
      | Replying n \<Rightarrow> n = ls_size s \<and> (\<exists>!i. ls_callers s i = Waiting))"

lemma len_inv_init: "len_inv (len_init n)"
  by (simp add: len_inv_def len_init_def)

lemma len_step_inv:
  assumes "len_step s t" "len_inv s"
  shows "len_inv t"
  using assms
proof (induction rule: len_step.induct)
  case (cross s i j)
  then obtain n where n: "ls_loop s = Replying n" by (cases "ls_loop s") (auto simp: len_inv_def)
  then have "n = ls_size s" "\<forall>k. ls_callers s k = Waiting \<longleftrightarrow> k = j"
    using cross by (auto simp: len_inv_def)
  moreover have "i \<noteq> j" using cross(1,2) by auto
  ultimately show ?case by (auto simp: len_inv_def n intro!: ex1I [where a = i])
next
  case (call s i)
  have "((ls_callers s)(i := Calling)) k = Waiting \<longleftrightarrow> ls_callers s k = Waiting" for k
    using call(1) by simp
  then show ?case using call(2)
    by (cases "ls_loop s") (simp_all add: len_inv_def del: fun_upd_apply)
next
  case (request s i)
  then show ?case by (auto simp: len_inv_def intro!: ex1I [where a = i])
next
  case (reply s n i)
  then show ?case by (auto simp: len_inv_def)
next
  case (update s n)
  then show ?case by (auto simp: len_inv_def)
qed

lemma len_reaches_inv: "len_reaches s t \<Longrightarrow> len_inv s \<Longrightarrow> len_inv t"
  by (induction rule: len_reaches.induct) (auto intro: len_step_inv)

text \<open>A loop that has taken a request never gets stuck: some caller is there to receive.\<close>

lemma len_not_stuck:
  assumes "len_inv s" "ls_loop s = Replying n"
  shows "\<exists>i. ls_callers s i = Waiting \<and>
    len_step s (s\<lparr>ls_loop := Selecting, ls_callers := (ls_callers s)(i := Answered n)\<rparr>)"
  using assms by (auto simp: len_inv_def intro: len_step.reply)

text \<open>An answer is the size of the set, if no second caller is calling at that moment.\<close>

lemma len_answer:
  assumes "len_step s t" "len_inv s" "ls_callers s i = Waiting" "ls_callers t i = Answered m"
    and "\<forall>j. j \<noteq> i \<longrightarrow> ls_callers s j \<noteq> Calling"
  shows "m = ls_size s"
  using assms(1)
proof (cases rule: len_step.cases)
  case (cross k j)
  then have "k \<noteq> i" using assms(3) by auto
  with cross assms(5) show ?thesis by simp
qed (use assms in \<open>auto simp: len_inv_def split: if_splits\<close>)

section \<open>Properties\<close>

text \<open>C39: However many callers ask for the number of workers at the same time, the event loop is never
  left waiting: whenever it has taken a request, a caller is waiting to receive and the reply can
  happen.\<close>

theorem length_never_stuck:
  assumes "len_reaches (len_init n) s" "ls_loop s = Replying m"
  shows "\<exists>t. len_step s t \<and> ls_loop t = Selecting"
  using len_not_stuck [OF len_reaches_inv [OF assms(1) len_inv_init] assms(2)] by auto

theorem length_never_stuck_witness:
  "\<exists>t. len_step (len_init 3\<lparr>ls_loop := Replying 3, ls_callers := (\<lambda>_. Idle)(0 := Waiting)\<rparr>) t
     \<and> ls_loop t = Selecting"
proof (rule length_never_stuck)
  have a: "len_step (len_init 3) (len_init 3\<lparr>ls_callers := (\<lambda>_. Idle)(0 := Calling)\<rparr>)"
    using len_step.call [of "len_init 3" 0] by (simp add: len_init_def)
  have b: "len_step (len_init 3\<lparr>ls_callers := (\<lambda>_. Idle)(0 := Calling)\<rparr>)
      (len_init 3\<lparr>ls_loop := Replying 3, ls_callers := (\<lambda>_. Idle)(0 := Waiting)\<rparr>)"
    using len_step.request [of "len_init 3\<lparr>ls_callers := (\<lambda>_. Idle)(0 := Calling)\<rparr>" 0]
    by (simp add: len_init_def)
  show "len_reaches (len_init 3) (len_init 3\<lparr>ls_loop := Replying 3, ls_callers := (\<lambda>_. Idle)(0 := Waiting)\<rparr>)"
    by (rule len_reaches.step [OF len_reaches.step [OF len_reaches.refl a] b])
qed simp

text \<open>With several callers the shared channel can answer wrongly: a reachable state exists in which a
  caller was told that there are no workers although there are \<open>n\<close>, because it received the request
  of another caller.\<close>

theorem length_race:
  "\<exists>s. len_reaches (len_init n) s \<and> ls_callers s 0 = Answered 0 \<and> ls_size s = n"
proof -
  let ?s0 = "len_init n"
  let ?s1 = "?s0\<lparr>ls_callers := (ls_callers ?s0)(0 := Calling)\<rparr>"
  let ?s2 = "?s1\<lparr>ls_callers := (ls_callers ?s1)(1 := Calling)\<rparr>"
  let ?s3 = "?s2\<lparr>ls_loop := Replying (ls_size ?s2), ls_callers := (ls_callers ?s2)(0 := Waiting)\<rparr>"
  let ?s4 = "?s3\<lparr>ls_callers := (ls_callers ?s3)(1 := Waiting, 0 := Answered 0)\<rparr>"
  have "len_step ?s0 ?s1" by (rule len_step.call) (simp add: len_init_def)
  note r1 = len_reaches.step [OF len_reaches.refl this]
  have "len_step ?s1 ?s2" by (rule len_step.call) (simp add: len_init_def)
  note r2 = len_reaches.step [OF r1 this]
  have "len_step ?s2 ?s3" by (rule len_step.request) (simp_all add: len_init_def)
  note r3 = len_reaches.step [OF r2 this]
  have "len_step ?s3 ?s4" by (rule len_step.cross) (simp_all add: len_init_def)
  note r4 = len_reaches.step [OF r3 this]
  show ?thesis by (rule exI [where x = ?s4], intro conjI, rule r4) (simp_all add: len_init_def)
qed

end
