(* ===== verification/Application.thy ===== *)
theory Application
  imports Enclave
begin

text \<open>
  The process around the enclave (src/main.go): whether it runs inside an enclave, the sequence from
  the command line to a running enclave, and the enclave application that it may launch, with the
  forwarding of its output line by line.
\<close>

section \<open>Inside an enclave\<close>

text \<open>What \<^verbatim>\<open>os.Stat("/dev/nsm")\<close> says.\<close>

datatype stat = Exists | NotExist | StatFailed go_error

definition inEnclave :: "stat \<Rightarrow> bool" where
  "inEnclave st = (case st of Exists \<Rightarrow> True | NotExist \<Rightarrow> False | StatFailed e \<Rightarrow> False)"

text \<open>\<^verbatim>\<open>init\<close>, before \<^verbatim>\<open>main\<close>: the flag, and the seeding of the entropy pool with the flag set.\<close>

definition init :: "stat \<Rightarrow> entropy_env \<Rightarrow> bool \<times> bytes outcome" where
  "init st env = (inEnclave st, maybeSeedEntropy (env\<lparr>ee_inEnclave := inEnclave st\<rparr>))"

section \<open>Forwarding output\<close>

text \<open>
  \<^verbatim>\<open>bufio.Scanner\<close> with its default split function and buffer: lines end at a newline, a carriage
  return before it is dropped, the last line may lack its newline, and a line that does not fit into
  the buffer together with its newline ends the scan with an error. The arguments are the data that
  is left, the part of the current line that was already scanned, and the error at the end of the
  input.
\<close>

definition maxScanTokenSize :: nat where
  "maxScanTokenSize = 64 * 1024"

definition errTooLong :: go_error where
  "errTooLong = ErrExt ''bufio.Scanner: token too long''"

definition dropCR :: "bytes \<Rightarrow> bytes" where
  "dropCR l = (if l \<noteq> [] \<and> last l = 0x0D then butlast l else l)"

fun scan_lines :: "bytes \<Rightarrow> bytes \<Rightarrow> go_error \<Rightarrow> bytes list \<times> go_error option" where
  "scan_lines [] line e =
     (if line = [] then [] else [dropCR line], if e = EOF then None else Some e)"
| "scan_lines (b # bs) line e =
     (if b = 0x0A then
        (case scan_lines bs [] e of (ls, err) \<Rightarrow> (dropCR line # ls, err))
      else if Suc (length line) \<ge> maxScanTokenSize then ([], Some errTooLong)
      else scan_lines bs (line @ [b]) e)"

text \<open>The lines that are passed to the function, and the error that is logged, if any.\<close>

definition forwardOutput :: "reader \<Rightarrow> bytes list \<times> go_error option" where
  "forwardOutput readCloser = scan_lines (rd_data readCloser) [] (rd_end readCloser)"

section \<open>The enclave application\<close>

text \<open>
  The functions of \<^verbatim>\<open>os/exec\<close> on a command with the given arguments; an application that never ends
  makes \<^verbatim>\<open>Wait\<close> return nothing, which is \<open>None\<close>.
\<close>

record app_env =
  ap_StderrPipe :: "reader res"
  ap_StdoutPipe :: "reader res"
  ap_Start :: "string list \<Rightarrow> go_error option"
  ap_Wait :: "string list \<Rightarrow> go_error option option"

record app_run =
  ar_args :: "string list"
  ar_stderr :: "bytes list"
  ar_stdout :: "bytes list"

text \<open>The two goroutines read what the pipes deliver until the pipes are closed.\<close>

definition runAppCommand :: "app_env \<Rightarrow> string \<Rightarrow> app_run outcome" where
  "runAppCommand env appCmd =
     (let args = strings_Split (CHR '' '') appCmd;
          run = \<lparr>ar_args = args, ar_stderr = [], ar_stdout = []\<rparr> in
      case ap_StderrPipe env of
        Inl e \<Rightarrow> Exits run
      | Inr stderr \<Rightarrow>
          (let run1 = run\<lparr>ar_stderr := fst (forwardOutput stderr)\<rparr> in
           case ap_StdoutPipe env of
             Inl e \<Rightarrow> Exits run
           | Inr stdout \<Rightarrow>
               (let run2 = run1\<lparr>ar_stdout := fst (forwardOutput stdout)\<rparr> in
                case ap_Start env args of
                  Some e \<Rightarrow> Exits run
                | None \<Rightarrow>
                    (case ap_Wait env args of
                       None \<Rightarrow> Blocks run2
                     | Some (Some e) \<Rightarrow> Exits run2
                     | Some None \<Rightarrow> Returned run2))))"

section \<open>The process\<close>

text \<open>
  \<^verbatim>\<open>main\<close>: how far it came is part of the result. Without a command for the application it blocks
  for ever after a successful start; \<^verbatim>\<open>elog.Fatalf\<close> ends the process.
\<close>

datatype 'c progress =
    BadFlags string
  | NoEnclave go_error
  | StartFailed "'c enclave" go_error
  | Interrupted "'c enclave"
  | Serving "'c enclave"
  | WithApp "'c enclave" app_run

definition main ::
    "(string \<Rightarrow> string res) \<Rightarrow> ('c, 'k) start_env \<Rightarrow> app_env \<Rightarrow> flags \<Rightarrow> 'c progress outcome" where
  "main parse env app f =
     (case main_config parse f of
        Inl msg \<Rightarrow> Exits (BadFlags msg)
      | Inr c \<Rightarrow>
          (case NewEnclave c of
             Inl err \<Rightarrow> Exits (NoEnclave err)
           | Inr e \<Rightarrow>
               (case Start env (e, []) of
                  Returned (st, Some err) \<Rightarrow> Exits (StartFailed (sd_enclave st) err)
                | Returned (st, None) \<Rightarrow>
                    (if fl_appCmd f \<noteq> [] then map_outcome (WithApp (sd_enclave st)) (runAppCommand app (fl_appCmd f))
                     else Blocks (Serving (sd_enclave st)))
                | Blocks (st, _) \<Rightarrow> Blocks (Interrupted (sd_enclave st))
                | Panics (st, _) \<Rightarrow> Panics (Interrupted (sd_enclave st))
                | Exits (st, _) \<Rightarrow> Exits (Interrupted (sd_enclave st)))))"

section \<open>Lemmas\<close>

lemma scan_lines_plain:
  assumes "list_all (\<lambda>l. 0x0A \<notin> set l \<and> length l < maxScanTokenSize) ls"
    and "line @ hd (ls @ [[]]) = full" "length full < maxScanTokenSize" "ls \<noteq> []"
  shows "scan_lines (concat (map (\<lambda>l. l @ [0x0A]) ls)) line e =
    (dropCR full # map dropCR (tl ls), if e = EOF then None else Some e)"
proof -
  have one: "scan_lines (l @ 0x0A # rest) line e =
      (case scan_lines rest [] e of (xs, err) \<Rightarrow> (dropCR (line @ l) # xs, err))"
    if "0x0A \<notin> set l" "length (line @ l) < maxScanTokenSize" for l rest line
    using that
  proof (induction l arbitrary: line)
    case (Cons b bs)
    then show ?case using Cons.IH [of "line @ [b]"] by auto
  qed simp
  have all: "scan_lines (concat (map (\<lambda>l. l @ [0x0A]) ls)) [] e =
      (map dropCR ls, if e = EOF then None else Some e)"
    if "list_all (\<lambda>l. 0x0A \<notin> set l \<and> length l < maxScanTokenSize) ls" for ls
    using that by (induction ls) (simp_all add: one)
  obtain l ls' where ls: "ls = l # ls'" using assms(4) by (cases ls) auto
  show ?thesis using assms by (simp add: ls one all)
qed

lemma scan_lines_short:
  "scan_lines data line e = (ls, None) \<Longrightarrow> length line < maxScanTokenSize \<Longrightarrow>
   list_all (\<lambda>l. length l < maxScanTokenSize) ls \<and> e = EOF"
proof (induction data line e arbitrary: ls rule: scan_lines.induct)
  case (1 line e)
  then show ?case by (auto simp: dropCR_def split: if_splits)
next
  case (2 b bs line e)
  show ?case
  proof (cases "b = 0x0A")
    case True
    with 2(3) obtain ls' where "scan_lines bs [] e = (ls', None)" "ls = dropCR line # ls'"
      by (auto split: prod.splits)
    with 2(1) [OF True] 2(4) show ?thesis by (auto simp: dropCR_def maxScanTokenSize_def)
  next
    case False
    with 2 show ?thesis by (auto split: if_splits)
  qed
qed

section \<open>Properties\<close>

text \<open>All output of the application is forwarded: if every line has fewer than 65536 bytes, each line
  is passed on exactly once, in order, without its line end, however the pipe delivers it.\<close>

theorem output_forwarded:
  assumes "rd_data r = concat (map (\<lambda>l. l @ [0x0A]) ls)" "rd_end r = EOF"
    and "list_all (\<lambda>l. 0x0A \<notin> set l \<and> length l < 65536) ls"
  shows "forwardOutput r = (map dropCR ls, None)"
proof (cases ls)
  case (Cons l ls')
  then show ?thesis
    using scan_lines_plain [of ls "[]" l EOF] assms
    by (simp add: forwardOutput_def maxScanTokenSize_def)
qed (simp add: forwardOutput_def assms(1,2))

theorem output_forwarded_witness:
  "forwardOutput [Chunk [104, 105, 13], Chunk [10, 33], Chunk [10]] = ([[104, 105], [33]], None)"
  using output_forwarded [of "[Chunk [104, 105, 13], Chunk [10, 33], Chunk [10]]" "[[104, 105, 13], [33]]"]
  by (simp add: dropCR_def)

text \<open>A line of 65536 bytes or more silences the application: nothing of that line and nothing after it
  is forwarded.\<close>

theorem long_line_stops_forwarding:
  assumes "rd_data r = line @ rest" "0x0A \<notin> set line" "length line = 65536"
  shows "forwardOutput r = ([], Some errTooLong)"
proof -
  have "scan_lines (l @ rest) acc e = ([], Some errTooLong)"
    if "0x0A \<notin> set l" "length acc + length l = 65536" "l \<noteq> []" for l acc e
    using that
  proof (induction l arbitrary: acc)
    case (Cons b bs)
    show ?case
      using Cons.IH [of "acc @ [b]"] Cons.prems by (cases "bs = []") (auto simp: maxScanTokenSize_def)
  qed simp
  moreover have "line \<noteq> []" using assms(3) by auto
  ultimately show ?thesis using assms by (simp add: forwardOutput_def)
qed

theorem long_line_stops_forwarding_witness:
  "forwardOutput [Chunk (replicate 65536 65 @ [10, 66, 10])] = ([], Some errTooLong)"
  by (rule long_line_stops_forwarding [where line = "replicate 65536 65" and rest = "[10, 66, 10]"]) simp_all

lemma main_creates:
  assumes "main_config parse f = Inr c"
  shows "\<exists>e. NewEnclave c = Inr e"
  using config_of_main_valid [OF assms] by (auto simp: NewEnclave_def Let_def)

text \<open>The start that \<^verbatim>\<open>main\<close> makes, and what it comes to.\<close>

definition main_start ::
    "(string \<Rightarrow> string res) \<Rightarrow> ('c, 'k) start_env \<Rightarrow> flags \<Rightarrow> ('c started \<times> go_error option) outcome \<Rightarrow> bool" where
  "main_start parse env f out \<longleftrightarrow>
     (\<exists>c e. main_config parse f = Inr c \<and> NewEnclave c = Inr e \<and> Start env (e, []) = out)"

text \<open>C40: The command line and the start decide what the process does. It returns only if the flags were
  accepted, the enclave started without an error, and an application was given whose pipes could be
  set up, that was launched and that ended without an error; then all its output was forwarded. It ends
  with a fatal error for bad flags, for a start that failed or gave up, and for an application that
  could not be launched or failed, but never at creating the enclave, since the checks of the flags imply those of the
  configuration. It waits for ever only after a successful start, without an application or with one
  that does not end, or inside the start, and panics only if the start does.\<close>

theorem main_outcomes:
  "let args = strings_Split (CHR '' '') (fl_appCmd f) in
   case main parse env app f of
     Returned p \<Rightarrow>
       (\<exists>st err out. main_start parse env f (Returned (st, None)) \<and> fl_appCmd f \<noteq> []
          \<and> ap_StderrPipe app = Inr err \<and> ap_StdoutPipe app = Inr out
          \<and> ap_Start app args = None \<and> ap_Wait app args = Some None
          \<and> p = WithApp (sd_enclave st) \<lparr>ar_args = args, ar_stderr = fst (forwardOutput err),
                                           ar_stdout = fst (forwardOutput out)\<rparr>)
   | Exits p \<Rightarrow>
       (\<exists>msg. main_config parse f = Inl msg \<and> p = BadFlags msg)
       \<or> (\<exists>st err. main_start parse env f (Returned (st, Some err)) \<and> p = StartFailed (sd_enclave st) err)
       \<or> (\<exists>st x. main_start parse env f (Exits (st, x)) \<and> p = Interrupted (sd_enclave st))
       \<or> (\<exists>st run. main_start parse env f (Returned (st, None)) \<and> fl_appCmd f \<noteq> [] \<and> p = WithApp (sd_enclave st) run
            \<and> \<not> (is_ok (ap_StderrPipe app) \<and> is_ok (ap_StdoutPipe app) \<and> ap_Start app args = None
                 \<and> ap_Wait app args \<in> {None, Some None}))
   | Blocks p \<Rightarrow>
       (\<exists>st. main_start parse env f (Returned (st, None)) \<and> fl_appCmd f = [] \<and> p = Serving (sd_enclave st))
       \<or> (\<exists>st run. main_start parse env f (Returned (st, None)) \<and> fl_appCmd f \<noteq> [] \<and> p = WithApp (sd_enclave st) run
            \<and> ap_Start app args = None \<and> ap_Wait app args = None)
       \<or> (\<exists>st x. main_start parse env f (Blocks (st, x)) \<and> p = Interrupted (sd_enclave st))
   | Panics p \<Rightarrow> (\<exists>st x. main_start parse env f (Panics (st, x)) \<and> p = Interrupted (sd_enclave st))"
proof (cases "main_config parse f")
  case (Inl msg)
  then show ?thesis by (simp add: main_def)
next
  case (Inr c)
  obtain e where e: "NewEnclave c = Inr (e :: 'a enclave)" using main_creates [OF Inr] by blast
  have start: "main_start parse env f out \<longleftrightarrow> Start env (e, []) = out" for out
    by (simp add: main_start_def Inr e)
  show ?thesis
  proof (cases "Start env (e, [])")
    case (Returned p)
    then show ?thesis
      by (cases "snd p"; cases "ap_StderrPipe app"; cases "ap_StdoutPipe app"; cases p)
        (auto simp: main_def Inr e start runAppCommand_def Let_def split: option.splits)
  qed (auto simp: main_def Inr e start Let_def split: prod.splits)
qed

end
