(* ===== verification/Lifecycle.thy ===== *)
theory Lifecycle
  imports Enclave
begin

text \<open>
  The life of one enclave: every operation of the preceding theories that changes its state, as one
  labelled step relation, in any order and with any environment; requests go through the metrics'
  middleware to the handler behind their route. What holds in all states that a new enclave can reach,
  and how its state follows from the requests it answered, is proved by rule induction.
\<close>

section \<open>Serving a request\<close>

text \<open>
  What a request depends on besides the enclave: the attester, NaCl's box, fresh randomness, X.509, the
  hostname a worker finds out, the clock, how writing to the client goes, the text of errors and of the
  configuration, the application's Web server, the profiler and the router's own answers, which are
  not part of the repository, and, during the designation, the nonce and the channel of
  \<^verbatim>\<open>weAreLeader\<close>. A worker that cannot find out its hostname ends its process; there is no state after that.
\<close>

record 'c handler_env =
  he_create :: "auxInfo \<Rightarrow> bytes res"
  he_verify :: "bytes \<Rightarrow> nonce \<Rightarrow> auxInfo res"
  he_box :: nacl
  he_fresh :: fresh
  he_pki :: "'c pki"
  he_hostname :: string
  he_now :: int
  he_write :: "bytes \<Rightarrow> nat \<times> go_error option"
  he_render :: "go_error \<Rightarrow> string"
  he_config :: string
  he_backend :: "request \<Rightarrow> (nat \<times> bytes) res"
  he_profiler :: "request \<Rightarrow> response"
  he_unrouted :: "request \<Rightarrow> response"
  he_nonce :: nonce
  he_chan :: "unit chan1"

text \<open>
  The handler behind a route, on the whole enclave. The goroutines that handlers start act on the
  enclave only through the worker manager, whose rounds are steps of their own. Without its hooks the reverse
  proxy answers in the same way but counts nothing.
\<close>

definition handle :: "'c handler_env \<Rightarrow> handler \<Rightarrow> request \<Rightarrow> 'c enclave \<Rightarrow> ('c enclave \<times> response) outcome" where
  "handle env h r e =
     (case h of
        AttestationHandler \<Rightarrow>
          Returned (e, attestationHandler (UseProfiling (en_cfg e)) (en_hashes e) (he_create env) r)
      | RootHandler \<Rightarrow> Returned (e, rootHandler (en_cfg e))
      | ConfigHandler \<Rightarrow> Returned (e, configHandler (he_config env))
      | Profiler \<Rightarrow> Returned (e, he_profiler env r)
      | RevProxy \<Rightarrow>
          (case revProxy (he_render env) (he_backend env) r (en_metrics e, ()) of
             ((m, _), w) \<Rightarrow> Returned (if en_proxyHooks e then e\<lparr>en_metrics := m\<rparr> else e, w))
      | SyncHandler \<Rightarrow>
          map_outcome (\<lambda>((s, e'), w). (e'\<lparr>en_sync := s\<rparr>, w))
            (ServeHTTP (he_create env) (he_verify env) (he_box env)
               (\<lambda>keys e. reached (setupWorkerPostSync (he_pki env) (Returned (he_hostname env)) keys e))
               (he_fresh env) r (en_sync e, e))
      | ReadyHandler \<Rightarrow>
          (case readyHandler (en_readyClosed e) of (closed, w) \<Rightarrow> Returned (e\<lparr>en_readyClosed := closed\<rparr>, w))
      | GetStateHandler \<Rightarrow>
          map_outcome (\<lambda>w. (e, w)) (getStateHandler (he_write env) (getSyncState e) (en_keys e))
      | PutStateHandler \<Rightarrow>
          map_outcome (\<lambda>((keys, ws, gs), w). (e\<lparr>en_keys := keys, en_workers := ws\<rparr>, w))
            (putStateHandler (getSyncState e) r (en_keys e, en_workers e))
      | HashHandler \<Rightarrow>
          (case hashHandler r (en_hashes e) of (hashes, w) \<Rightarrow> Returned (e\<lparr>en_hashes := hashes\<rparr>, w))
      | LeaderHandler \<Rightarrow> map_outcome (\<lambda>(c, w). (e, w)) (getLeaderHandler (he_nonce env) r (he_chan env))
      | Gone \<Rightarrow> Returned (e, w_WriteHeader StatusGone newResponse)
      | HeartbeatHandler \<Rightarrow>
          map_outcome (\<lambda>((ws, gs), w). (e\<lparr>en_workers := ws\<rparr>, w))
            (heartbeatHandler (ExtPrivPort (en_cfg e)) (en_keys e) (he_now env) r (en_workers e)))"

text \<open>
  A server passes every request through the middleware of src/metrics.go if the configuration has a
  port for Prometheus, whether a route matches (\<open>Some h\<close>) or not (\<open>None\<close>).
\<close>

definition serve_request ::
    "(response \<Rightarrow> nat) \<Rightarrow> 'c handler_env \<Rightarrow> handler option \<Rightarrow> request \<Rightarrow> 'c enclave
     \<Rightarrow> ('c enclave \<times> response) outcome" where
  "serve_request ww_Status env route r e =
     (let inner = (\<lambda>r e. case route of None \<Rightarrow> Returned (e, he_unrouted env r) | Some h \<Rightarrow> handle env h r e) in
      if en_useMetrics e then
        map_outcome (\<lambda>((m, e'), w). (e'\<lparr>en_metrics := m\<rparr>, w))
          (middleware ww_Status
             (\<lambda>r (m, e). map_outcome (\<lambda>(e', w). ((en_metrics e', e'), w)) (inner r (e\<lparr>en_metrics := m\<rparr>)))
             r (en_metrics e, e))
      else inner r e)"

section \<open>Steps\<close>

text \<open>
  A step is a start with whatever it comes to, a request that one of the servers answers or fails to answer,
  a round of the worker manager's loop, a heartbeat, the end of a poll for a certificate, or a
  stop. A handler runs only where its route is registered; which of a server's routes a request goes to
  is the router's choice. The loop of the worker manager ends only when the enclave was stopped.
  \<^verbatim>\<open>makeLeaderRequest\<close> never answers that the enclave is the leader. Private keys are bytes, and what a
  peer answers to a heartbeat is arbitrary. A step carries what can be seen of it: an
  answered request with the handler and the response, or nothing.
\<close>

datatype en_event = Served "handler option" request response | Silent

inductive en_step :: "(response \<Rightarrow> nat) \<Rightarrow> 'c enclave \<Rightarrow> en_event \<Rightarrow> 'c enclave \<Rightarrow> bool"
  for ww_Status :: "response \<Rightarrow> nat" where
  start: "OnReply True \<notin> set (se_leaderEvents (env :: ('c, bytes) start_env)) \<Longrightarrow>
    en_step ww_Status e Silent (sd_enclave (fst (reached (Start env (e, h)))))"
| answered: "route \<in> insert None (Some ` (snd \<circ> snd) ` set (en_routes e srv)) \<Longrightarrow>
    serve_request ww_Status henv route r e = Returned (e', w) \<Longrightarrow>
    en_step ww_Status e (Served route r w) e'"
| unanswered: "route \<in> Some ` (snd \<circ> snd) ` set (en_routes e srv) \<Longrightarrow>
    serve_request ww_Status henv route r e = out \<Longrightarrow> out \<noteq> Returned (reached out) \<Longrightarrow>
    en_step ww_Status e Silent (fst (reached out))"
| manager: "wm_running (en_workers e) \<Longrightarrow> (ev = Stopped \<Longrightarrow> en_stopClosed e) \<Longrightarrow>
    en_step ww_Status e Silent (e\<lparr>en_workers := fst (wm_step (en_workers e) ev)\<rparr>)"
| beat: "worker \<in> set (en_heartbeatLoops e) \<Longrightarrow>
    en_step ww_Status e Silent (fst (beat render post worker (e, ())))"
| acme: "en_step ww_Status e Silent (reached (acme_poll pki polls e))"
| stop: "en_step ww_Status e Silent (fst (reached (Stop res e)))"

text \<open>A run with what could be seen of it, the first event first.\<close>

inductive en_run :: "(response \<Rightarrow> nat) \<Rightarrow> 'c enclave \<Rightarrow> en_event list \<Rightarrow> 'c enclave \<Rightarrow> bool"
  for ww_Status :: "response \<Rightarrow> nat" where
  here: "en_run ww_Status e [] e"
| further: "en_run ww_Status e evs e' \<Longrightarrow> en_step ww_Status e' ev e'' \<Longrightarrow> en_run ww_Status e (evs @ [ev]) e''"

definition en_reaches :: "'c enclave \<Rightarrow> 'c enclave \<Rightarrow> bool" where
  "en_reaches e e' \<longleftrightarrow> (\<exists>ww_Status evs. en_run ww_Status e evs e')"

section \<open>What a run should have led to\<close>

text \<open>
  Read from the events alone: the labels under which requests are to be counted, how many requests the
  reverse proxy served, and the hash that the application registered last, where an accepted
  hash has 32 bytes and arrived, encoded, in a body that was not too long; at first it is zero.
\<close>

definition status_of :: "response \<Rightarrow> nat" where
  "status_of w = (case rs_code w of None \<Rightarrow> 0 | Some c \<Rightarrow> c)"



definition accepted_hash :: "request \<Rightarrow> bytes option" where
  "accepted_hash r =
     (case io_ReadAll (newLimitReader (rq_Body r) 45) of
        (body, err) \<Rightarrow>
          (case b64_DecodeString (strings_TrimSpace (bytes_str body)) of
             Inl _ \<Rightarrow> None
           | Inr hash \<Rightarrow>
               (if length hash = 32 \<and> (case err of None \<Rightarrow> True | Some e \<Rightarrow> \<not> errors_Is e ErrTooMuchToRead)
                then Some hash else None)))"



section \<open>The invariant\<close>

definition en_inv :: "Config \<Rightarrow> 'c enclave \<Rightarrow> bool" where
  "en_inv cfg e \<longleftrightarrow>
     en_cfg e = cfg \<and> wf_hashes (en_hashes e)
     \<and> (en_useMetrics e \<longleftrightarrow> PrometheusPort cfg > 0)
     \<and> (en_proxyHooks e \<longleftrightarrow> AppWebSrv cfg \<noteq> None \<and> PrometheusPort cfg > 0)
     \<and> en_routes e ExtPub = initial_routes cfg ExtPub \<and> en_routes e Internal = initial_routes cfg Internal
     \<and> set (map (snd \<circ> snd) (en_routes e ExtPriv)) \<subseteq> {SyncHandler, LeaderHandler, Gone, HeartbeatHandler}
     \<and> (en_syncState e = noSync \<longleftrightarrow> FQDNLeader cfg = [])
     \<and> (\<not> en_stopClosed e \<longrightarrow>
          en_syncState e = isLeader \<or> HeartbeatHandler \<in> (snd \<circ> snd) ` set (en_routes e ExtPriv) \<longrightarrow>
          wm_running (en_workers e))"

text \<open>What the events of a run determine of the enclave.\<close>

definition observed :: "'c enclave \<Rightarrow> bytes \<times> labels multiset \<times> labels multiset" where
  "observed e = (appKeyHash (en_hashes e), me_reqs (en_metrics e), me_proxiedReqs (en_metrics e))"

text \<open>
  What all operations other than those that set the roles leave as it is, and when the operation
  moreover shows nothing.
\<close>

definition same_roles :: "'c enclave \<Rightarrow> 'c enclave \<Rightarrow> bool" where
  "same_roles e e' \<longleftrightarrow> en_cfg e' = en_cfg e \<and> en_routes e' = en_routes e \<and> en_syncState e' = en_syncState e
     \<and> en_stopClosed e' = en_stopClosed e \<and> wm_running (en_workers e') = wm_running (en_workers e)
     \<and> en_useMetrics e' = en_useMetrics e \<and> en_proxyHooks e' = en_proxyHooks e"

definition quiet :: "'c enclave \<Rightarrow> 'c enclave \<Rightarrow> bool" where
  "quiet e e' \<longleftrightarrow> same_roles e e' \<and> observed e' = observed e \<and> (wf_hashes (en_hashes e) \<longrightarrow> wf_hashes (en_hashes e'))"

lemma same_roles_refl [simp]: "same_roles e e"
  by (simp add: same_roles_def)

lemma quiet_refl [simp]: "quiet e e"
  by (simp add: quiet_def)

lemma en_inv_same_roles: "en_inv cfg e \<Longrightarrow> same_roles e e' \<Longrightarrow> wf_hashes (en_hashes e') \<Longrightarrow> en_inv cfg e'"
  by (simp add: en_inv_def same_roles_def)

lemma en_inv_quiet: "en_inv cfg e \<Longrightarrow> quiet e e' \<Longrightarrow> en_inv cfg e'"
  unfolding quiet_def by (blast intro: en_inv_same_roles dest: en_inv_def [THEN iffD1])

section \<open>Lemmas: the handlers\<close>

lemma hashHandler_accepted:
  assumes "wf_hashes h"
  shows "fst (hashHandler r h) = (case accepted_hash r of None \<Rightarrow> h | Some hash \<Rightarrow> h\<lparr>appKeyHash := hash\<rparr>)"
proof -
  have "b64_EncodedLen sha256_Size + 1 = 45" by (simp add: b64_EncodedLen_def sha256_Size_def)
  with assms show ?thesis
    by (auto simp: hashHandler_def accepted_hash_def Let_def wf_hashes_def sha256_Size_def
        split: prod.splits sum.splits option.splits)
qed

lemma accepted_hash_length: "accepted_hash r = Some hash \<Longrightarrow> length hash = 32"
  by (auto simp: accepted_hash_def split: prod.splits sum.splits if_splits)

lemma post_sync_quiet: "quiet e (fst (reached (setupWorkerPostSync pki hostname keys e)))"
  by (auto simp: setupWorkerPostSync_def Let_def quiet_def same_roles_def observed_def split: sum.splits outcome.splits)

lemma quiet_sync: "quiet e e' \<Longrightarrow> quiet e (e'\<lparr>en_sync := s\<rparr>)"
  by (simp add: quiet_def same_roles_def observed_def)

lemma ServeHTTP_enclave:
  "snd (fst (reached (ServeHTTP create verify box inst fr r (s, e)))) = e
   \<or> (\<exists>keys. snd (fst (reached (ServeHTTP create verify box inst fr r (s, e)))) = fst (inst keys e))"
proof -
  have "snd (fst (reached (finishSync verify box inst r (s, e)))) = e
      \<or> (\<exists>keys. snd (fst (reached (finishSync verify box inst r (s, e)))) = fst (inst keys e))"
    using finishSync_installs [of verify box inst r s e] by (metis snd_conv)
  moreover have "snd (fst (reached (map_outcome (\<lambda>(s, w). ((s, e), w)) out))) = e" for out :: "(workerSync \<times> response) outcome"
    by (cases out) auto
  ultimately show ?thesis by (simp add: ServeHTTP_def)
qed

lemma sync_quiet: "quiet e (fst (reached (handle env SyncHandler r e)))"
proof -
  let ?inst = "\<lambda>keys e. reached (setupWorkerPostSync (he_pki env) (Returned (he_hostname env)) keys e)"
  let ?out = "ServeHTTP (he_create env) (he_verify env) (he_box env) ?inst (he_fresh env) r (en_sync e, e)"
  have "quiet e (snd (fst (reached ?out)))"
    using ServeHTTP_enclave [of "he_create env" "he_verify env" "he_box env" ?inst "he_fresh env" r "en_sync e" e]
      post_sync_quiet by (metis quiet_refl)
  moreover have "fst (reached (handle env SyncHandler r e)) =
      (snd (fst (reached ?out)))\<lparr>en_sync := fst (fst (reached ?out))\<rparr>"
    by (cases ?out) (auto simp: handle_def)
  ultimately show ?thesis by (simp add: quiet_sync)
qed

lemma putStateHandler_workers:
  "reached (putStateHandler st r (keys, ws)) = ((keys', ws', gs), w) \<Longrightarrow> ws' = ws"
  by (auto simp: putStateHandler_def Let_def wm_call_def split: syncState.splits prod.splits option.splits if_splits)

lemma put_state_quiet: "quiet e (fst (reached (handle env PutStateHandler r e)))"
proof -
  let ?out = "putStateHandler (getSyncState e) r (en_keys e, en_workers e)"
  obtain keys ws gs w where o: "reached ?out = ((keys, ws, gs), w)" by (metis prod.exhaust)
  then have "fst (reached (handle env PutStateHandler r e)) = e\<lparr>en_keys := keys, en_workers := ws\<rparr>"
    by (cases ?out) (auto simp: handle_def)
  with putStateHandler_workers [OF o] show ?thesis by (simp add: quiet_def same_roles_def observed_def)
qed

lemma heartbeatHandler_workers:
  assumes "reached (heartbeatHandler port keys now r ws) = ((ws', gs), w)"
  shows "ws' = ws \<or> (\<exists>worker. ws' = fst (wm_step ws (Reg worker now)))"
  using assms
  by (auto simp: heartbeatHandler_def wm_call_def split: prod.splits option.splits sum.splits if_splits)

lemma heartbeat_quiet: "quiet e (fst (reached (handle env HeartbeatHandler r e)))"
proof -
  let ?out = "heartbeatHandler (ExtPrivPort (en_cfg e)) (en_keys e) (he_now env) r (en_workers e)"
  obtain ws gs w where o: "reached ?out = ((ws, gs), w)" by (metis prod.exhaust)
  then have "fst (reached (handle env HeartbeatHandler r e)) = e\<lparr>en_workers := ws\<rparr>"
    by (cases ?out) (auto simp: handle_def)
  with heartbeatHandler_workers [OF o] show ?thesis by (auto simp: quiet_def same_roles_def observed_def)
qed

lemma handle_quiet: "h \<notin> {HashHandler, RevProxy} \<Longrightarrow> quiet e (fst (reached (handle env h r e)))"
proof (cases h)
  case GetStateHandler
  then show ?thesis
    by (cases "getStateHandler (he_write env) (getSyncState e) (en_keys e)") (simp_all add: handle_def)
next
  case LeaderHandler
  then show ?thesis by (cases "getLeaderHandler (he_nonce env) r (he_chan env)") (auto simp: handle_def)
qed (auto simp: sync_quiet put_state_quiet heartbeat_quiet, auto simp: handle_def quiet_def same_roles_def observed_def
    split: prod.splits)

text \<open>The two handlers whose work shows: a posted hash and a proxied request.\<close>

lemma handle_hash:
  "wf_hashes (en_hashes e) \<Longrightarrow> \<exists>w. handle env HashHandler r e =
     Returned (e\<lparr>en_hashes := (case accepted_hash r of None \<Rightarrow> en_hashes e
                               | Some hash \<Rightarrow> (en_hashes e)\<lparr>appKeyHash := hash\<rparr>)\<rparr>, w)"
  using hashHandler_accepted [of "en_hashes e" r] by (cases "hashHandler r (en_hashes e)") (simp add: handle_def)

lemma handle_proxy:
  "\<exists>m w. handle env RevProxy r e = Returned (e\<lparr>en_metrics := m\<rparr>, w)
     \<and> me_reqs m = me_reqs (en_metrics e)
     \<and> size (me_proxiedReqs m) = size (me_proxiedReqs (en_metrics e)) + (if en_proxyHooks e then 1 else 0)"
proof (cases "en_proxyHooks e")
  case True
  then show ?thesis
    by (cases "he_backend env r")
      (auto simp: handle_def revProxy_def checkRevProxyResp_def checkRevProxyErr_def split: prod.splits)
next
  case False
  then show ?thesis
    by (intro exI [where x = "en_metrics e"]) (simp add: handle_def split: prod.splits)
qed

section \<open>Lemmas: serving\<close>

definition count_request :: "(response \<Rightarrow> nat) \<Rightarrow> request \<Rightarrow> response \<Rightarrow> 'c enclave \<Rightarrow> 'c enclave" where
  "count_request ww_Status r w e =
     e\<lparr>en_metrics := (en_metrics e)\<lparr>me_reqs := add_mset
        [u_Path (rq_URL r), rq_Method r, show_nat (ww_Status w), notAvailable] (me_reqs (en_metrics e))\<rparr>\<rparr>"

lemma serve_request_eq:
  "serve_request st env route r e =
     (let inner = (case route of None \<Rightarrow> Returned (e, he_unrouted env r) | Some h \<Rightarrow> handle env h r e) in
      case inner of
        Returned (e', w) \<Rightarrow> Returned (if en_useMetrics e then count_request st r w e' else e', w)
      | out \<Rightarrow> out)"
proof -
  have mw: "map_outcome (\<lambda>((m, e'), w). (e'\<lparr>en_metrics := m\<rparr>, w)) (middleware st
      (\<lambda>r (m, e). map_outcome (\<lambda>(e', w). ((en_metrics e', e'), w)) (f r (e\<lparr>en_metrics := m\<rparr>))) r (en_metrics e, e)) =
    (case f r e of Returned (e', w) \<Rightarrow> Returned (count_request st r w e', w) | out \<Rightarrow> out)" for f
    by (cases "f r e") (auto simp: middleware_def count_request_def)
  show ?thesis
  proof (cases "en_useMetrics e")
    case True
    then show ?thesis
      using mw [of "\<lambda>r e. case route of None \<Rightarrow> Returned (e, he_unrouted env r) | Some h \<Rightarrow> handle env h r e"]
      by (simp add: serve_request_def split: outcome.split)
  qed (auto simp: serve_request_def Let_def split: outcome.splits prod.splits)
qed



lemma unanswered_quiet:
  assumes "serve_request st env (Some h) r e = out" "out \<noteq> Returned (reached out)" "wf_hashes (en_hashes e)"
  shows "quiet e (fst (reached out))"
proof -
  have "handle env h r e = out \<and> (\<nexists>x. handle env h r e = Returned x)"
    using assms(1,2) by (cases "handle env h r e") (auto simp: serve_request_eq Let_def split: prod.splits)
  moreover from this have "h \<notin> {HashHandler, RevProxy}"
    using handle_hash [OF assms(3), of env r] handle_proxy [of env r e] by auto
  ultimately show ?thesis using handle_quiet [of h e env r] by simp
qed

lemma count_request_simps:
  "same_roles e (count_request st r w e') = same_roles e e'" "en_hashes (count_request st r w e') = en_hashes e'"
  "me_reqs (en_metrics (count_request st r w e')) =
     add_mset [u_Path (rq_URL r), rq_Method r, show_nat (st w), notAvailable] (me_reqs (en_metrics e'))"
  "me_proxiedReqs (en_metrics (count_request st r w e')) = me_proxiedReqs (en_metrics e')"
  by (simp_all add: count_request_def same_roles_def)

text \<open>The handler that ran: one that shows nothing, or one of the two others.\<close>

lemma inner_cases:
  assumes "(case route of None \<Rightarrow> Returned (e, he_unrouted env r) | Some h \<Rightarrow> handle env h r e) = Returned (e1, w)"
    and "wf_hashes (en_hashes e)"
  obtains (quiet) "quiet e e1" "route \<noteq> Some HashHandler" "route \<noteq> Some RevProxy"
  | (hash) "route = Some HashHandler" "e1 = e\<lparr>en_hashes := (case accepted_hash r of None \<Rightarrow> en_hashes e
        | Some hash \<Rightarrow> (en_hashes e)\<lparr>appKeyHash := hash\<rparr>)\<rparr>"
  | (proxy) m where "route = Some RevProxy" "e1 = e\<lparr>en_metrics := m\<rparr>" "me_reqs m = me_reqs (en_metrics e)"
      "size (me_proxiedReqs m) = size (me_proxiedReqs (en_metrics e)) + (if en_proxyHooks e then 1 else 0)"
proof (cases route)
  case (Some h)
  with assms(1) have h: "handle env h r e = Returned (e1, w)" by simp
  consider "h \<notin> {HashHandler, RevProxy}" | "h = HashHandler" | "h = RevProxy" by blast
  then show ?thesis
  proof cases
    case 1
    with handle_quiet [OF 1, of e env r] h Some quiet show ?thesis by simp
  next
    case 2
    with handle_hash [OF assms(2), of env r] h Some hash show ?thesis by auto
  next
    case 3
    with handle_proxy [of env r e] h Some proxy show ?thesis by auto
  qed
qed (use assms(1) quiet in simp)

lemma served_wf_roles:
  assumes "(case route of None \<Rightarrow> Returned (e, he_unrouted env r) | Some h \<Rightarrow> handle env h r e) = Returned (e1, w)"
    and "wf_hashes (en_hashes e)"
  shows "same_roles e e1 \<and> wf_hashes (en_hashes e1)"
  using assms
proof (cases rule: inner_cases)
  case hash
  with assms(2) accepted_hash_length [of r] show ?thesis
    by (auto simp: same_roles_def wf_hashes_def sha256_Size_def split: option.splits)
next
  case (proxy m)
  with assms(2) show ?thesis by (simp add: same_roles_def)
qed (auto simp: quiet_def assms(2))

lemma serve_request_inner:
  assumes "serve_request st env route r e = Returned (e', w)"
  obtains e1 where "(case route of None \<Rightarrow> Returned (e, he_unrouted env r) | Some h \<Rightarrow> handle env h r e) = Returned (e1, w)"
    "e' = (if en_useMetrics e then count_request st r w e1 else e1)"
  using assms by (auto simp: serve_request_eq Let_def split: outcome.splits prod.splits)

lemma serve_request_roles:
  assumes "serve_request st env route r e = Returned (e', w)" "en_inv cfg e"
  shows "same_roles e e' \<and> wf_hashes (en_hashes e')"
proof -
  have "wf_hashes (en_hashes e)" using assms(2) by (simp add: en_inv_def)
  with serve_request_inner [OF assms(1)] show ?thesis
    by (metis served_wf_roles count_request_simps(1,2))
qed


section \<open>Lemmas: certificates and heartbeats\<close>

lemma setCertFingerprint_quiet: "quiet e (fst (setCertFingerprint pki raw e))"
  using setCertFingerprint_wf [of e pki raw]
    fingerprint_loop_keeps_app [of "pk_ParseCertificate pki" "pk_pem_blocks pki raw" "en_hashes e"]
  by (auto simp: setCertFingerprint_def quiet_def same_roles_def observed_def split: sum.splits prod.splits)

lemma genSelfSignedCert_quiet: "quiet e (fst (genSelfSignedCert pki created e))"
  using setCertFingerprint_quiet [of e pki]
  by (auto simp: genSelfSignedCert_def Let_def quiet_def same_roles_def observed_def
      split: sum.splits prod.splits option.splits) (metis fst_conv)+

lemma acme_poll_quiet: "quiet e (reached (acme_poll pki polls e))"
proof (induction polls)
  case (Cons p polls)
  show ?case
  proof (cases p)
    case (Inr raw)
    obtain e1 err where "setCertFingerprint pki (slice_bytes raw) e = (e1, err)" by fastforce
    with Inr setCertFingerprint_quiet [of e pki "slice_bytes raw"] show ?thesis by (cases err) simp_all
  qed (simp add: Cons.IH)
qed simp

lemma beat_quiet: "quiet e (fst (beat render post worker (e, x)))"
  by (simp add: beat_def Let_def quiet_def same_roles_def observed_def split: prod.splits)

section \<open>Lemmas: roles\<close>

lemma set_leader_route_inv:
  "en_inv cfg e \<Longrightarrow> h \<in> {LeaderHandler, Gone} \<Longrightarrow> en_inv cfg (set_leader_route h e)"
  by (auto simp: en_inv_def set_leader_route_def set_route_def)

lemma setupLeader_inv: "en_inv cfg e \<Longrightarrow> en_inv cfg (setupLeader e) \<and> wm_running (en_workers (setupLeader e))"
  by (auto simp: en_inv_def setupLeader_def set_route_def wm_start_def)

lemma leader_loop_reached:
  "OnReply True \<notin> set evs \<Longrightarrow> reached (leader_loop evs e) \<in> {(e, False), (setupLeader e, True)}"
  by (induction evs e rule: leader_loop.induct) auto

lemma setSyncState_inv:
  "en_inv cfg e \<Longrightarrow> FQDNLeader cfg \<noteq> [] \<Longrightarrow> (st = isLeader \<longrightarrow> wm_running (en_workers e)) \<Longrightarrow> st \<noteq> noSync \<Longrightarrow>
   en_inv cfg (setSyncState st e)"
  by (auto simp: en_inv_def setSyncState_def)

lemma observed_roles [simp]:
  "observed (set_leader_route h e) = observed e" "observed (setSyncState st e) = observed e"
  "observed (setupLeader e) = observed e" "observed (e\<lparr>en_networking := b\<rparr>) = observed e"
  by (simp_all add: observed_def set_leader_route_def setSyncState_def setupLeader_def)

lemma weAreLeader_inv:
  assumes "en_inv cfg e" "FQDNLeader cfg \<noteq> []" "OnReply True \<notin> set evs"
  shows "en_inv cfg (fst (reached (weAreLeader n evs e))) \<and> observed (fst (reached (weAreLeader n evs e))) = observed e"
proof (cases n)
  case (Inr nn)
  let ?e1 = "set_leader_route LeaderHandler e"
  have e1: "en_inv cfg ?e1" using assms(1) by (simp add: set_leader_route_inv)
  consider "reached (leader_loop evs ?e1) = (?e1, False)" | "reached (leader_loop evs ?e1) = (setupLeader ?e1, True)"
    using leader_loop_reached [OF assms(3), of ?e1] by blast
  then have r: "en_inv cfg (fst (reached (leader_loop evs ?e1))) \<and> observed (fst (reached (leader_loop evs ?e1))) = observed e
    \<and> (snd (reached (leader_loop evs ?e1)) \<longrightarrow> wm_running (en_workers (fst (reached (leader_loop evs ?e1)))))"
    by cases (simp_all add: e1 setupLeader_inv [OF e1])
  show ?thesis
  proof (cases "leader_loop evs ?e1")
    case (Returned p)
    have "en_workers (set_leader_route Gone x) = en_workers x" for x :: "'a enclave"
      by (simp add: set_leader_route_def)
    with Returned r Inr assms(2) show ?thesis
      by (auto simp: weAreLeader_def Let_def intro!: setSyncState_inv set_leader_route_inv split: prod.splits)
  qed (use r Inr in \<open>auto simp: weAreLeader_def\<close>)
qed (simp add: weAreLeader_def assms(1))

lemma start_worker_enclave [simp]: "sd_enclave (fst (reached (start_worker env st))) = sd_enclave st"
  by (auto simp: start_worker_def Let_def split: outcome.splits prod.splits option.splits)

lemma start_role_inv:
  assumes "en_inv cfg (sd_enclave st)" "OnReply True \<notin> set (se_leaderEvents env)"
  shows "en_inv cfg (sd_enclave (fst (reached (start_role env st))))
    \<and> observed (sd_enclave (fst (reached (start_role env st)))) = observed (sd_enclave st)"
proof (cases "FQDNLeader cfg = []")
  case True
  with assms(1) show ?thesis by (simp add: start_role_def isScalingEnabled_def en_inv_def)
next
  case False
  with weAreLeader_inv [OF assms(1) _ assms(2), of "newNonce (se_rand env)"] assms(1) show ?thesis
    by (auto simp: start_role_def split: outcome.splits prod.splits)
qed

lemma Start_inv:
  assumes "en_inv cfg e" "OnReply True \<notin> set (se_leaderEvents env)"
  shows "en_inv cfg (sd_enclave (fst (reached (Start env (e, h)))))
    \<and> observed (sd_enclave (fst (reached (Start env (e, h))))) = observed e"
proof -
  let ?e0 = "e\<lparr>en_networking := True\<rparr>"
  have e0: "en_inv cfg ?e0" using assms(1) by (simp add: en_inv_def)
  have cert: "en_inv cfg e1 \<and> observed e1 = observed e"
    if "(if UseACME (en_cfg ?e0) then setupAcme ?e0 else genSelfSignedCert pki created ?e0) = (e1, err)"
    for pki created e1 err
  proof (cases "UseACME (en_cfg ?e0)")
    case True
    with that have "e1 = ?e0\<lparr>en_pubTLS := Some AcmeManager\<rparr>" by (simp add: setupAcme_def)
    with e0 show ?thesis by (simp add: en_inv_def observed_def)
  next
    case False
    with that have "e1 = fst (genSelfSignedCert pki created ?e0)" by simp
    with genSelfSignedCert_quiet [of ?e0 pki created] en_inv_quiet [OF e0] show ?thesis
      by (auto simp: quiet_def)
  qed
  show ?thesis
  proof (cases "snd (if se_inEnclave env then configureLoIface (se_os env)
      (fst (setFdLimit (se_os env) (unat (FdCur (en_cfg e))) (unat (FdMax (en_cfg e))) h)) else (h, None))")
    case (Some err)
    with assms(1) show ?thesis by (auto simp: Start_def Let_def split: prod.splits)
  next
    case None
    obtain e1 err where c: "(if UseACME (en_cfg ?e0) then setupAcme ?e0 else genSelfSignedCert (se_pki env)
        (createCertificate (se_crypto env) (se_notBefore env) (se_now env) (FQDN (en_cfg ?e0))) ?e0) = (e1, err)"
      by fastforce
    note e1 = cert [OF c]
    show ?thesis
    proof (cases err)
      case (Some x)
      with None c e1 show ?thesis by (auto simp: Start_def Let_def split: prod.splits)
    next
      case n: None
      with None c e1 start_role_inv [OF _ assms(2)] show ?thesis
        by (auto simp: Start_def Let_def split: prod.splits)
    qed
  qed
qed

lemma NewEnclave_fields:
  assumes "NewEnclave cfg = Inr e"
  shows "en_cfg e = cfg" "en_routes e = initial_routes cfg" "en_hashes e = newAttestationHashes"
    "en_metrics e = newMetrics" "en_workers e = newWorkerManager minute" "\<not> en_stopClosed e"
    "en_syncState e = (if FQDNLeader cfg = [] then noSync else inProgress)"
    "en_useMetrics e \<longleftrightarrow> PrometheusPort cfg > 0" "en_proxyHooks e \<longleftrightarrow> AppWebSrv cfg \<noteq> None \<and> PrometheusPort cfg > 0"
  using assms
  by (auto simp: NewEnclave_def Let_def setSyncState_def isScalingEnabled_def split: option.splits if_splits)

lemma NewEnclave_inv: "NewEnclave cfg = Inr e \<Longrightarrow> en_inv cfg e"
  by (auto simp: en_inv_def NewEnclave_fields initial_routes_def newWorkerManager_def wf_newAttestationHashes)


section \<open>Lemmas: all steps\<close>


text \<open>Every step keeps the invariant; with a wrapper that reports the status, it also keeps the books.\<close>

lemma en_step_inv: "en_step st e ev e' \<Longrightarrow> en_inv cfg e \<Longrightarrow> en_inv cfg e'"
proof (induction rule: en_step.induct)
  case (start env e h)
  then show ?case by (simp add: Start_inv)
next
  case (answered route e srv henv r e' w)
  then show ?case using serve_request_roles [OF answered(2,3)] en_inv_same_roles by blast
next
  case (unanswered route e srv henv r out)
  then have "wf_hashes (en_hashes e)" by (simp add: en_inv_def)
  with unanswered unanswered_quiet en_inv_quiet show ?case by blast
next
  case (manager e ev)
  then show ?case by (cases "ev = Stopped") (auto simp: en_inv_def wm_step_running)
next
  case (beat worker e render post)
  show ?case by (rule en_inv_quiet [OF beat(2) beat_quiet])
next
  case (acme e pki polls)
  show ?case by (rule en_inv_quiet [OF acme acme_poll_quiet])
next
  case (stop e res)
  then show ?case by (auto simp: Stop_def en_inv_def)
qed


lemma en_run_inv: "en_run st e evs e' \<Longrightarrow> en_inv cfg e \<Longrightarrow> en_inv cfg e'"
  by (induction rule: en_run.induct) (auto intro: en_step_inv)


lemma reachable_inv:
  assumes "en_reaches e e'" "NewEnclave cfg = Inr e"
  shows "en_inv cfg e'"
  using assms by (auto simp: en_reaches_def intro: en_run_inv NewEnclave_inv)

section \<open>An enclave that became leader\<close>

definition leader_config :: Config where
  "leader_config = plain_config\<lparr>FQDNLeader := ''a''\<rparr>"

definition sim_start :: "(unit, bytes) start_env" where
  "sim_start =
     \<lparr>se_inEnclave = False, se_os = (\<lambda>_ _. None),
      se_pki = \<lparr>pk_pem_blocks = (\<lambda>_. [(''CERTIFICATE'', [2])]),
        pk_ParseCertificate = (\<lambda>b. Inr \<lparr>xc_IsCA = False, xc_Raw = b\<rparr>), pk_X509KeyPair = (\<lambda>_ _. Inr ())\<rparr>,
      se_crypto = \<lparr>cy_GenerateKey = Inr [1], cy_RandInt = (\<lambda>_. Inr 1), cy_CreateCertificate = (\<lambda>_ _. Inr [2]),
        cy_MarshalPKCS8 = (\<lambda>_. Inr [3]), cy_EncodeToMemory = (\<lambda>_ b. Some b)\<rparr>,
      se_notBefore = 0, se_now = 0, se_rand = (\<lambda>n. (replicate n 1, None)), se_leaderEvents = [OnErr, OnSignal],
      se_dialed = Inl EOF, se_metadata = (\<lambda>_ _. Inl EOF), se_regEvents = []\<rparr>"

definition leader_new :: "unit enclave" where
  "leader_new = projr (NewEnclave leader_config)"

definition leader_enclave :: "unit enclave" where
  "leader_enclave = sd_enclave (fst (reached (Start sim_start (leader_new, []))))"

lemma leader_new: "NewEnclave leader_config = Inr leader_new"
  by (simp add: leader_new_def NewEnclave_def leader_config_def plain_config_def Validate_def isScalingEnabled_def)

lemma leader_enclave_reached: "en_reaches leader_new leader_enclave"
proof -
  have "en_step status_of leader_new Silent leader_enclave"
    unfolding leader_enclave_def by (rule en_step.start) (simp add: sim_start_def)
  from en_run.further [OF en_run.here this] show ?thesis unfolding en_reaches_def by blast
qed

lemma leader_enclave_state:
  "\<not> en_stopClosed leader_enclave" "en_syncState leader_enclave = isLeader"
  "HeartbeatHandler \<in> (snd \<circ> snd) ` set (en_routes leader_enclave ExtPriv)"
  by (simp_all add: leader_enclave_def leader_new_def NewEnclave_def Start_def start_role_def Let_def sim_start_def
      leader_config_def plain_config_def Validate_def isScalingEnabled_def createCertificate_def genSelfSignedCert_def
      setCertFingerprint_def weAreLeader_def newNonce_def nonceLen_def setupLeader_def set_leader_route_def
      setSyncState_def initial_routes_def set_route_def path_defs)

section \<open>An enclave with metrics that answered two requests\<close>










section \<open>Properties\<close>



text \<open>C11: In no state that an enclave can reach is a confidential endpoint routed on the public server:
  there are attestation, index page and configuration, the profiler only when profiling is on, and the
  reverse proxy only when the application has a Web server. State, hash and readiness are routed on the
  enclave-internal server only, synchronization, designation and heartbeats on the private one only.\<close>

theorem routes_stay_confidential:
  assumes "NewEnclave cfg = Inr e" "en_reaches e e'"
  shows "(snd \<circ> snd) ` set (en_routes e' ExtPub) \<subseteq> {AttestationHandler, RootHandler, ConfigHandler}
      \<union> (if UseProfiling cfg then {Profiler} else {}) \<union> (if AppWebSrv cfg \<noteq> None then {RevProxy} else {})
    \<and> (snd \<circ> snd) ` set (en_routes e' Internal) =
        {GetStateHandler, PutStateHandler, HashHandler} \<union> (if WaitForApp cfg then {ReadyHandler} else {})
    \<and> (snd \<circ> snd) ` set (en_routes e' ExtPriv) \<subseteq> {SyncHandler, LeaderHandler, Gone, HeartbeatHandler}"
  using reachable_inv [OF assms(2,1)] by (auto simp: en_inv_def initial_routes_def)

theorem routes_stay_confidential_witness:
  "(snd \<circ> snd) ` set (en_routes leader_enclave Internal) =
     {GetStateHandler, PutStateHandler, HashHandler} \<union> (if WaitForApp leader_config then {ReadyHandler} else {})"
  using routes_stay_confidential [OF leader_new leader_enclave_reached] by blast

text \<open>C12: Until an enclave is stopped, none of its handlers waits for ever for the worker manager: wherever
  the heartbeat endpoint is routed it answers every request, and a request to change the application's
  state is answered in every role.\<close>

theorem handlers_answer_until_stop:
  assumes "NewEnclave cfg = Inr e" "en_reaches e e'" "\<not> en_stopClosed e'"
  shows "(HeartbeatHandler \<in> (snd \<circ> snd) ` set (en_routes e' ExtPriv) \<longrightarrow>
        (\<exists>out. heartbeatHandler (ExtPrivPort cfg) (en_keys e') now r (en_workers e') = Returned out))
    \<and> (\<exists>out. putStateHandler (getSyncState e') r' (en_keys e', en_workers e') = Returned out)"
proof -
  have run: "getSyncState e' = isLeader \<or> HeartbeatHandler \<in> (snd \<circ> snd) ` set (en_routes e' ExtPriv) \<Longrightarrow>
      wm_running (en_workers e')"
    using reachable_inv [OF assms(2,1)] assms(3) by (auto simp: en_inv_def getSyncState_def)
  have "\<exists>out. heartbeatHandler (ExtPrivPort cfg) (en_keys e') now r (en_workers e') = Returned out"
    if "wm_running (en_workers e')"
    using that by (auto simp: heartbeatHandler_def split: prod.splits option.splits sum.splits)
  moreover have "\<exists>out. putStateHandler (getSyncState e') r' (en_keys e', en_workers e') = Returned out"
    using run by (cases "getSyncState e'") (auto simp: putStateHandler_def split: prod.splits option.splits)
  ultimately show ?thesis using run by blast
qed

theorem handlers_answer_until_stop_witness:
  "(\<exists>out. heartbeatHandler 444 (en_keys leader_enclave) 5
       \<lparr>rq_Method = ''POST'', rq_URL = getSyncURL ''a'' 444, rq_Body = bytes_reader []\<rparr> (en_workers leader_enclave) = Returned out)
   \<and> (\<exists>out. putStateHandler isLeader \<lparr>rq_Method = ''PUT'', rq_URL = getSyncURL ''a'' 444, rq_Body = bytes_reader [1]\<rparr>
        (en_keys leader_enclave, en_workers leader_enclave) = Returned out)"
proof -
  have port: "ExtPrivPort leader_config = 444" by (simp add: leader_config_def plain_config_def)
  show ?thesis
    using handlers_answer_until_stop [OF leader_new leader_enclave_reached leader_enclave_state(1)]
      leader_enclave_state(2,3) unfolding port getSyncState_def by metis
qed

end
