(* ===== verification/Interleaving.thy ===== *)
theory Interleaving
  imports Sync
begin

text \<open>
  Concurrent requests to one worker's synchronization endpoint (src/sync_worker.go). Each request is
  served by a goroutine of its own; the handlers share the two channels and nothing else. Here a
  handler is cut at its channel operations, so that any number of them interleave in any order, and the
  handlers of the sequential model are shown to be uninterrupted runs of these steps.
\<close>

section \<open>Steps\<close>

text \<open>
  Where a handler is: \<^verbatim>\<open>initSync\<close> checks that no key is pending, sends its nonce, sends its key, and
  answers; \<^verbatim>\<open>finishSync\<close> receives a nonce, verifies the document for it, and receives a key. An
  accepting handler remembers whose nonce it received.
\<close>

datatype init_at = Arrived | Checked | NonceSent | KeySent | Answered | Refused | Failed

datatype finish_at = Waiting | Accepted nat | Rejected | Opened nat boxKey

record handlers =
  ha_worker :: workerSync
  ha_init :: "nat \<Rightarrow> init_at"
  ha_finish :: "nat \<Rightarrow> finish_at"

definition no_handlers :: "workerSync \<Rightarrow> handlers" where
  "no_handlers s = \<lparr>ha_worker = s, ha_init = (\<lambda>_. Arrived), ha_finish = (\<lambda>_. Waiting)\<rparr>"

text \<open>
  The nonce and the key that each \<^verbatim>\<open>initSync\<close> draws are parameters. A document that verifies for a
  nonce was issued on request of somebody who had read the nonce, so it exists only after the answer
  that contains the nonce; this is the condition on \<open>accept\<close>.
\<close>

inductive handler_step :: "(nat \<Rightarrow> nonce) \<Rightarrow> (nat \<Rightarrow> boxKey) \<Rightarrow> handlers \<Rightarrow> handlers \<Rightarrow> bool"
  for ns :: "nat \<Rightarrow> nonce" and ks :: "nat \<Rightarrow> boxKey" where
  check: "ha_init h i = Arrived \<Longrightarrow> chan_len (wk_ephemeralKeys (ha_worker h)) = 0 \<Longrightarrow>
    handler_step ns ks h (h\<lparr>ha_init := (ha_init h)(i := Checked)\<rparr>)"
| busy: "ha_init h i = Arrived \<Longrightarrow> chan_len (wk_ephemeralKeys (ha_worker h)) > 0 \<Longrightarrow>
    handler_step ns ks h (h\<lparr>ha_init := (ha_init h)(i := Refused)\<rparr>)"
| send_nonce: "ha_init h i = Checked \<Longrightarrow> chan_send (ns i) (wk_nonce (ha_worker h)) = Some c \<Longrightarrow>
    handler_step ns ks h (h\<lparr>ha_worker := (ha_worker h)\<lparr>wk_nonce := c\<rparr>, ha_init := (ha_init h)(i := NonceSent)\<rparr>)"
| send_key: "ha_init h i = NonceSent \<Longrightarrow> chan_send (ks i) (wk_ephemeralKeys (ha_worker h)) = Some c \<Longrightarrow>
    handler_step ns ks h
      (h\<lparr>ha_worker := (ha_worker h)\<lparr>wk_ephemeralKeys := c\<rparr>, ha_init := (ha_init h)(i := KeySent)\<rparr>)"
| answer: "ha_init h i = KeySent \<Longrightarrow> handler_step ns ks h (h\<lparr>ha_init := (ha_init h)(i := Answered)\<rparr>)"
| fail: "ha_init h i \<in> {Checked, NonceSent, KeySent} \<Longrightarrow>
    handler_step ns ks h (h\<lparr>ha_init := (ha_init h)(i := Failed)\<rparr>)"
| accept: "ha_finish h f = Waiting \<Longrightarrow> chan_recv (wk_nonce (ha_worker h)) = Some (ns i, c) \<Longrightarrow>
    ha_init h i = Answered \<Longrightarrow>
    handler_step ns ks h
      (h\<lparr>ha_worker := (ha_worker h)\<lparr>wk_nonce := c\<rparr>, ha_finish := (ha_finish h)(f := Accepted i)\<rparr>)"
| reject: "ha_finish h f = Waiting \<Longrightarrow> chan_recv (wk_nonce (ha_worker h)) = Some (n, c) \<Longrightarrow>
    handler_step ns ks h
      (h\<lparr>ha_worker := (ha_worker h)\<lparr>wk_nonce := c\<rparr>, ha_finish := (ha_finish h)(f := Rejected)\<rparr>)"
| wrong_hash: "ha_finish h f = Accepted i \<Longrightarrow>
    handler_step ns ks h (h\<lparr>ha_finish := (ha_finish h)(f := Rejected)\<rparr>)"
| take_key: "ha_finish h f = Accepted i \<Longrightarrow> chan_recv (wk_ephemeralKeys (ha_worker h)) = Some (k, c) \<Longrightarrow>
    handler_step ns ks h
      (h\<lparr>ha_worker := (ha_worker h)\<lparr>wk_ephemeralKeys := c\<rparr>, ha_finish := (ha_finish h)(f := Opened i k)\<rparr>)"

inductive handlers_run :: "(nat \<Rightarrow> nonce) \<Rightarrow> (nat \<Rightarrow> boxKey) \<Rightarrow> handlers \<Rightarrow> handlers \<Rightarrow> bool"
  for ns :: "nat \<Rightarrow> nonce" and ks :: "nat \<Rightarrow> boxKey" where
  none: "handlers_run ns ks h h"
| more: "handlers_run ns ks h h' \<Longrightarrow> handler_step ns ks h' h'' \<Longrightarrow> handlers_run ns ks h h''"

section \<open>The invariant\<close>

text \<open>
  Whoever has answered and whose nonce is still there, whoever has just sent its key, and whoever's
  document was accepted owns the key in the channel. A nonce is sent once: it is in the channel, or
  accepted by at most one handler, only after its handler sent it.
\<close>

definition handlers_inv :: "(nat \<Rightarrow> nonce) \<Rightarrow> (nat \<Rightarrow> boxKey) \<Rightarrow> handlers \<Rightarrow> bool" where
  "handlers_inv ns ks h \<longleftrightarrow>
     (\<forall>i. wk_nonce (ha_worker h) = Some (ns i) \<longrightarrow>
        ha_init h i \<in> {NonceSent, KeySent, Answered, Failed}
        \<and> (ha_init h i = Answered \<longrightarrow> wk_ephemeralKeys (ha_worker h) = Some (ks i)))
     \<and> (\<forall>i. ha_init h i = KeySent \<longrightarrow> wk_ephemeralKeys (ha_worker h) = Some (ks i))
     \<and> (\<forall>f i. ha_finish h f = Accepted i \<longrightarrow>
          ha_init h i = Answered \<and> wk_ephemeralKeys (ha_worker h) = Some (ks i)
          \<and> wk_nonce (ha_worker h) \<noteq> Some (ns i))
     \<and> (\<forall>f g i. ha_finish h f = Accepted i \<longrightarrow> ha_finish h g = Accepted i \<longrightarrow> f = g)
     \<and> (\<forall>f i k. ha_finish h f = Opened i k \<longrightarrow> k = ks i)"

lemma handlers_inv_start: "idle s \<Longrightarrow> handlers_inv ns ks (no_handlers s)"
  by (simp add: handlers_inv_def no_handlers_def idle_def)

lemma chan_recv_Some: "chan_recv c = Some (x, c') \<longleftrightarrow> c = Some x \<and> c' = None"
  by (cases c) auto

lemma chan_send_Some: "chan_send x c = Some c' \<longleftrightarrow> c = None \<and> c' = Some x"
  by (cases c) auto

lemma handlers_invI:
  assumes "\<And>i. wk_nonce (ha_worker h) = Some (ns i) \<Longrightarrow> ha_init h i \<in> {NonceSent, KeySent, Answered, Failed}"
    and "\<And>i. wk_nonce (ha_worker h) = Some (ns i) \<Longrightarrow> ha_init h i = Answered \<Longrightarrow>
        wk_ephemeralKeys (ha_worker h) = Some (ks i)"
    and "\<And>i. ha_init h i = KeySent \<Longrightarrow> wk_ephemeralKeys (ha_worker h) = Some (ks i)"
    and "\<And>f i. ha_finish h f = Accepted i \<Longrightarrow> ha_init h i = Answered"
    and "\<And>f i. ha_finish h f = Accepted i \<Longrightarrow> wk_ephemeralKeys (ha_worker h) = Some (ks i)"
    and "\<And>f i. ha_finish h f = Accepted i \<Longrightarrow> wk_nonce (ha_worker h) \<noteq> Some (ns i)"
    and "\<And>f g i. ha_finish h f = Accepted i \<Longrightarrow> ha_finish h g = Accepted i \<Longrightarrow> f = g"
    and "\<And>f i k. ha_finish h f = Opened i k \<Longrightarrow> k = ks i"
  shows "handlers_inv ns ks h"
  unfolding handlers_inv_def using assms by blast

lemma handlers_invD:
  assumes "handlers_inv ns ks h"
  shows "wk_nonce (ha_worker h) = Some (ns i) \<Longrightarrow> ha_init h i \<in> {NonceSent, KeySent, Answered, Failed}"
    and "wk_nonce (ha_worker h) = Some (ns i) \<Longrightarrow> ha_init h i = Answered \<Longrightarrow>
        wk_ephemeralKeys (ha_worker h) = Some (ks i)"
    and "ha_init h i = KeySent \<Longrightarrow> wk_ephemeralKeys (ha_worker h) = Some (ks i)"
    and "ha_finish h f = Accepted i \<Longrightarrow> ha_init h i = Answered"
    and "ha_finish h f = Accepted i \<Longrightarrow> wk_ephemeralKeys (ha_worker h) = Some (ks i)"
    and "ha_finish h f = Accepted i \<Longrightarrow> wk_nonce (ha_worker h) \<noteq> Some (ns i)"
    and "ha_finish h f = Accepted i \<Longrightarrow> ha_finish h g = Accepted i \<Longrightarrow> f = g"
    and "ha_finish h f = Opened i k \<Longrightarrow> k = ks i"
  using assms unfolding handlers_inv_def by blast+

text \<open>An \<^verbatim>\<open>initSync\<close> that only moves on, without sending anything or answering.\<close>

lemma handlers_inv_pc:
  assumes inv: "handlers_inv ns ks h" and i: "ha_init h i \<noteq> Answered" "pc \<notin> {KeySent, Answered}"
    and n: "wk_nonce (ha_worker h) = Some (ns i) \<Longrightarrow> pc \<in> {NonceSent, Failed}"
  shows "handlers_inv ns ks (h\<lparr>ha_init := (ha_init h)(i := pc)\<rparr>)"
proof (rule handlers_invI, goal_cases)
  case (1 j)
  then show ?case using handlers_invD(1) [OF inv, of j] n by (cases "j = i") auto
next
  case (4 f j)
  then show ?case using handlers_invD(4) [OF inv, of f j] i(1) by (cases "j = i") auto
qed (use i(2) handlers_invD(2,3,5-8) [OF inv] in \<open>auto split: if_splits\<close>)

lemma handler_step_inv:
  assumes "handler_step ns ks h h'" and inv: "handlers_inv ns ks h" and inj: "inj ns" "inj ks"
  shows "handlers_inv ns ks h'"
  using assms(1)
proof cases
  case (check i)
  with handlers_invD(1) [OF inv, of i] show ?thesis by (auto intro!: handlers_inv_pc [OF inv])
next
  case (busy i)
  with handlers_invD(1) [OF inv, of i] show ?thesis by (auto intro!: handlers_inv_pc [OF inv])
next
  case (fail i)
  then show ?thesis by (auto intro!: handlers_inv_pc [OF inv])
next
  case (send_nonce i c)
  then have c: "wk_nonce (ha_worker h) = None" "c = Some (ns i)" by (simp_all add: chan_send_Some)
  show ?thesis unfolding send_nonce(1)
    by (rule handlers_invI)
      (use send_nonce(2) c handlers_invD(3-8) [OF inv] inj_eq [OF inj(1)] in \<open>auto split: if_splits\<close>)
next
  case (send_key i c)
  then have c: "wk_ephemeralKeys (ha_worker h) = None" "c = Some (ks i)" by (simp_all add: chan_send_Some)
  show ?thesis unfolding send_key(1)
    by (rule handlers_invI)
      (use send_key(2) c handlers_invD [OF inv] in \<open>auto split: if_splits\<close>)
next
  case (answer i)
  show ?thesis unfolding answer(1)
  proof (rule handlers_invI, goal_cases)
    case (3 j)
    then show ?case using handlers_invD(3) [OF inv, of j] by (cases "j = i") auto
  qed (use answer(2) handlers_invD [OF inv] in \<open>auto split: if_splits\<close>)
next
  case (accept f i c)
  then have c: "wk_nonce (ha_worker h) = Some (ns i)" "c = None" by (simp_all add: chan_recv_Some)
  have key: "wk_ephemeralKeys (ha_worker h) = Some (ks i)" using handlers_invD(2) [OF inv c(1) accept(4)] .
  have none: "ha_finish h g \<noteq> Accepted j" for g j
    using handlers_invD(5,6) [OF inv, of g j] key c(1) by (auto simp: inj_eq [OF inj(2)])
  show ?thesis unfolding accept(1)
    by (rule handlers_invI)
      (use accept(4) c(2) key none handlers_invD(3,8) [OF inv] in \<open>auto split: if_splits\<close>)
next
  case (reject f n c)
  then have c: "c = None" by (simp add: chan_recv_Some)
  show ?thesis unfolding reject(1)
    by (rule handlers_invI) (use c handlers_invD [OF inv] in \<open>auto split: if_splits\<close>)
next
  case (wrong_hash f i)
  show ?thesis unfolding wrong_hash(1)
    by (rule handlers_invI) (use handlers_invD [OF inv] in \<open>auto split: if_splits\<close>)
next
  case (take_key f i k c)
  then have c: "wk_ephemeralKeys (ha_worker h) = Some k" "c = None" by (simp_all add: chan_recv_Some)
  have f: "ha_init h i = Answered" "k = ks i" "wk_nonce (ha_worker h) \<noteq> Some (ns i)"
    using handlers_invD(4-6) [OF inv take_key(2)] c(1) by simp_all
  have owner: "wk_ephemeralKeys (ha_worker h) = Some (ks j) \<Longrightarrow> j = i" for j
    using c(1) f(2) by (simp add: inj_eq [OF inj(2)])
  have none: "g = f" if "ha_finish h g = Accepted j" for g j
    using owner [OF handlers_invD(5) [OF inv that]] that handlers_invD(7) [OF inv take_key(2)] by simp
  have sent: "ha_init h j \<noteq> KeySent" for j using owner handlers_invD(3) [OF inv, of j] f(1) by auto
  have answered: "ha_init h j \<noteq> Answered" if "wk_nonce (ha_worker h) = Some (ns j)" for j
    using owner handlers_invD(2) [OF inv that] f(3) that by auto
  show ?thesis unfolding take_key(1)
    by (rule handlers_invI)
      (use c(2) f(2) none sent answered handlers_invD(1,8) [OF inv] in \<open>auto split: if_splits\<close>)
qed

lemma handlers_run_inv:
  assumes "handlers_run ns ks h h'" "handlers_inv ns ks h" "inj ns" "inj ks"
  shows "handlers_inv ns ks h'"
  using assms by induction (auto intro: handler_step_inv)

section \<open>The sequential handlers are runs of steps\<close>

lemma run_one: "handler_step ns ks h h' \<Longrightarrow> handlers_run ns ks h h'"
  by (blast intro: handlers_run.none handlers_run.more)

lemma handlers_run_trans: "handlers_run ns ks h' h'' \<Longrightarrow> handlers_run ns ks h h' \<Longrightarrow> handlers_run ns ks h h''"
  by (induction rule: handlers_run.induct) (auto intro: handlers_run.more)

lemma initSync_cases:
  assumes "newNonce rnd = Inr n" "newBoxKey generated = Inr k"
  shows "case initSync create rnd generated r s of
      Returned (s', w) \<Rightarrow> s' = s \<and> wk_ephemeralKeys s \<noteq> None
        \<or> idle s \<and> s' = \<lparr>wk_ephemeralKeys = Some k, wk_nonce = Some n\<rparr>
    | Blocks (s', w) \<Rightarrow> s' = s \<and> wk_ephemeralKeys s = None \<and> wk_nonce s \<noteq> None
    | _ \<Rightarrow> False"
  by (cases "wk_ephemeralKeys s"; cases "wk_nonce s")
    (auto simp: initSync_def assms Let_def idle_def split: sum.splits prod.splits)

lemma init_run:
  assumes "ha_init h i = Arrived" "idle (ha_worker h)" "pc \<in> {Answered, Failed}"
  shows "handlers_run ns ks h (h\<lparr>ha_worker := \<lparr>wk_ephemeralKeys = Some (ks i), wk_nonce = Some (ns i)\<rparr>,
    ha_init := (ha_init h)(i := pc)\<rparr>)"
proof -
  let ?w = "ha_worker h"
  let ?h1 = "h\<lparr>ha_init := (ha_init h)(i := Checked)\<rparr>"
  let ?h2 = "?h1\<lparr>ha_worker := ?w\<lparr>wk_nonce := Some (ns i)\<rparr>, ha_init := (ha_init h)(i := NonceSent)\<rparr>"
  let ?h3 = "?h2\<lparr>ha_worker := ?w\<lparr>wk_nonce := Some (ns i), wk_ephemeralKeys := Some (ks i)\<rparr>,
    ha_init := (ha_init h)(i := KeySent)\<rparr>"
  have w: "wk_ephemeralKeys ?w = None" "wk_nonce ?w = None" using assms(2) by (simp_all add: idle_def)
  have s1: "handler_step ns ks h ?h1" using handler_step.check [OF assms(1)] w by simp
  have s2: "handler_step ns ks ?h1 ?h2" using handler_step.send_nonce [of ?h1 i ns] w by simp
  have s3: "handler_step ns ks ?h2 ?h3" using handler_step.send_key [of ?h2 i ks] w by simp
  have s4: "handler_step ns ks ?h3 (?h3\<lparr>ha_init := (ha_init h)(i := pc)\<rparr>)"
    using handler_step.answer [of ?h3 i] handler_step.fail [of ?h3 i] assms(3) by auto
  have "handlers_run ns ks h (?h3\<lparr>ha_init := (ha_init h)(i := pc)\<rparr>)"
    by (rule handlers_run.more [OF handlers_run.more [OF handlers_run.more [OF run_one [OF s1] s2] s3] s4])
  moreover have "?w\<lparr>wk_nonce := x, wk_ephemeralKeys := y\<rparr> = \<lparr>wk_ephemeralKeys = y, wk_nonce = x\<rparr>" for x y
    by simp
  ultimately show ?thesis by simp
qed

text \<open>The auxiliary information in a worker's answer.\<close>

definition answer_aux :: "request \<Rightarrow> nonce \<Rightarrow> boxKey \<Rightarrow> auxInfo" where
  "answer_aux r n k =
     WorkerAux \<lparr>wa_WorkersNonce = n,
       wa_LeadersNonce = (case getNonceFromReq r of Inl e \<Rightarrow> zero_nonce | Inr l \<Rightarrow> l),
       wa_PublicKey = Some (bk_pubKey k)\<rparr>"

lemma initSync_is_run:
  assumes "newNonce rnd = Inr (ns i)" "newBoxKey generated = Inr (ks i)" "ha_init h i = Arrived"
  shows "\<exists>pc. handlers_run ns ks h (h\<lparr>ha_worker := fst (reached (initSync create rnd generated r (ha_worker h))),
      ha_init := (ha_init h)(i := pc)\<rparr>)
    \<and> (pc = Answered \<longleftrightarrow> idle (ha_worker h) \<and> is_ok (create (answer_aux r (ns i) (ks i))))"
proof (cases "initSync create rnd generated r (ha_worker h)")
  case (Returned p)
  then consider "fst p = ha_worker h" "wk_ephemeralKeys (ha_worker h) \<noteq> None"
    | "idle (ha_worker h)" "fst p = \<lparr>wk_ephemeralKeys = Some (ks i), wk_nonce = Some (ns i)\<rparr>"
    using initSync_cases [OF assms(1,2), where create = create and r = r and s = "ha_worker h"]
    by (auto split: prod.splits)
  then show ?thesis
  proof cases
    case 1
    with Returned run_one [OF handler_step.busy [OF assms(3)], of ns ks] show ?thesis
      by (auto simp: idle_def intro!: exI [where x = Refused])
  next
    case 2
    let ?pc = "if is_ok (create (answer_aux r (ns i) (ks i))) then Answered else Failed"
    show ?thesis using Returned 2 init_run [OF assms(3) 2(1), of ?pc ns ks] 
      by (intro exI [where x = ?pc]) (simp split: if_splits)
  qed
next
  case (Blocks p)
  then have "fst p = ha_worker h" "wk_ephemeralKeys (ha_worker h) = None" "wk_nonce (ha_worker h) \<noteq> None"
    using initSync_cases [OF assms(1,2), where create = create and r = r and s = "ha_worker h"]
    by (auto split: prod.splits)
  with Blocks run_one [OF handler_step.check [OF assms(3)], of ns ks] show ?thesis
    by (auto simp: idle_def intro!: exI [where x = Checked])
qed (use initSync_cases [OF assms(1,2), where create = create and r = r and s = "ha_worker h"] in auto)

text \<open>
  The same for \<^verbatim>\<open>finishSync\<close>, which installs keys only after it received a key.
\<close>

lemma finish_accept:
  assumes "ha_finish h f = Waiting" "wk_nonce (ha_worker h) = Some (ns i)" "ha_init h i = Answered"
  shows "handler_step ns ks h (h\<lparr>ha_worker := (ha_worker h)\<lparr>wk_nonce := None\<rparr>,
    ha_finish := (ha_finish h)(f := Accepted i)\<rparr>)"
  by (rule handler_step.accept) (simp_all add: assms)

lemma finishSync_cases:
  "case reached (finishSync verify box inst r (s, e)) of
     ((s', e'), w) \<Rightarrow>
       (s' = s \<and> e' = e)
     \<or> (\<exists>n. wk_nonce s = Some n \<and> s' = s\<lparr>wk_nonce := None\<rparr> \<and> e' = e)
     \<or> (\<exists>n k doc aux. wk_nonce s = Some n \<and> wk_ephemeralKeys s = Some k \<and> verify doc n = Inr aux
          \<and> s' = s\<lparr>wk_nonce := None, wk_ephemeralKeys := None\<rparr>)"
  by (cases "wk_nonce s"; cases "wk_ephemeralKeys s")
    (auto simp: finishSync_def Let_def split: prod.splits sum.splits option.splits auxInfo.splits)

lemma finishSync_is_run:
  assumes "ha_finish h f = Waiting"
    and "\<And>doc n aux. verify doc n = Inr aux \<Longrightarrow> \<exists>i. n = ns i \<and> ha_init h i = Answered"
  shows "\<exists>st. handlers_run ns ks h
      (h\<lparr>ha_worker := fst (fst (reached (finishSync verify box inst r (ha_worker h, e)))),
         ha_finish := (ha_finish h)(f := st)\<rparr>)
    \<and> (snd (fst (reached (finishSync verify box inst r (ha_worker h, e)))) \<noteq> e \<longrightarrow> (\<exists>i k. st = Opened i k))"
proof -
  let ?w = "ha_worker h"
  obtain s' e' w where out: "reached (finishSync verify box inst r (?w, e)) = ((s', e'), w)"
    by (metis prod.exhaust)
  have same: "h\<lparr>ha_worker := ?w, ha_finish := (ha_finish h)(f := Waiting)\<rparr> = h"
    using assms(1) by (simp add: fun_upd_idem)
  consider "s' = ?w" "e' = e" | n where "wk_nonce ?w = Some n" "s' = ?w\<lparr>wk_nonce := None\<rparr>" "e' = e"
    | i k where "wk_nonce ?w = Some (ns i)" "wk_ephemeralKeys ?w = Some k" "ha_init h i = Answered"
        "s' = ?w\<lparr>wk_nonce := None, wk_ephemeralKeys := None\<rparr>"
    using finishSync_cases [where verify = verify and box = box and inst = inst and r = r and s = ?w and e = e] assms(2) unfolding out by auto blast
  then show ?thesis
  proof cases
    case 1
    then show ?thesis using handlers_run.none [of ns ks h] same out by (intro exI [where x = Waiting]) simp
  next
    case (2 n)
    have "handler_step ns ks h (h\<lparr>ha_worker := s', ha_finish := (ha_finish h)(f := Rejected)\<rparr>)"
      using handler_step.reject [OF assms(1), of n None ns ks] 2 by simp
    then show ?thesis using 2(3) out run_one by (intro exI [where x = Rejected]) simp
  next
    case (3 i k)
    let ?h1 = "h\<lparr>ha_worker := ?w\<lparr>wk_nonce := None\<rparr>, ha_finish := (ha_finish h)(f := Accepted i)\<rparr>"
    have "handler_step ns ks ?h1 (h\<lparr>ha_worker := s', ha_finish := (ha_finish h)(f := Opened i k)\<rparr>)"
      using handler_step.take_key [of ?h1 f i k None ns ks] 3 by simp
    with run_one [OF finish_accept [where ns = ns and ks = ks, OF assms(1) 3(1,3)]] out show ?thesis
      by (intro exI [where x = "Opened i k"]) (auto intro: handlers_run.more)
  qed
qed

section \<open>Properties\<close>

text \<open>C9: However many requests a worker handles at the same time and however they interleave, a handler
  whose document was accepted for the nonce of some earlier answer finds the ephemeral key of that same
  answer, and no other, in the channel: it does not wait for it, and the key it opens the
  ciphertext with belongs to the nonce. No two handlers are in that position at once.\<close>

theorem interleaved_keys_match:
  assumes "idle s" "inj ns" "inj ks" "handlers_run ns ks (no_handlers s) h"
  shows "(ha_finish h f = Opened i k \<longrightarrow> k = ks i)
    \<and> (ha_finish h f = Accepted i \<longrightarrow> chan_recv (wk_ephemeralKeys (ha_worker h)) = Some (ks i, None))
    \<and> (ha_finish h f = Accepted i \<longrightarrow> ha_finish h g = Accepted j \<longrightarrow> f = g)"
proof -
  have inv: "handlers_inv ns ks h"
    using handlers_run_inv [OF assms(4) handlers_inv_start [OF assms(1)] assms(2,3)] .
  have "f = g" if "ha_finish h f = Accepted i" "ha_finish h g = Accepted j"
    using handlers_invD(5) [OF inv that(1)] handlers_invD(5) [OF inv that(2)] that handlers_invD(7) [OF inv, of f i g]
      inj_eq [OF assms(3), of i j] by simp
  with handlers_invD(5,8) [OF inv] show ?thesis by (auto simp: chan_recv_Some)
qed

theorem interleaved_keys_match_witness:
  "let ns = (\<lambda>i. replicate 20 (0 :: byte) @ replicate i 0); k = (\<lambda>i. \<lparr>bk_pubKey = replicate i 0, bk_privKey = []\<rparr>);
       h = \<lparr>ha_worker = \<lparr>wk_ephemeralKeys = Some (k 3), wk_nonce = None\<rparr>,
            ha_init = (\<lambda>_. Arrived)(3 := Answered, 4 := Checked), ha_finish = (\<lambda>_. Waiting)(7 := Accepted 3)\<rparr> in
   handlers_run ns k (no_handlers asWorker) h
   \<and> chan_recv (wk_ephemeralKeys (ha_worker h)) = Some (k 3, None)"
proof -
  let ?ns = "\<lambda>i. replicate 20 (0 :: byte) @ replicate i 0" and ?k = "\<lambda>i. \<lparr>bk_pubKey = replicate i (0 :: byte), bk_privKey = []\<rparr>"
  let ?w = "\<lparr>wk_ephemeralKeys = Some (?k 3), wk_nonce = None\<rparr>"
  let ?a = "no_handlers asWorker" and ?b = "no_handlers asWorker\<lparr>ha_init := (\<lambda>_. Arrived)(4 := Checked)\<rparr>"
  let ?c = "?b\<lparr>ha_worker := \<lparr>wk_ephemeralKeys = Some (?k 3), wk_nonce = Some (?ns 3)\<rparr>,
    ha_init := (\<lambda>_. Arrived)(4 := Checked, 3 := Answered)\<rparr>"
  let ?h = "\<lparr>ha_worker = ?w, ha_init = (\<lambda>_. Arrived)(4 := Checked, 3 := Answered), ha_finish = (\<lambda>_. Waiting)(7 := Accepted 3)\<rparr>"
  note defs = no_handlers_def asWorker_def idle_def
  have s1: "handler_step ?ns ?k ?a ?b" using handler_step.check [of ?a 4 ?ns ?k] by (simp add: defs)
  have s2: "handlers_run ?ns ?k ?b ?c" using init_run [of ?b 3 Answered ?ns ?k] by (simp add: defs)
  have s3: "handler_step ?ns ?k ?c ?h"
    using finish_accept [of ?c 7 ?ns 3 ?k] by (simp add: defs)
  have run: "handlers_run ?ns ?k ?a ?h"
    by (rule handlers_run.more [OF handlers_run_trans [OF s2 run_one [OF s1]] s3])
  have inj: "inj ?ns" "inj ?k" by (auto intro!: injI dest: arg_cong [where f = length])
  have "idle asWorker" by (simp add: defs)
  from run interleaved_keys_match [OF this inj run, of 7 3] show ?thesis
    by (simp add: fun_upd_twist [of 4 3])
qed

end
