(* ===== verification/Spec2Isabelle.thy ===== *)
theory Spec2Isabelle
  imports Doubles Election Rendezvous Application Lifecycle Interleaving
begin

text \<open>
  \<^bold>\<open>A verification of nitriding-daemon.\<close> The daemon (src/*.go) runs inside an AWS Nitro enclave next to
  an application. It carries the enclave's network traffic over a VSOCK connection to the host,
  terminates TLS, hands out attestation documents that bind the TLS certificate and a hash the
  application registers, and, if a leader is configured, designates a leader among several enclaves
  and replicates key material from the leader to the workers.

  \<^bold>\<open>Parts and theories.\<close> Each theory opens with a description of what it holds; every definition keeps
  the name of the Go function it models where the name is free, with a prefix for methods
  (\<open>certCache_Get\<close> for \<^verbatim>\<open>(*certCache).Get\<close>).

  \<^item> Prelude: errors (\<open>go_error\<close>, one constructor for each sentinel error of the code), results
    (\<open>'a res\<close>), the four ways in which a call can end (\<open>outcome\<close>: it returns, blocks for ever, panics,
    or ends the process, each with the state reached), buffered channels of one element, bytes.
  \<^item> Go_Text, Go_Json, Sha256, Readers, Http: what the code uses of Go's standard library:
    hexadecimal and Base64, query strings, host and port, JSON with the decoder's field matching, its
    depth limit and its partial results on errors, SHA-256, readers that deliver chunks and errors,
    \<^verbatim>\<open>io.ReadAll\<close> and \<^verbatim>\<open>io.ReadFull\<close>, response writers. Readers also has \<^verbatim>\<open>limitReader\<close> of
    src/system.go.
  \<^item> Nonce (src/nonce.go, src/util.go), Keys (src/enclave_keys.go), Attestation (src/attestation.go,
    src/attester.go), Workers and Rendezvous (src/workers.go), Caches (src/cache.go, src/certcache.go,
    src/bufferpool.go), Metrics (src/metrics.go), Framing (\<^verbatim>\<open>rx\<close> and \<^verbatim>\<open>tx\<close> of src/proxy.go), Sys (the
    rest of src/proxy.go, src/system.go, src/system_linux.go): the components without other parts of
    the daemon.
  \<^item> Sync (src/sync_shared.go, src/sync_leader.go, src/sync_worker.go): the protocol in which the leader
    fetches a worker's attested public key and sends back its keys, encrypted and attested.
    Interleaving: any number of concurrent requests to a worker, cut at their channel operations.
  \<^item> Config (src/enclave.go, src/main.go), Handlers (src/handlers.go), Enclave (src/enclave.go,
    src/util.go): configuration and flags, the HTTP API, and the enclave that puts everything together;
    \<^verbatim>\<open>Start\<close> composes certificate, servers, designation, hostname and registration as the code does.
  \<^item> Application (src/main.go): the process around it. Lifecycle: requests on their way through the
    metrics' middleware to the handler behind a route, and all operations on one enclave as a labelled
    step relation. Election: several enclaves that designate a leader, and may be stopped meanwhile; what
    others send to them is a parameter. Doubles: stand-ins for hardware and
    cryptography, with which hypotheses about them are shown to be satisfiable.
  \<^item> This theory: the properties that span components.

  \<^bold>\<open>State and effects.\<close> Structs are records, state is passed explicitly, and each handler maps the part of
  the state it works on to the new state and the response. Goroutines that a handler starts are part of
  its result; what a \<^verbatim>\<open>select\<close> receives is a list of events or a nondeterministic step. The worker
  manager's unbuffered channels are calls that are taken if its loop runs and otherwise block. The
  operating system decides from the history of operations whether the next one fails. The Nitro
  security module, the nitrite package, NaCl's box, X.509, random bytes, clocks, the metadata service and
  the network are arguments; what is assumed of them is stated in named hypotheses (\<open>issues\<close> for
  documents verified when they are created and at a given time, \<open>attests\<close> within the module's size limits, \<open>opens_sealed\<close>, \<open>faithful_delivery\<close>, \<open>reports_status\<close>), each satisfied by a stand-in.

  \<^bold>\<open>Interfaces.\<close> Locales state the contracts between parts, with interpretations on the code's own
  definitions: \<open>json_codec\<close> (encoding and decoding; for keys, message bodies and heartbeats),
  \<open>attester\<close> (the Go interface; for the dummy attester, and for the Nitro attester under the hypotheses
  above), \<open>key_sync\<close> (two attesters that accept each other; the protocol is verified once inside it),
  \<open>worker_registry\<close> (the worker set) and \<open>autocert_cache\<close> (the certificate cache).

  \<^bold>\<open>What is shown.\<close>
  \<^item> Key synchronization: an honest run succeeds and installs exactly the leader's keys; success reported
    by the leader is real; nothing but attested, fresh and correctly encrypted keys is ever installed;
    application state written on the leader is what is read on the worker; nonces and keys of concurrent
    requests are never mixed up. Three ways to lose the
    protocol are proved too: state of 12 KiB or more, a rejected document, and a client's document
    presented as a worker's.
  \<^item> Attestation: documents verify for exactly their nonce and registers and carry both hashes; the
    comparison of registers is characterised, with the case in which it is weaker than its comment says.
  \<^item> Roles: at most one leader, as long as nobody sends an enclave its own nonce except the one behind the
    leader's name; progress of the designation; a successful start settles the role.
  \<^item> Life cycle: metrics and registered hash follow from the requests answered in a run; confidential
    endpoints are never public; no handler waits for ever for the worker manager before a stop.
  \<^item> Workers: the event loop refines a map; re-synchronization of a fleet of workers ends and keeps exactly
    the workers that installed the leader's keys;
    heartbeats end to end, and that they make a worker converge to the leader's keys; the channel protocol of \<^verbatim>\<open>length\<close>, with its race.
  \<^item> Networking: frames survive the tunnel in any chunks; set-up leaks nothing whichever call fails, and
    the retry loop returns right after the first attempt that succeeds, and never otherwise.
  \<^item> Process: for each way in which \<^verbatim>\<open>main\<close> can end, what must have happened before.
  \<^item> Data: limits on reads are exact and sound, round trips of nonces, keys and documents, sizes of
    heartbeats, ports without wrap-around, certificate fingerprints, caches, metrics, output forwarding.

  \<^bold>\<open>Termination and fuel.\<close> Loops over readers terminate because a reader is a finite script of chunks and
  each round consumes a part of it; \<open>seed_loop\<close> because every round adds a byte. \<open>runNetworking\<close> may run
  for ever, so it has fuel, and the theorem says exactly for which fuel it returns. The JSON parser has
  fuel, and \<open>json_fuel_enough\<close> shows that twice the length of the input always suffices. Loops
  that wait for events (\<open>wm_loop\<close>, \<open>leader_loop\<close>, \<open>register_loop\<close>, \<open>workerHeartbeat\<close>) consume the list of
  events and block at its end.

  \<^bold>\<open>Not modelled.\<close> The text that \<^verbatim>\<open>Config.String\<close> makes (an argument of \<open>configHandler\<close>), logging, the
  options of HTTP clients and servers, the dispatch of the chi router, TLS and the ACME client, the
  Prometheus library and its collectors, the stubs of src/system_darwin.go, and the entropy count that
  \<^verbatim>\<open>maybeSeedEntropy\<close> updates. Locks are not represented: an operation under a lock is one step.
  Handlers run as a whole, in any order, except where the code shares channels: the worker's two handlers
  (Interleaving) and \<^verbatim>\<open>length\<close> (Rendezvous) are also verified step by step under every interleaving.
  The goroutines of a re-synchronization run one after the other, in any order: each talks to a worker of
  its own, and they share only the worker manager, which serves one request at a time.
\<close>

section \<open>Compositions\<close>

text \<open>
  A worker's heartbeat that reaches the leader's handler: the client of \<^verbatim>\<open>workerHeartbeat\<close> whose
  requests are served by \<^verbatim>\<open>heartbeatHandler\<close>.
\<close>

definition leader_post ::
    "(bytes \<Rightarrow> reader) \<Rightarrow> 16 word \<Rightarrow> enclaveKeys \<Rightarrow> int \<Rightarrow> url \<Rightarrow> bytes
     \<Rightarrow> workerManager \<times> goroutine list \<Rightarrow> (workerManager \<times> goroutine list) \<times> nat res" where
  "leader_post deliver port keys now u body wg =
     (case heartbeatHandler port keys now \<lparr>rq_Method = ''POST'', rq_URL = u, rq_Body = deliver body\<rparr> (fst wg) of
        Returned ((w', gs), resp) \<Rightarrow> ((w', snd wg @ gs), Inr (rs_status resp))
      | out \<Rightarrow> ((fst (fst (reached out)), snd wg), Inl (ErrExt ''timeout'')))"

text \<open>The installer of a worker whose hostname is known.\<close>

definition install :: "'c pki \<Rightarrow> string \<Rightarrow> 'c enclave installer" where
  "install pki host keys e = reached (setupWorkerPostSync pki (Returned host) keys e)"

section \<open>Properties of key synchronization\<close>

text \<open>C1: A complete key synchronization between two Nitro enclaves with the same registers succeeds: the
  leader's call returns no error, the worker has installed exactly the leader's keys, and its handler
  is ready for the next synchronization. The messages have to fit the limit that both sides
  apply, and may arrive in any chunks.\<close>

theorem nitro_sync_succeeds:
  assumes "issues t leader verify regs" "attests leader" "issues t' worker verify regs'" "attests worker"
    and "arePCRsIdentical regs regs'" "arePCRsIdentical regs' regs"
    and "faithful_delivery deliver" "idle s"
    and "newNonce rnd = Inr ln" "newNonce (fr_rand fr) = Inr wn"
    and "fr_boxKey fr = Inr (pub, priv)" "length pub = 32" "opens_sealed box pub priv"
    and "nitro_createAttstn worker (WorkerAux \<lparr>wa_WorkersNonce = wn, wa_LeadersNonce = ln,
           wa_PublicKey = Some pub\<rparr>) = Inr wdoc"
    and "b64_EncodedLen (length wdoc) + 36 \<le> maxReadLen"
    and "box_SealAnonymous box (keys_Marshal keys) pub = Inr encrypted"
    and "nitro_createAttstn leader (LeaderAux \<lparr>la_WorkersNonce = wn,
           la_HashOfEncrypted = Some (sha256_Sum256 encrypted)\<rparr>) = Inr ldoc"
    and "fits ldoc encrypted" "inst keys e = (e', None)"
  shows "run_sync (nitro_createAttstn worker) (nitro_verifyAttstn worker verify t)
      (nitro_createAttstn leader) (nitro_verifyAttstn leader verify t')
      box render deliver inst fr rnd keys u (s, e) = Returned ((asWorker, e'), None)"
proof -
  note sync = nitro_key_sync [OF assms(1-6)]
  have "length pub = boxKeyLen" using assms(12) by (simp add: boxKeyLen_def)
  from key_sync.run_honest [OF sync assms(7-11) this assms(13-18), where inst = inst and e = e]
  show ?thesis using assms(19) by simp
qed

theorem nitro_sync_succeeds_witness:
  "run_sync (nitro_createAttstn sim_nsm) (nitro_verifyAttstn sim_nsm (sim_nitrite []) 0)
     (nitro_createAttstn sim_nsm) (nitro_verifyAttstn sim_nsm (sim_nitrite []) 0)
     sim_box (\<lambda>_. []) bytes_reader (\<lambda>k e. (e @ [k], None)) sim_fresh (sim_rand 1) (sim_keys [1, 2, 3])
     (getSyncURL ''worker'' 444) (asWorker, []) = Returned ((asWorker, [sim_keys [1, 2, 3]]), None)"
proof -
  have "b64_EncodedLen 154 + 36 \<le> maxReadLen" by (simp add: maxReadLen_value b64_EncodedLen_def)
  then show ?thesis
    using nitro_sync_succeeds [OF sim_issues sim_attests sim_issues sim_attests _ _
        faithful_delivery_bytes_reader idle_asWorker sim_newNonce [of 1], where fr = sim_fresh
        and wn = "replicate 20 2" and pub = "replicate 32 3" and priv = "replicate 32 4"
        and box = sim_box and keys = "sim_keys [1, 2, 3]" and regs = "[]"
        and encrypted = "replicate 32 3 @ keys_Marshal (sim_keys [1, 2, 3])" and t = 0 and t' = 0
        and inst = "\<lambda>k e. (e @ [k], None)" and e = "[]"]
    by (simp add: sim_fresh_def sim_newNonce sim_opens sim_create sim_sealed sim_fits length_sim_worker
        arePCRsIdentical_def)
qed

text \<open>C2: A synchronization that the leader reports as successful did happen: the worker was idle before,
  and what it installed are exactly the leader's keys, for every behaviour of randomness, of the
  security modules and of the chunks on the wire.\<close>

theorem nitro_sync_success_is_real:
  assumes "issues t leader verify regs" "attests leader" "issues t' worker verify regs'" "attests worker"
    and "arePCRsIdentical regs regs'" "arePCRsIdentical regs' regs" "faithful_delivery deliver"
    and "\<And>pub priv. fr_boxKey fr = Inr (pub, priv) \<Longrightarrow> length pub = 32 \<and> opens_sealed box pub priv"
    and "run_sync (nitro_createAttstn worker) (nitro_verifyAttstn worker verify t)
      (nitro_createAttstn leader) (nitro_verifyAttstn leader verify t')
      box render deliver inst fr rnd keys u (s, e) = Returned ((s', e'), None)"
  shows "idle s \<and> s' = asWorker \<and> inst keys e = (e', None)"
  using key_sync.run_success [OF nitro_key_sync [OF assms(1-6)] assms(7) _ assms(9)] assms(8)
  by (simp add: boxKeyLen_def)

theorem nitro_sync_success_is_real_witness:
  "\<exists>e'. run_sync (nitro_createAttstn sim_nsm) (nitro_verifyAttstn sim_nsm (sim_nitrite []) 0)
      (nitro_createAttstn sim_nsm) (nitro_verifyAttstn sim_nsm (sim_nitrite []) 0)
      sim_box (\<lambda>_. []) bytes_reader (\<lambda>k e. (e @ [k], None)) sim_fresh (sim_rand 1) (sim_keys [5])
      (getSyncURL ''worker'' 444) (asWorker, []) = Returned ((asWorker, e'), None)
    \<and> ([] @ [sim_keys [5]], None :: go_error option) = (e', None)"
proof -
  have run: "run_sync (nitro_createAttstn sim_nsm) (nitro_verifyAttstn sim_nsm (sim_nitrite []) 0)
      (nitro_createAttstn sim_nsm) (nitro_verifyAttstn sim_nsm (sim_nitrite []) 0)
      sim_box (\<lambda>_. []) bytes_reader (\<lambda>k e. (e @ [k], None)) sim_fresh (sim_rand 1) (sim_keys [5])
      (getSyncURL ''worker'' 444) (asWorker, []) = Returned ((asWorker, [sim_keys [5]]), None)"
    by (rule sim_run) simp_all
  from nitro_sync_success_is_real [OF sim_issues sim_attests sim_issues sim_attests _ _
      faithful_delivery_bytes_reader _ run] run
  show ?thesis by (simp add: arePCRsIdentical_def sim_fresh_def sim_opens)
qed

text \<open>C3: No request can make a worker install keys unless the request carries an attestation document
  that verifies for the nonce this worker handed out and contains the hash of the ciphertext, and the
  ciphertext opens with the worker's ephemeral key; nonce and key are used up by that.\<close>

theorem only_attested_keys_installed:
  assumes "snd (fst (reached (finishSync verify box inst r (s, e)))) \<noteq> e"
  shows "\<exists>body n doc leaderAux encrypted k decrypted keys.
    io_ReadAll (newLimitReader (rq_Body r) maxReadLen) = (body, None)
    \<and> wk_nonce s = Some n \<and> wk_ephemeralKeys s = Some k
    \<and> b64_DecodeString (ab_Document (fst (attstnBody_Unmarshal body))) = Inr doc
    \<and> verify doc n = Inr (LeaderAux leaderAux)
    \<and> b64_DecodeString (ab_EncryptedKeys (fst (attstnBody_Unmarshal body))) = Inr encrypted
    \<and> slice_bytes (la_HashOfEncrypted leaderAux) = sha256_Sum256 encrypted
    \<and> box_OpenAnonymous box encrypted (bk_pubKey k) (bk_privKey k) = Some decrypted
    \<and> keys_Unmarshal decrypted = (keys, None)
    \<and> fst (reached (finishSync verify box inst r (s, e))) = (asWorker, fst (inst keys e))"
  using finishSync_installs [OF assms] unfolding asWorker_def .

text \<open>The second request of the run with the stand-ins, for the witness.\<close>

definition sim_pending :: workerSync where
  "sim_pending =
     \<lparr>wk_ephemeralKeys = Some \<lparr>bk_pubKey = replicate 32 3, bk_privKey = replicate 32 4\<rparr>,
      wk_nonce = Some (replicate 20 2)\<rparr>"

definition sim_post :: request where
  "sim_post =
     \<lparr>rq_Method = ''POST'', rq_URL = getSyncURL ''worker'' 444,
      rq_Body = bytes_reader (attstnBody_Marshal
        \<lparr>ab_Document = b64_EncodeToString (sim_encode (attestation_request (LeaderAux
            \<lparr>la_WorkersNonce = replicate 20 2,
             la_HashOfEncrypted = Some (sha256_Sum256 (replicate 32 3 @ keys_Marshal (sim_keys [1])))\<rparr>))),
         ab_EncryptedKeys = b64_EncodeToString (replicate 32 3 @ keys_Marshal (sim_keys [1]))\<rparr>)\<rparr>"

lemma sim_finish:
  "finishSync (nitro_verifyAttstn sim_nsm (sim_nitrite []) 0) sim_box (\<lambda>k e. (e @ [k], None)) sim_post
     (sim_pending, []) = Returned ((asWorker, [sim_keys [1]]), newResponse)"
  using key_sync.finish_honest [OF sim_key_sync [of 0 0] faithful_delivery_bytes_reader,
      where r = sim_post and keys = "sim_keys [1]" and encrypted = "replicate 32 3 @ keys_Marshal (sim_keys [1])"
      and wn = "replicate 20 2" and box = sim_box and pub = "replicate 32 3" and priv = "replicate 32 4"
      and inst = "\<lambda>k e. (e @ [k], None)" and e = "[]"]
    sim_opens [of "replicate 32 3" "replicate 32 4"] sim_sealed [of "sim_keys [1]" "replicate 32 3"]
  by (simp add: sim_pending_def sim_post_def sim_fits sim_create wf_nonce_def nonceLen_def opens_sealed_def)

theorem only_attested_keys_installed_witness:
  "\<exists>n leaderAux doc encrypted. wk_nonce sim_pending = Some n
    \<and> nitro_verifyAttstn sim_nsm (sim_nitrite []) 0 doc n = Inr (LeaderAux leaderAux)
    \<and> slice_bytes (la_HashOfEncrypted leaderAux) = sha256_Sum256 encrypted"
  using only_attested_keys_installed [of "nitro_verifyAttstn sim_nsm (sim_nitrite []) 0" sim_box
      "\<lambda>k e. (e @ [k], None)" sim_post sim_pending "[]"]
  unfolding sim_finish by auto

text \<open>C4: A document that an enclave with the right registers issued proves exactly what it should: it
  verifies for the nonce it was requested with and for no other, gives back the auxiliary
  information, and is refused when the registers differ.\<close>

theorem nitro_documents_fresh:
  assumes "issues t0 our verify ourRegs" "attests our" "issues t their verify theirRegs"
    and "nitro_createAttstn their (WorkerAux w) = Inr doc" "wf_worker w"
    and "nitro_createAttstn their (LeaderAux l) = Inr doc'" "wf_leader l"
  shows "nitro_verifyAttstn our verify t doc n =
      (if \<not> arePCRsIdentical ourRegs theirRegs then Inl ErrPCRMismatch
       else if n \<noteq> wa_LeadersNonce w then Inl ErrNonceMismatch else Inr (WorkerAux w))
    \<and> nitro_verifyAttstn our verify t doc' n =
      (if \<not> arePCRsIdentical ourRegs theirRegs then Inl ErrPCRMismatch
       else if n \<noteq> la_WorkersNonce l then Inl ErrNonceMismatch else Inr (LeaderAux l))"
  using nitro_verify_issued [OF assms(1-4)] nitro_verify_issued [OF assms(1-3,6)] assms(5,7) padding_length
  by (auto simp: attestation_request_def wf_worker_def wf_leader_def Let_def slice_bytes_def)

theorem nitro_documents_fresh_witness:
  "nitro_verifyAttstn sim_nsm (sim_nitrite [(0, [1])]) 9
     (sim_encode (attestation_request (WorkerAux \<lparr>wa_WorkersNonce = replicate 20 1,
        wa_LeadersNonce = replicate 20 2, wa_PublicKey = Some (replicate 32 3)\<rparr>))) (replicate 20 1) =
   Inl ErrNonceMismatch"
  using nitro_documents_fresh [OF sim_issues sim_attests sim_issues sim_create _ sim_create,
      of "\<lparr>wa_WorkersNonce = replicate 20 1, wa_LeadersNonce = replicate 20 2,
           wa_PublicKey = Some (replicate 32 3)\<rparr>"
        "\<lparr>la_WorkersNonce = replicate 20 1, la_HashOfEncrypted = Some (replicate 32 3)\<rparr>" "[(0, [1])]" 9
        "replicate 20 1"]
  by (simp add: wf_worker_def wf_leader_def wf_nonce_def nonceLen_def arePCRsIdentical_def)

text \<open>C22: Application state of 12288 bytes or more is never synchronized, although the leader accepts up to
  1 MiB of it with status 200: the worker refuses the message that carries it as too long, the leader
  reports status 500, and the worker is left waiting, so that every later synchronization, with
  whatever keys, nonces and randomness, is turned away with status 429 and changes nothing.\<close>

theorem big_state_jams_sync:
  assumes "issues t leader verify regs" "attests leader" "issues t' worker verify regs'" "attests worker"
    and "arePCRsIdentical regs regs'" "arePCRsIdentical regs' regs"
    and "faithful_delivery deliver" "idle s"
    and "newNonce rnd = Inr ln" "newNonce (fr_rand fr) = Inr wn"
    and "fr_boxKey fr = Inr (pub, priv)" "length pub = 32"
    and "nitro_createAttstn worker (WorkerAux \<lparr>wa_WorkersNonce = wn, wa_LeadersNonce = ln,
           wa_PublicKey = Some pub\<rparr>) = Inr wdoc"
    and "b64_EncodedLen (length wdoc) + 36 \<le> maxReadLen"
    and "box_SealAnonymous box (keys_Marshal keys) pub = Inr encrypted"
    and "length (keys_Marshal keys) \<le> length encrypted"
    and "nitro_createAttstn leader (LeaderAux \<lparr>la_WorkersNonce = wn,
           la_HashOfEncrypted = Some (sha256_Sum256 encrypted)\<rparr>) = Inr ldoc"
    and "keys = keys0\<lparr>AppKeys := Some app\<rparr>" "12288 \<le> length app" "length app \<le> 1024 * 1024"
    and "rq_Body r = deliver app" "wm_running workers"
  shows "putStateHandler isLeader r (keys0, workers) =
      Returned ((keys, workers, [ForAllResync]), w_WriteHeader StatusOK newResponse)
    \<and> (\<exists>s'. run_sync (nitro_createAttstn worker) (nitro_verifyAttstn worker verify t)
          (nitro_createAttstn leader) (nitro_verifyAttstn leader verify t')
          box render deliver inst fr rnd keys u (s, e) = Returned ((s', e), Some (ErrNo200 500))
        \<and> (\<forall>fr' keys' rnd' ln'. newNonce rnd' = Inr ln' \<longrightarrow>
            run_sync (nitro_createAttstn worker) (nitro_verifyAttstn worker verify t)
              (nitro_createAttstn leader) (nitro_verifyAttstn leader verify t')
              box render deliver inst fr' rnd' keys' u (s', e) = Returned ((s', e), Some (ErrNo200 429))))"
proof
  show "putStateHandler isLeader r (keys0, workers) =
      Returned ((keys, workers, [ForAllResync]), w_WriteHeader StatusOK newResponse)"
    using assms(18,20-22)
    by (simp add: putStateHandler_def ReadAll_delivered [OF assms(7)] maxKeyMaterialLen_def setAppKeys_def)
next
  note sync = nitro_key_sync [OF assms(1-6)]
  have "length pub = boxKeyLen" using assms(12) by (simp add: boxKeyLen_def)
  moreover have "AppKeys keys = Some app" using assms(18) by simp
  ultimately show "\<exists>s'. run_sync (nitro_createAttstn worker) (nitro_verifyAttstn worker verify t)
          (nitro_createAttstn leader) (nitro_verifyAttstn leader verify t')
          box render deliver inst fr rnd keys u (s, e) = Returned ((s', e), Some (ErrNo200 500))
        \<and> (\<forall>fr' keys' rnd' ln'. newNonce rnd' = Inr ln' \<longrightarrow>
            run_sync (nitro_createAttstn worker) (nitro_verifyAttstn worker verify t)
              (nitro_createAttstn leader) (nitro_verifyAttstn leader verify t')
              box render deliver inst fr' rnd' keys' u (s', e) = Returned ((s', e), Some (ErrNo200 429)))"
    using key_sync.run_too_long [OF sync assms(7-11) _ assms(13-15,17)
        big_keys_do_not_fit [OF _ assms(19,16)], where inst = inst and e = e]
    by (auto intro!: run_busy)
qed

theorem big_state_jams_sync_witness:
  "\<exists>s'. run_sync (nitro_createAttstn sim_nsm) (nitro_verifyAttstn sim_nsm (sim_nitrite []) 0)
      (nitro_createAttstn sim_nsm) (nitro_verifyAttstn sim_nsm (sim_nitrite []) 0)
      sim_box (\<lambda>_. []) bytes_reader (\<lambda>k e. (e @ [k], None)) sim_fresh (sim_rand 1)
      (sim_keys (replicate 12288 0)) (getSyncURL ''worker'' 444) (asWorker, []) =
    Returned ((s', []), Some (ErrNo200 500))
   \<and> run_sync (nitro_createAttstn sim_nsm) (nitro_verifyAttstn sim_nsm (sim_nitrite []) 0)
      (nitro_createAttstn sim_nsm) (nitro_verifyAttstn sim_nsm (sim_nitrite []) 0)
      sim_box (\<lambda>_. []) bytes_reader (\<lambda>k e. (e @ [k], None)) sim_fresh (sim_rand 9)
      (sim_keys [1]) (getSyncURL ''worker'' 444) (s', []) = Returned ((s', []), Some (ErrNo200 429))"
proof -
  let ?app = "replicate 12288 0 :: bytes" and ?keys = "sim_keys (replicate 12288 0)"
  let ?r = "\<lparr>rq_Method = ''PUT'', rq_URL = getSyncURL ''l'' 1, rq_Body = bytes_reader ?app\<rparr>"
  have pcrs: "arePCRsIdentical [] []" by (simp add: arePCRsIdentical_def)
  have fresh: "newNonce (fr_rand sim_fresh) = Inr (replicate 20 2)"
    "fr_boxKey sim_fresh = Inr (replicate 32 3, replicate 32 4)" "length (replicate 32 (3 :: byte)) = 32"
    by (simp_all add: sim_fresh_def sim_newNonce)
  have size: "b64_EncodedLen (length (sim_encode (attestation_request (WorkerAux
      \<lparr>wa_WorkersNonce = replicate 20 2, wa_LeadersNonce = replicate 20 1,
       wa_PublicKey = Some (replicate 32 3)\<rparr>)))) + 36 \<le> maxReadLen"
    by (simp add: length_sim_worker maxReadLen_value) (simp add: b64_EncodedLen_def)
  have longer: "length (keys_Marshal ?keys) \<le> length (replicate 32 3 @ keys_Marshal ?keys)" by simp
  have app: "?keys = (sim_keys [])\<lparr>AppKeys := Some ?app\<rparr>" "12288 \<le> length ?app" "length ?app \<le> 1024 * 1024"
    by (simp_all add: sim_keys_def)
  have put: "rq_Body ?r = bytes_reader ?app" "wm_running (wm_start (newWorkerManager minute))"
    by (simp_all add: wm_start_def)
  note jam = big_state_jams_sync [OF sim_issues sim_attests sim_issues sim_attests pcrs pcrs
      faithful_delivery_bytes_reader idle_asWorker sim_newNonce [of 1] fresh sim_create size sim_sealed longer
      sim_create app put, where inst = "\<lambda>k e. (e @ [k], None)" and e = "[]" and t = 0 and t' = 0
      and render = "\<lambda>_. []" and u = "getSyncURL ''worker'' 444", THEN conjunct2]
  then show ?thesis using sim_newNonce [of 9] by blast
qed

text \<open>C23: One request with a document that does not verify wedges a waiting worker for good: the request is
  answered with status 400 and uses up the nonce, but the ephemeral key stays in its channel. From then
  on every first request of a synchronization is answered with status 429, every leader's
  synchronization fails with that status, and no request of any kind changes the worker's state or
  installs keys, whatever it contains.\<close>

theorem rejected_document_wedges_worker:
  assumes "wk_nonce s = Some n" "wk_ephemeralKeys s = Some k"
    and "io_ReadAll (newLimitReader (rq_Body r) maxReadLen) = (body, None)"
    and "b64_DecodeString (ab_Document (fst (attstnBody_Unmarshal body))) = Inr doc"
    and "verify doc n = Inl err"
  shows "let s' = \<lparr>wk_ephemeralKeys = Some k, wk_nonce = None\<rparr> in
    (\<exists>w. finishSync verify box inst r (s, e) = Returned ((s', e), w) \<and> rs_status w = 400)
    \<and> (\<forall>create fr r'. rq_Method r' = ''GET'' \<longrightarrow>
        (\<exists>w. ServeHTTP create verify box inst fr r' (s', e) = Returned ((s', e), w) \<and> rs_status w = 429))
    \<and> (\<forall>create lcreate lverify render deliver fr rnd ln keys u. newNonce rnd = Inr ln \<longrightarrow>
        run_sync create verify lcreate lverify box render deliver inst fr rnd keys u (s', e) =
          Returned ((s', e), Some (ErrNo200 429)))
    \<and> (\<forall>create fr r'. fst (reached (ServeHTTP create verify box inst fr r' (s', e))) = (s', e))"
proof -
  let ?s = "\<lparr>wk_ephemeralKeys = Some k, wk_nonce = None\<rparr>"
  have s: "s\<lparr>wk_nonce := None\<rparr> = ?s" using assms(2) by (cases s) simp
  have fin: "\<exists>w. finishSync verify box inst r (s, e) = Returned ((?s, e), w) \<and> rs_status w = 400"
    using finishSync_rejects [where verify = verify and box = box and inst = inst and e = e, OF assms] s by auto
  have get: "\<exists>w. ServeHTTP create verify box inst fr r' (?s, e) = Returned ((?s, e), w) \<and> rs_status w = 429"
    if "rq_Method r' = ''GET''" for create fr r'
    using that by (simp add: ServeHTTP_def initSync_busy)
  have busy: "run_sync create verify lcreate lverify box render deliver inst fr rnd keys u (?s, e) =
      Returned ((?s, e), Some (ErrNo200 429))"
    if "newNonce rnd = Inr ln" for create lcreate lverify render deliver fr rnd ln keys u
    using that by (intro run_busy) simp_all
  have stays: "fst (reached (ServeHTTP create verify box inst fr r' (?s, e))) = (?s, e)" for create fr r'
    by (rule wedged_stays) (simp add: wedged_def)
  show ?thesis unfolding Let_def using fin get busy stays by blast
qed

theorem rejected_document_wedges_worker_witness:
  "let verify = (\<lambda>_ _. Inl ErrNonceMismatch); inst = (\<lambda>k e. (e @ [k], None));
       s' = \<lparr>wk_ephemeralKeys = Some \<lparr>bk_pubKey = replicate 32 3, bk_privKey = replicate 32 4\<rparr>, wk_nonce = None\<rparr> in
   (\<exists>w. finishSync verify sim_box inst
      \<lparr>rq_Method = ''POST'', rq_URL = getSyncURL ''w'' 444,
       rq_Body = bytes_reader (attstnBody_Marshal \<lparr>ab_Document = b64_EncodeToString [],
         ab_EncryptedKeys = b64_EncodeToString []\<rparr>)\<rparr> (sim_pending, []) = Returned ((s', []), w)
      \<and> rs_status w = 400)
   \<and> (\<exists>w. ServeHTTP dummy_createAttstn verify sim_box inst sim_fresh
        \<lparr>rq_Method = ''GET'', rq_URL = getSyncURL ''w'' 444, rq_Body = []\<rparr> (s', []) = Returned ((s', []), w)
      \<and> rs_status w = 429)"
proof -
  let ?m = "attstnBody_Marshal \<lparr>ab_Document = b64_EncodeToString [], ab_EncryptedKeys = b64_EncodeToString []\<rparr>"
  let ?r = "\<lparr>rq_Method = ''POST'', rq_URL = getSyncURL ''w'' 444, rq_Body = bytes_reader ?m\<rparr>"
  have body: "io_ReadAll (newLimitReader (rq_Body ?r) maxReadLen) = (?m, None)"
    using length_attstnBody(1) [of "[]" "[]"]
    by (simp add: ReadAll_delivered [OF faithful_delivery_bytes_reader] maxReadLen_value b64_EncodedLen_def)
  have doc: "b64_DecodeString (ab_Document (fst (attstnBody_Unmarshal ?m))) = Inr []"
    unfolding body_roundtrip(1) by (simp only: fst_conv attstnBody.simps b64_roundtrip)
  have pend: "wk_nonce sim_pending = Some (replicate 20 2)"
    "wk_ephemeralKeys sim_pending = Some \<lparr>bk_pubKey = replicate 32 3, bk_privKey = replicate 32 4\<rparr>"
    by (simp_all add: sim_pending_def)
  have get: "rq_Method \<lparr>rq_Method = ''GET'', rq_URL = getSyncURL ''w'' 444, rq_Body = []\<rparr> = ''GET''" by simp
  show ?thesis
    using rejected_document_wedges_worker [OF pend body doc, of "\<lambda>_ _. Inl ErrNonceMismatch" ErrNonceMismatch
        sim_box "\<lambda>k e. (e @ [k], None)" "[]"] get
    unfolding Let_def by blast
qed

text \<open>Workers that run in Nitro enclaves, each with its own security module, clock, keys and randomness.\<close>

definition nitro_fleet ::
    "nitrite \<Rightarrow> nacl \<Rightarrow> (url \<Rightarrow> nsm) \<Rightarrow> (url \<Rightarrow> nat) \<Rightarrow> (url \<Rightarrow> 'e installer) \<Rightarrow> (url \<Rightarrow> fresh)
     \<Rightarrow> url \<Rightarrow> request \<Rightarrow> workerSync \<times> 'e \<Rightarrow> ((workerSync \<times> 'e) \<times> response) outcome" where
  "nitro_fleet verify box worker t inst fr u =
     ServeHTTP (nitro_createAttstn (worker u)) (nitro_verifyAttstn (worker u) verify (t u)) box (inst u) (fr u)"

text \<open>C21: When the application's state changes, the leader synchronizes with every registered worker, in
  whatever order the goroutines get their turn, and comes to an end. A worker stays registered, with
  the time of its last heartbeat, exactly if its synchronization succeeded, and then it has
  installed exactly the leader's keys and is ready for the next synchronization; a worker that is busy,
  cannot be reached, or fails is unregistered. Nothing else in the world changes. Each worker keeps
  its own state, so that one synchronization does not affect the next, and the goroutines share only the worker
  manager, which takes their requests one at a time.\<close>

theorem resync_keeps_synced:
  assumes "\<And>u. issues (t u) leader verify regs" "attests leader"
    and "\<And>u. issues t' (worker u) verify (regs' u)" "\<And>u. attests (worker u)"
    and "\<And>u. arePCRsIdentical regs (regs' u)" "\<And>u. arePCRsIdentical (regs' u) regs"
    and "faithful_delivery deliver"
    and "\<And>u pub priv. fr_boxKey (fr u) = Inr (pub, priv) \<Longrightarrow> length pub = 32 \<and> opens_sealed box pub priv"
    and "wf_workers (wm_set w)" "wm_call ForAll w = Returned (w1, [Spawned spawned])"
    and "distinct us" "set us = set spawned" "\<And>u. u \<in> set us \<Longrightarrow> u_RawQuery u = []"
  shows "\<exists>w' x'. run_spawned (\<lambda>u. resync (nitro_createAttstn leader) (nitro_verifyAttstn leader verify t') box
        (fleet_client render deliver (nitro_fleet verify box worker t inst fr)) (rnd u) keys u) us (w1, x) = Returned (w', x')
    \<and> (\<forall>u\<in>set us. \<exists>err.
          syncWith (nitro_createAttstn leader) (nitro_verifyAttstn leader verify t') box
            (worker_client render deliver (nitro_fleet verify box worker t inst fr u)) (rnd u) keys u (x u) =
              Returned (x' u, err)
        \<and> map_of (wm_set w') u = (if err = None then map_of (wm_set w) u else None)
        \<and> (err = None \<longrightarrow> idle (fst (x u)) \<and> fst (x' u) = asWorker \<and> inst u keys (snd (x u)) = (snd (x' u), None)))
    \<and> (\<forall>u. u \<notin> set us \<longrightarrow> x' u = x u \<and> map_of (wm_set w') u = None)"
proof -
  define run where "run = (\<lambda>u. run_sync (nitro_createAttstn (worker u)) (nitro_verifyAttstn (worker u) verify (t u))
      (nitro_createAttstn leader) (nitro_verifyAttstn leader verify t') box render deliver (inst u) (fr u)
      (rnd u) keys u)"
  have run: "syncWith (nitro_createAttstn leader) (nitro_verifyAttstn leader verify t') box
      (worker_client render deliver (nitro_fleet verify box worker t inst fr u)) (rnd u) keys u = run u" for u
    by (simp add: fun_eq_iff run_def run_sync_def nitro_fleet_def)
  have w: "wm_running w" "w1 = w" "set us = set (runForAll (wm_set w))"
    using assms(10,12) by (auto simp: wm_call_def split: if_splits)
  have out: "u \<notin> set us \<Longrightarrow> map_of (wm_set w) u = None" for u
    using ws.members_lookup [OF assms(9)] w(3) by auto
  note sync = nitro_key_sync [OF assms(1,2,3,4,5,6)]
  have ret: "run u s = Returned (reached (run u s))" for u s
  proof -
    have "\<exists>out. run u s = Returned out"
      using key_sync.run_returns [OF sync assms(7), where fr = "fr u" and s = "fst s" and e = "snd s"] assms(8)
      unfolding run_def by (simp add: boxKeyLen_def)
    then show ?thesis by auto
  qed
  have fleet: "syncWith (nitro_createAttstn leader) (nitro_verifyAttstn leader verify t') box
      (fleet_client render deliver (nitro_fleet verify box worker t inst fr)) (rnd u) keys u y =
      Returned (y(u := fst (reached (run u (y u)))), snd (reached (run u (y u))))" if "u \<in> set us" for u y
    unfolding syncWith_fleet [OF assms(13) [OF that]]
    unfolding run by (subst ret) (simp add: map_prod_def split_beta)
  obtain w' where all: "run_spawned (\<lambda>u. resync (nitro_createAttstn leader) (nitro_verifyAttstn leader verify t') box
        (fleet_client render deliver (nitro_fleet verify box worker t inst fr)) (rnd u) keys u) us (w1, x) =
      Returned (w', \<lambda>u. if u \<in> set us then fst (reached (run u (x u))) else x u)"
    "map_of (wm_set w') = (\<lambda>u. if u \<in> set us \<and> snd (reached (run u (x u))) \<noteq> None then None else map_of (wm_set w) u)"
    using run_resync [where out = "\<lambda>u s. reached (run u s)", OF fleet w(1) assms(9,11), of x] unfolding w(2) by blast
  have real: "idle (fst (x u)) \<and> fst s' = asWorker \<and> inst u keys (snd (x u)) = (snd s', None)"
    if "run u (x u) = Returned (s', None)" for u s'
    using key_sync.run_success [OF sync assms(7), where fr = "fr u" and box = box and s = "fst (x u)" and e = "snd (x u)"
        and s' = "fst s'" and e' = "snd s'"] assms(8) that unfolding run_def by (simp add: boxKeyLen_def)
  define x' where "x' = (\<lambda>u. if u \<in> set us then fst (reached (run u (x u))) else x u)"
  have per: "\<exists>err. run u (x u) = Returned (x' u, err)
      \<and> map_of (wm_set w') u = (if err = None then map_of (wm_set w) u else None)
      \<and> (err = None \<longrightarrow> idle (fst (x u)) \<and> fst (x' u) = asWorker \<and> inst u keys (snd (x u)) = (snd (x' u), None))"
    if "u \<in> set us" for u
  proof -
    have "run u (x u) = Returned (x' u, snd (reached (run u (x u))))"
      using ret [of u "x u"] that by (metis x'_def prod.collapse)
    with real [of u "x' u"] that show ?thesis by (metis all(2))
  qed
  show ?thesis
  proof (intro exI conjI)
    show "run_spawned (\<lambda>u. resync (nitro_createAttstn leader) (nitro_verifyAttstn leader verify t') box
        (fleet_client render deliver (nitro_fleet verify box worker t inst fr)) (rnd u) keys u) us (w1, x) = Returned (w', x')"
      unfolding x'_def by (rule all(1))
    show "\<forall>u. u \<notin> set us \<longrightarrow> x' u = x u \<and> map_of (wm_set w') u = None"
      using out by (simp add: x'_def all(2))
  qed (use per in \<open>simp only: run, blast\<close>)
qed

theorem resync_keeps_synced_witness:
  "let a = getSyncURL ''a'' 1; b = getSyncURL ''b'' 1;
       w = \<lparr>wm_timeout = 60, wm_set = [(a, 5), (b, 6)], wm_running = True\<rparr> in
   \<exists>w' x'. run_spawned (\<lambda>u. resync (nitro_createAttstn sim_nsm) (nitro_verifyAttstn sim_nsm (sim_nitrite []) 0) sim_box
       (fleet_client (\<lambda>_. []) bytes_reader (nitro_fleet (sim_nitrite []) sim_box (\<lambda>_. sim_nsm) (\<lambda>_. 0)
          (\<lambda>_ k e. (e @ [k], None)) (\<lambda>_. sim_fresh)))
       (sim_rand 1) (sim_keys [1]) u) [b, a] (w, (\<lambda>_. (asWorker, []))(b := (sim_pending, []))) = Returned (w', x')
     \<and> map_of (wm_set w') a = Some 5 \<and> x' a = (asWorker, [sim_keys [1]])
     \<and> map_of (wm_set w') b = None \<and> x' b = (sim_pending, [])"
proof -
  let ?a = "getSyncURL ''a'' 1" and ?b = "getSyncURL ''b'' 1"
  let ?w = "\<lparr>wm_timeout = 60, wm_set = [(?a, 5), (?b, 6)], wm_running = True\<rparr>"
  let ?inst = "\<lambda>k e. (e @ [k], None :: go_error option)" and ?x = "(\<lambda>_. (asWorker, []))(?b := (sim_pending, []))"
  let ?run = "\<lambda>u. syncWith (nitro_createAttstn sim_nsm) (nitro_verifyAttstn sim_nsm (sim_nitrite []) 0) sim_box
      (worker_client (\<lambda>_. []) bytes_reader (nitro_fleet (sim_nitrite []) sim_box (\<lambda>_. sim_nsm) (\<lambda>_. 0)
        (\<lambda>_. ?inst) (\<lambda>_. sim_fresh) u)) (sim_rand 1) (sim_keys [1]) u"
  have ab: "?a \<noteq> ?b" by (simp add: getSyncURL_def)
  have ra: "?run ?a (?x ?a) = Returned ((asWorker, [sim_keys [1]]), None)"
    using sim_run [of "[1]" ?inst "[]" "[sim_keys [1]]" 0 0 "\<lambda>_. []" ?a] ab
    by (simp add: run_sync_def nitro_fleet_def)
  have rb: "?run ?b (?x ?b) = Returned ((sim_pending, []), Some (ErrNo200 429))"
    using run_busy [OF sim_newNonce [of 1], where s = sim_pending and e = "[]" and inst = ?inst and box = sim_box
        and k = "\<lparr>bk_pubKey = replicate 32 3, bk_privKey = replicate 32 4\<rparr>"]
    by (simp add: run_sync_def nitro_fleet_def sim_pending_def)
  have pcrs: "arePCRsIdentical [] []" by (simp add: arePCRsIdentical_def)
  have box: "fr_boxKey sim_fresh = Inr (pub, priv) \<Longrightarrow> length pub = 32 \<and> opens_sealed sim_box pub priv"
    for pub priv by (auto simp: sim_fresh_def sim_opens)
  have wf: "wf_workers (wm_set ?w)" "wm_call ForAll ?w = Returned (?w, [Spawned [?a, ?b]])"
    using ab by (simp_all add: wf_workers_def wm_call_def runForAll_def)
  have us: "distinct [?b, ?a]" "set [?b, ?a] = set [?a, ?b]" using ab by auto
  have q: "u \<in> set [?b, ?a] \<Longrightarrow> u_RawQuery u = []" for u by (auto simp: getSyncURL_def)
  obtain w' x' where all: "run_spawned (\<lambda>u. resync (nitro_createAttstn sim_nsm) (nitro_verifyAttstn sim_nsm (sim_nitrite []) 0) sim_box
       (fleet_client (\<lambda>_. []) bytes_reader (nitro_fleet (sim_nitrite []) sim_box (\<lambda>_. sim_nsm) (\<lambda>_. 0)
          (\<lambda>_. ?inst) (\<lambda>_. sim_fresh))) (sim_rand 1) (sim_keys [1]) u) [?b, ?a] (?w, ?x) = Returned (w', x')"
    and per: "\<forall>u\<in>set [?b, ?a]. \<exists>err. ?run u (?x u) = Returned (x' u, err)
        \<and> map_of (wm_set w') u = (if err = None then map_of (wm_set ?w) u else None)"
    using resync_keeps_synced [where fr = "\<lambda>_. sim_fresh" and worker = "\<lambda>_. sim_nsm" and regs' = "\<lambda>_. []" and x = ?x
        and inst = "\<lambda>_. ?inst" and t = "\<lambda>_. 0" and t' = 0 and keys = "sim_keys [1]" and rnd = "\<lambda>_. sim_rand 1"
        and render = "\<lambda>_. []",
        OF sim_issues sim_attests sim_issues sim_attests pcrs pcrs faithful_delivery_bytes_reader box wf us q]
    by blast
  have "x' ?a = (asWorker, [sim_keys [1]]) \<and> map_of (wm_set w') ?a = Some 5"
    using per ra by auto
  moreover have "x' ?b = (sim_pending, []) \<and> map_of (wm_set w') ?b = None"
    using per rb by auto
  ultimately show ?thesis using all unfolding Let_def by blast
qed

text \<open>C24: The document of the public attestation endpoint, presented to a leader by a supposed worker,
  passes verification as a leader's document and makes the leader's type assertion panic. Whoever can
  make the leader contact a host of his choice can so end the leader's process, since the nonce in
  the request is the one he passes on to the attestation endpoint.\<close>

theorem client_document_crashes_leader:
  assumes "issues t leader verify regs" "attests leader" "wf_pcrs regs" "newNonce rnd = Inr n"
    and "attestationHandler False hashes (nitro_createAttstn leader) r = w_Fprintln b64Doc newResponse"
    and "getNonceFromReq r = Inr n" "b64Doc = b64_EncodeToString doc"
    and "cl_Get client (worker\<lparr>u_RawQuery := nonce_query n\<rparr>) x =
      (x', Inr \<lparr>hr_StatusCode = 200, hr_Body = deliver (attstnBody_Marshal
         \<lparr>ab_Document = b64Doc, ab_EncryptedKeys = []\<rparr>)\<rparr>)"
    and "faithful_delivery deliver" "b64_EncodedLen (length doc) + 36 \<le> maxReadLen"
  shows "syncWith (nitro_createAttstn leader) (nitro_verifyAttstn leader verify t) box client rnd keys worker x =
    Panics (x', None)"
proof -
  have doc: "nitro_createAttstn leader (ClientAux \<lparr>ca_clientNonce = n, ca_attestationHashes = Serialize hashes\<rparr>) =
      Inr doc"
    using assms(5-7)
    by (auto simp: attestationHandler_def go_defs split: sum.splits dest: arg_cong [where f = rs_body])
  have wf: "wf_nonce n" using assms(4) by (simp add: newNonce_Inr)
  have "nitro_verifyAttstn leader verify t doc n = Inr (LeaderAux \<lparr>la_WorkersNonce = n,
      la_HashOfEncrypted = Some (Serialize hashes)\<rparr>)"
    using nitro_client_document [OF assms(1,2,1) arePCRsIdentical_refl [OF assms(3)] doc] wf by simp
  moreover have "io_ReadAll (newLimitReader (deliver (attstnBody_Marshal \<lparr>ab_Document = b64_EncodeToString doc,
      ab_EncryptedKeys = []\<rparr>)) maxReadLen) =
      (attstnBody_Marshal \<lparr>ab_Document = b64_EncodeToString doc, ab_EncryptedKeys = []\<rparr>, None)"
    using assms(10) by (simp add: ReadAll_delivered [OF assms(9)] length_attstnBody)
  ultimately show ?thesis
    by (intro syncWith_wrong_role [OF assms(4,8), where doc = doc]) (simp_all add: assms(7))
qed

text \<open>A malicious host for the witness: it answers every request with the leader's own document.\<close>

definition sim_request :: request where
  "sim_request =
     \<lparr>rq_Method = ''GET'', rq_URL = \<lparr>u_Scheme = [], u_Host = [], u_Path = pathAttestation,
        u_RawQuery = nonce_query (replicate 20 1)\<rparr>, rq_Body = []\<rparr>"

lemma sim_request_nonce: "getNonceFromReq sim_request = Inr (replicate 20 1)"
  by (rule getNonceFromReq_query) (simp_all add: sim_request_def wf_nonce_def nonceLen_def)

definition sim_client_doc :: bytes where
  "sim_client_doc = sim_encode (attestation_request (ClientAux \<lparr>ca_clientNonce = replicate 20 1,
     ca_attestationHashes = Serialize newAttestationHashes\<rparr>))"

definition sim_attacker :: "unit client" where
  "sim_attacker =
     \<lparr>cl_Get = (\<lambda>u x. (x, Inr \<lparr>hr_StatusCode = 200, hr_Body = bytes_reader (attstnBody_Marshal
        \<lparr>ab_Document = b64_EncodeToString sim_client_doc, ab_EncryptedKeys = []\<rparr>)\<rparr>)),
      cl_Post = (\<lambda>u b x. (x, Inl EOF))\<rparr>"

lemma length_sim_client_doc: "length sim_client_doc = 182"
  using length_Serialize [OF wf_newAttestationHashes]
  by (simp add: sim_client_doc_def sim_encode_def attestation_request_def length_keys length_slice_json
      b64_EncodedLen_def padding_length)

theorem client_document_crashes_leader_witness:
  "syncWith (nitro_createAttstn sim_nsm) (nitro_verifyAttstn sim_nsm (sim_nitrite []) 0) sim_box sim_attacker
     (sim_rand 1) noKeys (getSyncURL ''attacker'' 444) () = Panics ((), None)"
proof (rule client_document_crashes_leader [OF sim_issues sim_attests _ sim_newNonce _ sim_request_nonce HOL.refl])
  show "attestationHandler False newAttestationHashes (nitro_createAttstn sim_nsm) sim_request =
      w_Fprintln (b64_EncodeToString sim_client_doc) newResponse"
    by (simp add: attestationHandler_def sim_request_nonce sim_create sim_client_doc_def)
  show "cl_Get sim_attacker (getSyncURL ''attacker'' 444\<lparr>u_RawQuery := nonce_query (replicate 20 1)\<rparr>) () =
      ((), Inr \<lparr>hr_StatusCode = 200, hr_Body = bytes_reader (attstnBody_Marshal
        \<lparr>ab_Document = b64_EncodeToString sim_client_doc, ab_EncryptedKeys = []\<rparr>)\<rparr>)"
    by (simp add: sim_attacker_def)
  show "b64_EncodedLen (length sim_client_doc) + 36 \<le> maxReadLen"
    by (simp add: length_sim_client_doc maxReadLen_value b64_EncodedLen_def)
qed (simp_all add: wf_pcrs_def faithful_delivery_bytes_reader)

section \<open>Properties across components\<close>

text \<open>C5: Application state reaches the workers: what the application stores on the leader is, after a
  synchronization that the leader reports as successful, exactly what the application reads on the
  worker, and the worker's heartbeat then carries the leader's hash.\<close>

theorem state_replicates:
  assumes "issues t leader verify regs" "attests leader" "issues t' worker verify regs'" "attests worker"
    and "arePCRsIdentical regs regs'" "arePCRsIdentical regs' regs" "faithful_delivery deliver"
    and "\<And>pub priv. fr_boxKey fr = Inr (pub, priv) \<Longrightarrow> length pub = 32 \<and> opens_sealed box pub priv"
    and "rq_Body r = deliver body" "wm_running ws"
    and "putStateHandler isLeader r (keys, ws) = Returned ((keys', ws', gs), w)" "rs_status w = StatusOK"
    and "run_sync (nitro_createAttstn worker) (nitro_verifyAttstn worker verify t)
      (nitro_createAttstn leader) (nitro_verifyAttstn leader verify t')
      box render deliver (install pki host) fr rnd keys' u (s, e) = Returned ((s', e'), None)"
  shows "(\<exists>w'. getStateHandler (\<lambda>bs. (length bs, None)) isWorker (en_keys e') = Returned w'
      \<and> rs_status w' = StatusOK \<and> rs_body w' = [Raw body])
    \<and> hashAndB64 (en_keys e') = hashAndB64 keys' \<and> keys_equal (en_keys e') keys'"
proof -
  have ok: "setAppKeys (Some body) keys = keys'"
    using assms(10-12)
    by (auto simp: putStateHandler_def assms(9) ReadAll_delivered [OF assms(7)] split: if_splits)
  have "install pki host keys' e = (e', None)"
    using key_sync.run_success [OF nitro_key_sync [OF assms(1-6)] assms(7) _ assms(13)] assms(8)
    by (simp add: boxKeyLen_def)
  then have k: "en_keys e' = keys'"
    by (auto simp: install_def setupWorkerPostSync_def Let_def split: sum.splits)
  have "getAppKeys keys' = Some body" by (metis ok getAppKeys_setAppKeys)
  then have a: "slice_bytes (getAppKeys keys') = body" by (simp add: slice_bytes_def)
  have st: "rs_status (w_SetHeader x y newResponse) = StatusOK" "rs_body (w_SetHeader x y newResponse) = []"
    for x y by (simp_all add: go_defs)
  show ?thesis by (simp add: getStateHandler_def a st k)
qed

theorem state_replicates_witness:
  "\<exists>e' :: unit enclave. (\<exists>w'. getStateHandler (\<lambda>bs. (length bs, None)) isWorker (en_keys e') = Returned w'
     \<and> rs_status w' = StatusOK \<and> rs_body w' = [Raw [1, 2]])"
proof -
  let ?pki = "\<lparr>pk_pem_blocks = (\<lambda>_. []), pk_ParseCertificate = (\<lambda>b. Inl EOF), pk_X509KeyPair = (\<lambda>c k. Inr ())\<rparr>"
  let ?ws = "wm_start (newWorkerManager minute)"
  let ?r = "\<lparr>rq_Method = ''PUT'', rq_URL = getSyncURL ''l'' 1, rq_Body = bytes_reader [1, 2]\<rparr>"
  obtain e' where e': "install ?pki ''w'' (sim_keys [1, 2]) plain_enclave = (e', None)"
    by (simp add: install_def setupWorkerPostSync_def)
  have run: "run_sync (nitro_createAttstn sim_nsm) (nitro_verifyAttstn sim_nsm (sim_nitrite []) 0)
      (nitro_createAttstn sim_nsm) (nitro_verifyAttstn sim_nsm (sim_nitrite []) 0)
      sim_box (\<lambda>_. []) bytes_reader (install ?pki ''w'') sim_fresh (sim_rand 1) (sim_keys [1, 2])
      (getSyncURL ''worker'' 444) (asWorker, plain_enclave) = Returned ((asWorker, e'), None)"
    using e' by (intro sim_run) simp_all
  have pcrs: "arePCRsIdentical [] []" by (simp add: arePCRsIdentical_def)
  have box: "fr_boxKey sim_fresh = Inr (pub, priv) \<Longrightarrow> length pub = 32 \<and> opens_sealed sim_box pub priv"
    for pub priv by (auto simp: sim_fresh_def sim_opens)
  have put: "putStateHandler isLeader ?r (sim_keys [], ?ws) =
      Returned ((sim_keys [1, 2], ?ws, [ForAllResync]), w_WriteHeader StatusOK newResponse)"
    by (simp add: putStateHandler_def ReadAll_delivered [OF faithful_delivery_bytes_reader]
        maxKeyMaterialLen_def setAppKeys_def sim_keys_def wm_start_def)
  from state_replicates [OF sim_issues sim_attests sim_issues sim_attests pcrs pcrs
      faithful_delivery_bytes_reader box _ _ put _ run, of "[1, 2]"]
  show ?thesis by (auto simp: wm_start_def)
qed

text \<open>C7: Attestation documents bind what they should: after the application registered a hash, the
  document that a client gets for its nonce verifies to exactly that nonce, the TLS certificate's
  hash and the registered hash, and the registers of the enclave; with profiling enabled there is no
  document at all.\<close>

theorem attestation_binds_hashes:
  assumes "issues t enclave verify regs" "attests enclave"
    and "length hash = 32" "wf_hashes h" "faithful_delivery deliver"
    and "rq_Body r0 = deliver (str_bytes (b64_EncodeToString hash) @ nl)" "nl = [] \<or> nl = [0x0A]"
    and "wf_nonce n" "u_RawQuery (rq_URL r) = nonce_query n" "now \<in> {None, Some t}"
  shows "\<exists>doc. attestationHandler False (fst (hashHandler r0 h)) (nitro_createAttstn enclave) r =
      w_Fprintln (b64_EncodeToString doc) newResponse
    \<and> verify now doc = Inr \<lparr>doc_PCRs = regs, doc_Nonce = Some n,
        doc_UserData = Some (hashPrefix @ tlsKeyHash h @ hashPrefix @ hash), doc_PublicKey = Some padding\<rparr>
    \<and> attestationHandler True (fst (hashHandler r0 h)) (nitro_createAttstn enclave) r =
        http_Error ErrProfilingSet StatusServiceUnavailable newResponse"
proof -
  have h: "fst (hashHandler r0 h) = h\<lparr>appKeyHash := hash\<rparr>"
    using hashHandler_accepts [OF _ assms(4-7)] assms(3) by (simp add: sha256_Size_def)
  let ?aux = "ClientAux \<lparr>ca_clientNonce = n, ca_attestationHashes = Serialize (h\<lparr>appKeyHash := hash\<rparr>)\<rparr>"
  have "within_limits (attestation_request ?aux)"
    using assms(3,4,8)
    by (simp add: within_limits_def attestation_request_def wf_nonce_def nonceLen_def padding_length
        length_Serialize wf_hashes_def sha256_Size_def)
  then obtain doc where doc: "nitro_createAttstn enclave ?aux = Inr doc"
    using assms(2) unfolding attests_def by blast
  have "verify now doc = Inr \<lparr>doc_PCRs = regs, doc_Nonce = Some n,
      doc_UserData = Some (Serialize (h\<lparr>appKeyHash := hash\<rparr>)), doc_PublicKey = Some padding\<rparr>"
    using issued_verifies [OF assms(1) doc assms(10)] by (simp add: attestation_request_def)
  with doc show ?thesis
    by (intro exI [where x = doc])
      (simp add: attestationHandler_def h getNonceFromReq_query [OF assms(8,9)] Serialize_def)
qed

theorem attestation_binds_hashes_witness:
  "\<exists>doc. attestationHandler False (fst (hashHandler \<lparr>rq_Method = ''POST'', rq_URL = getSyncURL [] 1,
        rq_Body = bytes_reader (str_bytes (b64_EncodeToString (replicate 32 9)) @ [])\<rparr> newAttestationHashes))
      (nitro_createAttstn sim_nsm) sim_request = w_Fprintln (b64_EncodeToString doc) newResponse"
  using attestation_binds_hashes [OF sim_issues sim_attests _ wf_newAttestationHashes
      faithful_delivery_bytes_reader, of "replicate 32 9" "\<lparr>rq_Method = ''POST'', rq_URL = getSyncURL [] 1,
        rq_Body = bytes_reader (str_bytes (b64_EncodeToString (replicate 32 9)) @ [])\<rparr>" "[]"
      "replicate 20 1" sim_request None 0 "[]"]
  by (auto simp: wf_nonce_def nonceLen_def sim_request_def)

lemma beat_at_leader:
  assumes "faithful_delivery deliver" "wm_running ws" "ExtPrivPort (en_cfg e) = port"
    and "list_all html_safe host" "length host \<le> 255"
    and "set host \<inter> {CHR '':'', CHR ''['', CHR '']''} = {}"
  shows "beat render (leader_post deliver port keys now) (getSyncURL host port) (e, ws, gs) =
    (e\<lparr>en_metrics := (en_metrics e)\<lparr>me_heartbeats := add_mset goodHb (me_heartbeats (en_metrics e))\<rparr>\<rparr>,
     if hashAndB64 (en_keys e) = hashAndB64 keys
     then (fst (wm_step ws (Reg (getSyncURL host port) now)), gs)
     else (ws, gs @ [SyncAndRegister (getSyncURL host port)]))"
proof -
  let ?hb = "\<lparr>hb_HashedKeys = hashAndB64 (en_keys e), hb_WorkerHostname = u_Host (getSyncURL host port)\<rparr>"
  have digits: "list_all html_safe (show_nat n) \<and> set (show_nat n) \<inter> {CHR '':'', CHR ''['', CHR '']''} = {}" for n
    using show_nat_digits [of n] by (auto simp: list_all_iff is_digit_def html_safe_def)
  have "net_SplitHostPort (host @ CHR '':'' # show_nat (unat port)) = Inr (host, show_nat (unat port))"
    using assms(6) digits by (intro SplitHostPort_simple) auto
  then have worker: "getWorker port ?hb = Inr (getSyncURL host port)"
    by (simp add: getWorker_def getSyncURL_def)
  have safe: "list_all html_safe (hb_HashedKeys ?hb)" "list_all html_safe (hb_WorkerHostname ?hb)"
    using digits assms(4) by (simp_all add: hashAndB64_def list_all_html_safe_b64 getSyncURL_def html_safe_def)
  have fits: "length (heartbeat_Marshal ?hb) \<le> maxHeartbeatBody"
    using heartbeat_length [OF assms(4,5), of "en_keys e" port] by (simp add: maxHeartbeatBody_def)
  note handled = heartbeat_handled [OF assms(1) _ safe fits worker assms(2), of _ keys now]
  show ?thesis
    by (simp add: beat_def leader_post_def handled goodHb_def Let_def)
qed

text \<open>C13: A heartbeat does its job end to end: if the worker's keys have the leader's hash, the leader
  registers exactly the worker's synchronization address with the current time and the worker counts
  a good heartbeat; otherwise the leader starts a synchronization with that address and registers
  nothing yet.\<close>

theorem heartbeat_end_to_end:
  assumes "faithful_delivery deliver" "wm_running ws" "ExtPrivPort (en_cfg e) = port"
    and "list_all html_safe host" "length host \<le> 255"
    and "set host \<inter> {CHR '':'', CHR ''['', CHR '']''} = {}"
  shows "let worker = getSyncURL host port;
      same = (hashAndB64 (en_keys e) = hashAndB64 keys);
      (e', ws', gs') = beat render (leader_post deliver port keys now) worker (e, ws, gs) in
    ws' = (if same then fst (wm_step ws (Reg worker now)) else ws)
    \<and> gs' = (if same then gs else gs @ [SyncAndRegister worker])
    \<and> e' = e\<lparr>en_metrics := (en_metrics e)\<lparr>me_heartbeats := add_mset goodHb (me_heartbeats (en_metrics e))\<rparr>\<rparr>"
  using beat_at_leader [OF assms, where render = render and keys = keys and now = now and gs = gs]
  by (simp add: Let_def)

theorem heartbeat_end_to_end_witness:
  "let worker = getSyncURL ''w'' 444;
       (e', ws', gs') = beat (\<lambda>_. []) (leader_post bytes_reader 444 noKeys 7) worker
         (plain_enclave :: unit enclave, wm_start (newWorkerManager minute), []) in
   map_of (wm_set ws') worker = Some 7"
proof -
  have [simp]: "ExtPrivPort plain_config = 444" "en_keys (plain_enclave :: unit enclave) = noKeys"
    by (simp_all add: plain_enclave_def NewEnclave_def plain_config_def Validate_def isScalingEnabled_def)
  show ?thesis
    using heartbeat_end_to_end [OF faithful_delivery_bytes_reader, of "wm_start (newWorkerManager minute)"
        "plain_enclave :: unit enclave" 444 "''w''" noKeys "\<lambda>_. []" 7 "[]"]
    by (simp add: wm_start_def html_safe_def Let_def ws_register_def update_conv' split: prod.splits)
qed

text \<open>C6: Heartbeats make a worker converge: after a heartbeat the worker is either registered at once,
  with key material of the leader's hash, or the leader starts a synchronization with it; in a run
  whose messages fit, that synchronization installs the leader's keys and registers the worker, and
  the next heartbeat finds nothing left to do.\<close>

theorem heartbeat_converges:
  assumes "issues t leader verify regs" "attests leader" "issues t' worker verify regs'" "attests worker"
    and "arePCRsIdentical regs regs'" "arePCRsIdentical regs' regs"
    and "faithful_delivery deliver" "idle s"
    and "newNonce rnd = Inr ln" "newNonce (fr_rand fr) = Inr wn"
    and "fr_boxKey fr = Inr (pub, priv)" "length pub = 32" "opens_sealed box pub priv"
    and "nitro_createAttstn worker (WorkerAux \<lparr>wa_WorkersNonce = wn, wa_LeadersNonce = ln,
           wa_PublicKey = Some pub\<rparr>) = Inr wdoc"
    and "b64_EncodedLen (length wdoc) + 36 \<le> maxReadLen"
    and "box_SealAnonymous box (keys_Marshal keys) pub = Inr encrypted"
    and "nitro_createAttstn leader (LeaderAux \<lparr>la_WorkersNonce = wn,
           la_HashOfEncrypted = Some (sha256_Sum256 encrypted)\<rparr>) = Inr ldoc"
    and "fits ldoc encrypted"
    and "pk_X509KeyPair pki (slice_bytes (NitridingCert keys)) (slice_bytes (NitridingKey keys)) = Inr cert"
    and "wm_running ws" "ExtPrivPort (en_cfg e) = port"
    and "list_all html_safe host" "length host \<le> 255" "set host \<inter> {CHR '':'', CHR ''['', CHR '']''} = {}"
  shows "let u = getSyncURL host port;
      (e1, ws1, gs1) = beat render (leader_post deliver port keys now) u (e, ws, []) in
    gs1 = [] \<and> hashAndB64 (en_keys e1) = hashAndB64 keys \<and> map_of (wm_set ws1) u = Some now
    \<or> gs1 = [SyncAndRegister u]
      \<and> (\<exists>e2 ws2. syncAndRegister (nitro_createAttstn leader) (nitro_verifyAttstn leader verify t') box
            (worker_client render deliver (ServeHTTP (nitro_createAttstn worker)
              (nitro_verifyAttstn worker verify t) box (install pki host) fr))
            rnd now' keys u (ws1, (s, e1)) = Returned (ws2, (asWorker, e2))
          \<and> en_keys e2 = keys \<and> map_of (wm_set ws2) u = Some now'
          \<and> snd (snd (beat render (leader_post deliver port keys now'') u (e2, ws2, []))) = [])"
proof -
  note beat = beat_at_leader [OF assms(7) _ _ assms(22-24), where render = render and keys = keys]
  let ?u = "getSyncURL host port"
  define e1 where
    "e1 = e\<lparr>en_metrics := (en_metrics e)\<lparr>me_heartbeats := add_mset goodHb (me_heartbeats (en_metrics e))\<rparr>\<rparr>"
  have cfg1: "ExtPrivPort (en_cfg e1) = port" using assms(21) by (simp add: e1_def)
  let ?reg = "\<lambda>t. fst (wm_step ws (Reg ?u t))"
  have reg: "map_of (wm_set (?reg t)) ?u = Some t" "wm_running (?reg t)" for t
    using assms(20) by (simp_all add: ws_register_def update_conv')
  obtain e2 where e2: "install pki host keys e1 = (e2, None)" "en_keys e2 = keys" "en_cfg e2 = en_cfg e1"
    using assms(19) by (simp add: install_def setupWorkerPostSync_def)
  have "length pub = boxKeyLen" using assms(12) by (simp add: boxKeyLen_def)
  from key_sync.run_honest [OF nitro_key_sync [OF assms(1-6)] assms(7-11) this assms(13-18),
      where inst = "install pki host" and e = e1 and u = ?u and render = render] e2(1)
  have sync: "syncAndRegister (nitro_createAttstn leader) (nitro_verifyAttstn leader verify t') box
      (worker_client render deliver (ServeHTTP (nitro_createAttstn worker)
        (nitro_verifyAttstn worker verify t) box (install pki host) fr))
      rnd now' keys ?u (ws, (s, e1)) = Returned (?reg now', (asWorker, e2))"
    using assms(20) by (simp add: syncAndRegister_def run_sync_def)
  have again: "snd (snd (beat render (leader_post deliver port keys now'') ?u (e2, ?reg now', []))) = []"
    using beat [OF reg(2), where e = e2 and port = port and now = now'' and gs = "[]"] e2(2,3) cfg1 by simp
  show ?thesis
    using beat [OF assms(20,21), where now = now and gs = "[]"] sync again reg(1) e2(2)
    by (auto simp: Let_def e1_def)
qed

theorem heartbeat_converges_witness:
  "let u = getSyncURL ''w'' 444;
       pki = \<lparr>pk_pem_blocks = (\<lambda>_. []), pk_ParseCertificate = (\<lambda>b. Inl EOF), pk_X509KeyPair = (\<lambda>c k. Inr ())\<rparr>;
       (e1, ws1, gs1) = beat (\<lambda>_. []) (leader_post bytes_reader 444 (sim_keys [1]) 7) u
         (plain_enclave, wm_start (newWorkerManager minute), []) in
   gs1 = [] \<and> hashAndB64 (en_keys e1) = hashAndB64 (sim_keys [1])
   \<or> (\<exists>e2 ws2. syncAndRegister (nitro_createAttstn sim_nsm) (nitro_verifyAttstn sim_nsm (sim_nitrite []) 0) sim_box
          (worker_client (\<lambda>_. []) bytes_reader (ServeHTTP (nitro_createAttstn sim_nsm)
            (nitro_verifyAttstn sim_nsm (sim_nitrite []) 0) sim_box (install pki ''w'') sim_fresh))
          (sim_rand 1) 8 (sim_keys [1]) u (ws1, (asWorker, e1)) = Returned (ws2, (asWorker, e2))
        \<and> en_keys e2 = sim_keys [1])"
proof -
  let ?pki = "\<lparr>pk_pem_blocks = (\<lambda>_. []), pk_ParseCertificate = (\<lambda>b. Inl EOF), pk_X509KeyPair = (\<lambda>c k. Inr ())\<rparr>"
  have pcrs: "arePCRsIdentical [] []" by (simp add: arePCRsIdentical_def)
  have fresh: "newNonce (fr_rand sim_fresh) = Inr (replicate 20 2)"
    "fr_boxKey sim_fresh = Inr (replicate 32 3, replicate 32 4)" "length (replicate 32 (3 :: byte)) = 32"
    "opens_sealed sim_box (replicate 32 3) (replicate 32 4)"
    by (simp_all add: sim_fresh_def sim_newNonce sim_opens)
  have size: "b64_EncodedLen (length (sim_encode (attestation_request (WorkerAux
      \<lparr>wa_WorkersNonce = replicate 20 2, wa_LeadersNonce = replicate 20 1,
       wa_PublicKey = Some (replicate 32 3)\<rparr>)))) + 36 \<le> maxReadLen"
    by (simp add: length_sim_worker maxReadLen_value) (simp add: b64_EncodedLen_def)
  have small: "length [1 :: byte] \<le> 3" by simp
  have cert: "pk_X509KeyPair ?pki c k = Inr ()" for c k by simp
  have run: "wm_running (wm_start (newWorkerManager minute))" by (simp add: wm_start_def)
  have port: "ExtPrivPort (en_cfg (plain_enclave :: unit enclave)) = 444" by (simp add: plain_config_def)
  have host: "list_all html_safe ''w''" "length ''w'' \<le> 255" "set ''w'' \<inter> {CHR '':'', CHR ''['', CHR '']''} = {}"
    by (simp_all add: html_safe_def)
  show ?thesis
    using heartbeat_converges [OF sim_issues sim_attests sim_issues sim_attests pcrs pcrs
        faithful_delivery_bytes_reader idle_asWorker sim_newNonce [of 1] fresh sim_create size sim_sealed
        sim_create sim_fits [OF small] cert run port host, where now = 7 and now' = 8 and now'' = 9
        and render = "\<lambda>_. []" and t = 0 and t' = 0]
    unfolding Let_def by (auto split: prod.splits)
qed

end
